theory Spec2Isabelle
  imports Complex_Main "HOL-Library.Sublist" "HOL-Library.AList" "HOL-Library.Multiset"
begin

section \<open>JavaScript values used by the analysis core\<close>

text \<open>
  JavaScript numbers are modelled as exact real numbers: there is no NaN, no infinity and no
  rounding error. Byte counts are natural numbers and HTTP status codes are integers.
  A property that may be absent (\<open>undefined\<close>) is an \<open>option\<close>.
  \<open>Math.random()\<close> is an explicit argument, a number \<open>r\<close> with \<open>0 \<le> r < 1\<close>.
\<close>

text \<open>\<open>Math.round\<close>: the nearest integer, a tie going towards plus infinity.\<close>

definition js_round :: "real \<Rightarrow> int" where
  "js_round x = \<lfloor>x + 1 / 2\<rfloor>"

text \<open>Truthiness of an optional number: \<open>undefined\<close> and \<open>0\<close> are falsy.\<close>

fun truthy :: "real option \<Rightarrow> bool" where
  "truthy None = False"
| "truthy (Some x) = (x \<noteq> 0)"


text \<open>\<open>a && b\<close> followed by \<open>a - b\<close>: the difference when both operands are truthy.\<close>

fun both_diff :: "real option \<Rightarrow> real option \<Rightarrow> real option" where
  "both_diff (Some a) (Some b) = (if a \<noteq> 0 \<and> b \<noteq> 0 then Some (a - b) else None)"
| "both_diff _ _ = None"

section \<open>Number formatting\<close>

definition digit_char :: "nat \<Rightarrow> char" where
  "digit_char d = ''0123456789'' ! (d mod 10)"

text \<open>The decimal digits of a natural number (a template literal \<open>${n}\<close>).\<close>

function show_nat :: "nat \<Rightarrow> string" where
  "show_nat n = (if n < 10 then [digit_char n] else show_nat (n div 10) @ [digit_char (n mod 10)])"
  by pat_completeness auto
termination
  by (relation "measure id") auto

declare show_nat.simps [simp del]

definition show_int :: "int \<Rightarrow> string" where
  "show_int i = (if i < 0 then ''-'' @ show_nat (nat (- i)) else show_nat (nat i))"

text \<open>
  \<open>Number.prototype.toFixed(f)\<close> for magnitudes below \<open>10^21\<close>: the sign, then the integer
  \<open>n\<close> nearest to \<open>|x| * 10^f\<close> (the larger one at a tie), written with at least \<open>f + 1\<close>
  digits and a point before the last \<open>f\<close> of them.
\<close>

definition toFixed :: "nat \<Rightarrow> real \<Rightarrow> string" where
  "toFixed f x =
     (let n = nat \<lfloor>\<bar>x\<bar> * 10 ^ f + 1 / 2\<rfloor>;
          ds = show_nat n;
          padded = replicate (Suc f - length ds) (CHR ''0'') @ ds;
          k = length padded - f
      in (if x < 0 then ''-'' else []) @
         (if f = 0 then padded else take k padded @ ''.'' @ drop k padded))"

text \<open>
  Number-to-string conversion of a number with at most three decimals (\<open>${3000 / 1000}\<close>
  is \<open>3\<close>, \<open>${2500 / 1000}\<close> is \<open>2.5\<close>): the integer part, then the decimals without
  trailing zeros.
\<close>

definition show_decimal :: "real \<Rightarrow> string" where
  "show_decimal x =
     (let k = nat \<lfloor>\<bar>x\<bar> * 1000\<rfloor>;
          fp = show_nat (k mod 1000);
          padded = replicate (3 - length fp) (CHR ''0'') @ fp;
          frac = rev (dropWhile (\<lambda>c. c = CHR ''0'') (rev padded))
      in (if x < 0 then ''-'' else []) @ show_nat (k div 1000) @
         (if frac = [] then [] else ''.'' @ frac))"

text \<open>
  \<open>formatBytes\<close>. \<open>unit_index\<close> is \<open>Math.floor(Math.log(bytes) / Math.log(1024))\<close>,
  computed exactly. From index 4 on \<open>sizes[i]\<close> is \<open>undefined\<close>, and a number plus
  \<open>undefined\<close> is \<open>NaN\<close>, which is printed as the text \<open>NaN\<close>.
\<close>

function unit_index :: "nat \<Rightarrow> nat" where
  "unit_index n = (if n < 1024 then 0 else Suc (unit_index (n div 1024)))"
  by pat_completeness auto
termination
  by (relation "measure id") auto

declare unit_index.simps [simp del]

definition sizes :: "string list" where
  "sizes = [''B'', ''KB'', ''MB'', ''GB'']"

definition formatBytes :: "nat \<Rightarrow> string" where
  "formatBytes bytes =
     (if bytes = 0 then ''0B''
      else
        (let i = unit_index bytes;
             v = (of_nat bytes :: real) / 1024 ^ i;
             parsed = (of_int \<lfloor>v * 10 + 1 / 2\<rfloor> :: real) / 10
         in if i < length sizes then show_decimal parsed @ sizes ! i else ''NaN''))"

section \<open>Timing estimator (analyzeApiCalls)\<close>

record net_timing =
  receiveHeadersEnd :: "real option"
  timing_requestTime :: "real option"

text \<open>One item of Lighthouse's network-requests audit, with the properties the code reads.\<close>

record network_request =
  req_url :: string
  req_method :: "string option"
  statusCode :: "int option"
  resourceType :: string
  endTime :: "real option"
  startTime :: "real option"
  networkEndTime :: "real option"
  networkRequestTime :: "real option"
  responseReceivedTime :: "real option"
  requestTime :: "real option"
  finished :: "real option"
  started :: "real option"
  timing :: "net_timing option"
  transferSize :: "nat option"
  resourceSize :: "nat option"

text \<open>\<open>call.transferSize || call.resourceSize || 0\<close>\<close>

definition size_of_call :: "network_request \<Rightarrow> nat" where
  "size_of_call call =
     (case transferSize call of
        Some t \<Rightarrow> (if t \<noteq> 0 then t
                   else (case resourceSize call of Some r \<Rightarrow> r | None \<Rightarrow> 0))
      | None \<Rightarrow> (case resourceSize call of Some r \<Rightarrow> r | None \<Rightarrow> 0))"

text \<open>
  The fallback chain, methods 1 to 6, before the final check. \<open>jitter\<close> is the value of
  \<open>Math.random()\<close> drawn by method 6. When \<open>call.timing\<close> is present without both of its
  fields, \<open>timeTaken\<close> keeps its initial value 0.
\<close>

definition chainTiming :: "real \<Rightarrow> network_request \<Rightarrow> int" where
  "chainTiming jitter call =
     (case both_diff (endTime call) (startTime call) of
        Some d \<Rightarrow> js_round d
      | None \<Rightarrow>
     (case both_diff (networkEndTime call) (networkRequestTime call) of
        Some d \<Rightarrow> js_round d
      | None \<Rightarrow>
     (case both_diff (responseReceivedTime call) (requestTime call) of
        Some d \<Rightarrow> js_round (d * 1000)
      | None \<Rightarrow>
     (case both_diff (finished call) (started call) of
        Some d \<Rightarrow> js_round d
      | None \<Rightarrow>
     (case timing call of
        Some t \<Rightarrow>
          (case both_diff (receiveHeadersEnd t) (timing_requestTime t) of
             Some d \<Rightarrow> js_round d
           | None \<Rightarrow> 0)
      | None \<Rightarrow>
          (let size = size_of_call call;
               baseTime = 50;
               sizeTime = max 10 (min 500 (of_nat size / 1000))
           in js_round (baseTime + sizeTime + jitter * 100)))))))"

text \<open>
  The estimator: the chain, then the minimum check. \<open>fallback\<close> is the value of
  \<open>Math.random()\<close> drawn when the chain's value is not positive.
\<close>

definition estimate_timeTaken :: "real \<Rightarrow> real \<Rightarrow> network_request \<Rightarrow> int" where
  "estimate_timeTaken jitter fallback call =
     (let t = chainTiming jitter call
      in if t \<le> 0 then js_round (20 + fallback * 80) else t)"

text \<open>\<open>getTimingMethod\<close>: the method name logged beside the value.\<close>

definition getTimingMethod :: "network_request \<Rightarrow> string" where
  "getTimingMethod call =
     (if truthy (endTime call) \<and> truthy (startTime call) then ''endTime-startTime''
      else if truthy (networkEndTime call) \<and> truthy (networkRequestTime call)
        then ''networkEndTime-networkRequestTime''
      else if truthy (responseReceivedTime call) \<and> truthy (requestTime call)
        then ''responseReceivedTime-requestTime''
      else if truthy (finished call) \<and> truthy (started call) then ''finished-started''
      else if timing call \<noteq> None then ''timing object''
      else ''estimated'')"

text \<open>A request with no property set but its URL and resource type.\<close>

definition bare_request :: "string \<Rightarrow> string \<Rightarrow> network_request" where
  "bare_request u rt =
     \<lparr>req_url = u, req_method = None, statusCode = None, resourceType = rt,
      endTime = None, startTime = None, networkEndTime = None, networkRequestTime = None,
      responseReceivedTime = None, requestTime = None, finished = None, started = None,
      timing = None, transferSize = None, resourceSize = None\<rparr>"

section \<open>Formatting one API call (analyzeApiCalls)\<close>

text \<open>\<open>call.statusCode || "Unknown"\<close>: a number, or the string \<open>Unknown\<close>.\<close>

datatype js_status = StatusCode int | StatusUnknown

record api_call =
  endpoint :: string
  call_method :: string
  status :: js_status
  timeTaken :: int
  avgResponseTime :: int
  maxTaken :: int
  payloadSize :: string
  errors :: string
  rawData :: "network_request option"

text \<open>The values of \<open>Math.random()\<close> that formatting one call may draw.\<close>

record random_draws =
  jitter :: real
  fallback :: real
  catch_timeTaken :: real
  catch_avgResponseTime :: real
  catch_maxTaken :: real

definition valid_draw :: "real \<Rightarrow> bool" where
  "valid_draw r = (0 \<le> r \<and> r < 1)"

definition valid_draws :: "random_draws \<Rightarrow> bool" where
  "valid_draws d =
     (valid_draw (jitter d) \<and> valid_draw (fallback d) \<and> valid_draw (catch_timeTaken d) \<and>
      valid_draw (catch_avgResponseTime d) \<and> valid_draw (catch_maxTaken d))"

definition method_or_GET :: "network_request \<Rightarrow> string" where
  "method_or_GET call =
     (case req_method call of None \<Rightarrow> ''GET'' | Some m \<Rightarrow> (if m = [] then ''GET'' else m))"

definition status_or_Unknown :: "network_request \<Rightarrow> js_status" where
  "status_or_Unknown call =
     (case statusCode call of
        None \<Rightarrow> StatusUnknown
      | Some c \<Rightarrow> (if c = 0 then StatusUnknown else StatusCode c))"

text \<open>
  The callback of \<open>apiCalls.map\<close>. \<open>pathname\<close> stands for \<open>new URL(call.url).pathname\<close>,
  which is \<open>None\<close> when the URL constructor throws; the \<open>catch\<close> block then builds the
  record from three fresh random timings.
\<close>

definition formatApiCall ::
  "(string \<Rightarrow> string option) \<Rightarrow> random_draws \<Rightarrow> network_request \<Rightarrow> api_call" where
  "formatApiCall pathname d call =
     (case pathname (req_url call) of
        Some path \<Rightarrow>
          (let t = estimate_timeTaken (jitter d) (fallback d) call
           in \<lparr>endpoint = path,
               call_method = method_or_GET call,
               status = status_or_Unknown call,
               timeTaken = t,
               avgResponseTime = t,
               maxTaken = t,
               payloadSize =
                 formatBytes (case transferSize call of None \<Rightarrow> 0 | Some n \<Rightarrow> n),
               errors =
                 (case statusCode call of
                    None \<Rightarrow> ''-''
                  | Some c \<Rightarrow> (if c \<ge> 400 then ''Error '' @ show_int c else ''-'')),
               rawData = Some call\<rparr>)
      | None \<Rightarrow>
          \<lparr>endpoint = ''Error parsing URL'',
           call_method = method_or_GET call,
           status = status_or_Unknown call,
           timeTaken = js_round (50 + catch_timeTaken d * 100),
           avgResponseTime = js_round (50 + catch_avgResponseTime d * 100),
           maxTaken = js_round (50 + catch_maxTaken d * 100),
           payloadSize = ''0B'',
           errors = ''Error parsing call data'',
           rawData = Some call\<rparr>)"

section \<open>API classifier (WebsiteCrawler.isApiRequest)\<close>

text \<open>
  Strings are lists of ASCII characters. The patterns of \<open>apiPatterns\<close> are regular
  expressions made of literal characters and \<open>\d+\<close>, with the flag \<open>i\<close> and possibly
  a final \<open>$\<close>; \<open>RegExp.prototype.test\<close> looks for a match starting at any position.
\<close>

definition digit_chars :: string where
  "digit_chars = ''0123456789''"

definition lower_letters :: string where
  "lower_letters = ''abcdefghijklmnopqrstuvwxyz''"

definition upper_letters :: string where
  "upper_letters = ''ABCDEFGHIJKLMNOPQRSTUVWXYZ''"

text \<open>The class \<open>\d\<close>.\<close>

definition is_digit :: "char \<Rightarrow> bool" where
  "is_digit c = (c \<in> set digit_chars)"

text \<open>Canonicalisation under the flag \<open>i\<close>: a lower-case ASCII letter becomes upper case.\<close>

definition canonicalize :: "char \<Rightarrow> char" where
  "canonicalize c =
     (case map_of (zip lower_letters upper_letters) c of
        Some u \<Rightarrow> u
      | None \<Rightarrow> c)"

datatype re_item = Lit char | Digits

record regex =
  items :: "re_item list"
  end_anchor :: bool

text \<open>Does the pattern match at the start of the string (up to its end, when anchored)?\<close>

fun match_here :: "bool \<Rightarrow> re_item list \<Rightarrow> string \<Rightarrow> bool" where
  "match_here anchored [] s = (if anchored then s = [] else True)"
| "match_here anchored (Lit c # r) [] = False"
| "match_here anchored (Lit c # r) (x # xs) =
     (canonicalize x = canonicalize c \<and> match_here anchored r xs)"
| "match_here anchored (Digits # r) [] = False"
| "match_here anchored (Digits # r) (x # xs) =
     (is_digit x \<and> (match_here anchored (Digits # r) xs \<or> match_here anchored r xs))"

fun regex_test :: "regex \<Rightarrow> string \<Rightarrow> bool" where
  "regex_test re [] = match_here (end_anchor re) (items re) []"
| "regex_test re (x # xs) =
     (match_here (end_anchor re) (items re) (x # xs) \<or> regex_test re xs)"

definition literal :: "string \<Rightarrow> re_item list" where
  "literal w = map Lit w"

definition apiPatterns :: "regex list" where
  "apiPatterns =
     [\<lparr>items = literal ''/api/'', end_anchor = False\<rparr>,
      \<lparr>items = literal ''/graphql'', end_anchor = False\<rparr>,
      \<lparr>items = literal ''/rest/'', end_anchor = False\<rparr>,
      \<lparr>items = literal ''/v'' @ [Digits] @ literal ''/'', end_anchor = False\<rparr>,
      \<lparr>items = literal ''.json'', end_anchor = True\<rparr>]"

definition isApiRequest :: "string \<Rightarrow> string \<Rightarrow> bool" where
  "isApiRequest url rt =
     (let isXhrOrFetch = (rt = ''xhr'' \<or> rt = ''fetch'');
          matchesPattern = list_ex (\<lambda>pattern. regex_test pattern url) apiPatterns
      in isXhrOrFetch \<or> matchesPattern)"

text \<open>
  The filter of \<open>analyzeApiCalls\<close> over Lighthouse's network requests is a different rule:
  \<open>String.prototype.includes\<close> is case-sensitive, and the resource types are capitalised.
\<close>

fun js_includes :: "string \<Rightarrow> string \<Rightarrow> bool" where
  "js_includes [] w = (w = [])"
| "js_includes (x # xs) w = (prefix w (x # xs) \<or> js_includes xs w)"

definition is_api_item :: "network_request \<Rightarrow> bool" where
  "is_api_item request =
     (resourceType request = ''XHR'' \<or>
      resourceType request = ''Fetch'' \<or>
      js_includes (req_url request) ''/api/'' \<or>
      js_includes (req_url request) ''/graphql'' \<or>
      js_includes (req_url request) ''/rest/'' \<or>
      js_includes (req_url request) ''/v1/'' \<or>
      js_includes (req_url request) ''/v2/'')"

text \<open>
  The rule in the specification's words: the URL, compared without regard to case,
  contains \<open>/api/\<close>, \<open>/graphql\<close>, \<open>/rest/\<close> or \<open>/v<digits>/\<close>, or ends in \<open>.json\<close>.
\<close>

definition url_rule :: "string \<Rightarrow> bool" where
  "url_rule url =
     (let u = map canonicalize url in
        sublist (map canonicalize ''/api/'') u \<or>
        sublist (map canonicalize ''/graphql'') u \<or>
        sublist (map canonicalize ''/rest/'') u \<or>
        (\<exists>ds. ds \<noteq> [] \<and> list_all is_digit ds \<and>
              sublist (map canonicalize ''/v'' @ ds @ map canonicalize ''/'') u) \<or>
        suffix (map canonicalize ''.json'') u)"

section \<open>Network interception of one page (WebsiteCrawler.crawlWebsite)\<close>

text \<open>
  The provisional record pushed by the \<open>request\<close> handler. The fields after \<open>ac_depth\<close>
  are absent until the \<open>response\<close> handler fills them.
\<close>

datatype js_size = SizeText string | SizeZero

record crawl_api_call =
  ac_id :: string
  ac_url :: string
  ac_method :: string
  ac_headers :: "(string \<times> string) list"
  ac_postData :: "string option"
  ac_resourceType :: string
  ac_startTime :: int
  ac_page :: string
  ac_depth :: nat
  ac_endTime :: "int option"
  ac_duration :: "int option"
  ac_status :: "int option"
  ac_statusText :: "string option"
  ac_responseHeaders :: "(string \<times> string) list option"
  ac_responseSize :: "js_size option"

text \<open>
  A \<open>request\<close> event as its handler sees it: the request, the value of \<open>Date.now()\<close> and
  the identifier drawn by \<open>generateUniqueId()\<close>.
\<close>

record request_event =
  rq_url :: string
  rq_method :: string
  rq_headers :: "(string \<times> string) list"
  rq_postData :: "string option"
  rq_resourceType :: string
  rq_now :: int
  rq_unique_id :: string

text \<open>A \<open>response\<close> event: the response, its request, and the value of \<open>Date.now()\<close>.\<close>

record response_event =
  rs_url :: string
  rs_method :: string
  rs_resourceType :: string
  rs_status :: int
  rs_statusText :: string
  rs_headers :: "(string \<times> string) list"
  rs_now :: int

datatype net_event = Request request_event | Response response_event

definition on_request ::
  "string \<Rightarrow> nat \<Rightarrow> crawl_api_call list \<Rightarrow> request_event \<Rightarrow> crawl_api_call list" where
  "on_request currentUrl depth apiCallsForPage request =
     (if isApiRequest (rq_url request) (rq_resourceType request)
      then apiCallsForPage @
        [\<lparr>ac_id = rq_unique_id request,
          ac_url = rq_url request,
          ac_method = rq_method request,
          ac_headers = rq_headers request,
          ac_postData = rq_postData request,
          ac_resourceType = rq_resourceType request,
          ac_startTime = rq_now request,
          ac_page = currentUrl,
          ac_depth = depth,
          ac_endTime = None, ac_duration = None, ac_status = None, ac_statusText = None,
          ac_responseHeaders = None, ac_responseSize = None\<rparr>]
      else apiCallsForPage)"

text \<open>The assignments of the \<open>response\<close> handler to the record it found.\<close>

definition fill_response :: "response_event \<Rightarrow> crawl_api_call \<Rightarrow> crawl_api_call" where
  "fill_response response apiCall =
     apiCall
       \<lparr>ac_endTime := Some (rs_now response),
        ac_duration := Some (rs_now response - ac_startTime apiCall),
        ac_status := Some (rs_status response),
        ac_statusText := Some (rs_statusText response),
        ac_responseHeaders := Some (rs_headers response),
        ac_responseSize :=
          Some (case map_of (rs_headers response) ''content-length'' of
                  None \<Rightarrow> SizeZero
                | Some v \<Rightarrow> (if v = [] then SizeZero else SizeText v))\<rparr>"

text \<open>
  \<open>Array.prototype.find\<close> followed by assignments to the object found: the first element
  that satisfies the predicate is changed where it stands; with no such element nothing
  changes.
\<close>

fun find_and_assign :: "('a \<Rightarrow> bool) \<Rightarrow> ('a \<Rightarrow> 'a) \<Rightarrow> 'a list \<Rightarrow> 'a list" where
  "find_and_assign P f [] = []"
| "find_and_assign P f (x # xs) = (if P x then f x # xs else x # find_and_assign P f xs)"

definition same_request :: "response_event \<Rightarrow> crawl_api_call \<Rightarrow> bool" where
  "same_request response call =
     (ac_url call = rs_url response \<and> ac_method call = rs_method response)"

definition on_response :: "crawl_api_call list \<Rightarrow> response_event \<Rightarrow> crawl_api_call list" where
  "on_response apiCallsForPage response =
     (if isApiRequest (rs_url response) (rs_resourceType response)
      then find_and_assign (same_request response) (fill_response response) apiCallsForPage
      else apiCallsForPage)"

fun handle_event :: "string \<Rightarrow> nat \<Rightarrow> crawl_api_call list \<Rightarrow> net_event \<Rightarrow> crawl_api_call list" where
  "handle_event currentUrl depth calls (Request request) = on_request currentUrl depth calls request"
| "handle_event currentUrl depth calls (Response response) = on_response calls response"

definition handle_events :: "string \<Rightarrow> nat \<Rightarrow> net_event list \<Rightarrow> crawl_api_call list" where
  "handle_events currentUrl depth events = foldl (handle_event currentUrl depth) [] events"

text \<open>
  The matching rule in the specification's words: the most recent record with the same
  URL and method that has no response yet.
\<close>

definition unresolved_same_request :: "response_event \<Rightarrow> crawl_api_call \<Rightarrow> bool" where
  "unresolved_same_request response call =
     (same_request response call \<and> ac_endTime call = None)"

definition most_recent_unresolved_rule ::
  "crawl_api_call list \<Rightarrow> response_event \<Rightarrow> crawl_api_call list" where
  "most_recent_unresolved_rule calls response =
     (if isApiRequest (rs_url response) (rs_resourceType response)
      then rev (find_and_assign (unresolved_same_request response) (fill_response response)
                 (rev calls))
      else calls)"

section \<open>Crawl scheduler (WebsiteCrawler)\<close>

record link =
  link_url :: string
  link_text :: string
  link_title :: string

text \<open>The value of \<open>page.evaluate\<close>: the same-host links and the page's metadata.\<close>

record page_info =
  links :: "link list"
  title :: string
  description :: string
  h1Count :: nat
  imageCount :: nat
  scriptCount :: nat

datatype page_record =
    PageLoaded page_info (pr_linkCount: nat) (pr_depth: nat) (pr_parentUrl: "string option")
      (pr_apiCalls: nat)
  | PageFailed (pr_error: string) (pr_depth: nat) (pr_parentUrl: "string option")

record frontier_entry =
  fe_url :: string
  fe_depth :: nat
  fe_parentUrl :: "string option"

text \<open>
  A JavaScript \<open>Set\<close> of strings is the list of its elements in insertion order, and a
  \<open>Map\<close> is an association list in insertion order (\<open>AList.update\<close> is \<open>Map.set\<close>).
\<close>

definition set_add :: "'a \<Rightarrow> 'a list \<Rightarrow> 'a list" where
  "set_add x xs = (if x \<in> set xs then xs else xs @ [x])"

record crawler =
  maxPages :: real
  maxDepth :: real
  visitedUrls :: "string list"
  discoveredUrls :: "string list"
  pageData :: "(string \<times> page_record) list"
  apiCalls :: "crawl_api_call list"

record crawl_options =
  opt_maxPages :: "real option"
  opt_maxDepth :: "real option"

text \<open>
  The constructor. The budgets are JavaScript numbers, kept as they are given: they may be
  fractions or negative. \<open>options.maxPages || 20\<close> replaces an absent budget and a
  budget of 0.
\<close>

definition or_default :: "real option \<Rightarrow> real \<Rightarrow> real" where
  "or_default v d = (case v of None \<Rightarrow> d | Some n \<Rightarrow> (if n = 0 then d else n))"

definition WebsiteCrawler :: "crawl_options \<Rightarrow> crawler" where
  "WebsiteCrawler options =
     \<lparr>maxPages = or_default (opt_maxPages options) 20,
      maxDepth = or_default (opt_maxDepth options) 3,
      visitedUrls = [], discoveredUrls = [], pageData = [], apiCalls = []\<rparr>"

text \<open>
  The browser. \<open>puppeteer.launch\<close>, \<open>browser.newPage\<close>, \<open>page.close\<close> and
  \<open>browser.close\<close> may throw, and their exceptions leave \<open>crawlWebsite\<close>. Everything
  between \<open>setRequestInterception\<close> and \<open>page.evaluate\<close> is inside the \<open>try\<close> block of the
  page: a failure there is \<open>NavFailed\<close>, a success carries the page's information and the
  network events handled before it returned. \<open>open_page b n u\<close> is what happens to the
  \<open>n\<close>-th page of the run, opened for the URL \<open>u\<close>.
\<close>

datatype nav_outcome = NavFailed string | NavLoaded page_info "net_event list"

datatype page_run = NewPageThrows string | PageRun nav_outcome "string option"

record browser =
  launch_error :: "string option"
  open_page :: "nat \<Rightarrow> string \<Rightarrow> page_run"
  browser_close_error :: "string option"

text \<open>\<open>pageInfo.links.forEach\<close>: a link neither visited nor discovered is queued.\<close>

fun enqueue_links ::
  "string \<Rightarrow> nat \<Rightarrow> link list \<Rightarrow> crawler \<times> frontier_entry list \<Rightarrow> crawler \<times> frontier_entry list" where
  "enqueue_links currentUrl depth [] (c, crawlQueue) = (c, crawlQueue)"
| "enqueue_links currentUrl depth (l # ls) (c, crawlQueue) =
     (if link_url l \<notin> set (visitedUrls c) \<and> link_url l \<notin> set (discoveredUrls c)
      then enqueue_links currentUrl depth ls
             (c\<lparr>discoveredUrls := set_add (link_url l) (discoveredUrls c)\<rparr>,
              crawlQueue @
                [\<lparr>fe_url = link_url l, fe_depth = depth + 1, fe_parentUrl = Some currentUrl\<rparr>])
      else enqueue_links currentUrl depth ls (c, crawlQueue))"

text \<open>The body of the page's \<open>try\<close> and \<open>catch\<close> blocks, after the URL was marked visited.\<close>

definition crawl_page ::
  "crawler \<Rightarrow> frontier_entry \<Rightarrow> frontier_entry list \<Rightarrow> nav_outcome \<Rightarrow> crawler \<times> frontier_entry list" where
  "crawl_page c e crawlQueue outcome =
     (case outcome of
        NavFailed message \<Rightarrow>
          (c\<lparr>pageData :=
               AList.update (fe_url e) (PageFailed message (fe_depth e) (fe_parentUrl e))
                 (pageData c)\<rparr>,
           crawlQueue)
      | NavLoaded pageInfo events \<Rightarrow>
          (let apiCallsForPage = handle_events (fe_url e) (fe_depth e) events;
               c1 = c\<lparr>pageData :=
                       AList.update (fe_url e)
                         (PageLoaded pageInfo (length (links pageInfo)) (fe_depth e)
                            (fe_parentUrl e) (length apiCallsForPage))
                         (pageData c),
                     apiCalls := apiCalls c @ apiCallsForPage\<rparr>
           in enqueue_links (fe_url e) (fe_depth e) (links pageInfo) (c1, crawlQueue)))"

lemma enqueue_links_budget:
  "maxPages (fst (enqueue_links u d ls cq)) = maxPages (fst cq) \<and>
   visitedUrls (fst (enqueue_links u d ls cq)) = visitedUrls (fst cq)"
  by (induction u d ls cq rule: enqueue_links.induct) simp_all

lemma crawl_page_budget:
  "maxPages (fst (crawl_page c e q outcome)) = maxPages c \<and>
   visitedUrls (fst (crawl_page c e q outcome)) = visitedUrls c"
  by (cases outcome) (simp_all add: crawl_page_def Let_def enqueue_links_budget)

lemma budget_measure_decreases:
  assumes "real l < m"
  shows "\<lceil>m - (1 + real l)\<rceil> < \<lceil>m - real l\<rceil>"
proof -
  have "m - (1 + real l) = (m - real l) - 1" by simp
  then have "\<lceil>m - (1 + real l)\<rceil> = \<lceil>m - real l\<rceil> - 1"
    by (simp only: ceiling_diff_one)
  then show ?thesis by simp
qed

text \<open>
  The \<open>while\<close> loop of \<open>crawlWebsite\<close>. The result is \<open>Inl\<close> when \<open>newPage\<close> or
  \<open>page.close\<close> throws.
\<close>

function crawl_loop :: "browser \<Rightarrow> crawler \<Rightarrow> frontier_entry list \<Rightarrow> string + crawler" where
  "crawl_loop b c [] = Inr c"
| "crawl_loop b c (e # crawlQueue) =
     (if \<not> of_nat (length (visitedUrls c)) < maxPages c then Inr c
      else if fe_url e \<in> set (visitedUrls c) \<or> of_nat (fe_depth e) > maxDepth c
        then crawl_loop b c crawlQueue
      else
        (case open_page b (length (visitedUrls c)) (fe_url e) of
           NewPageThrows message \<Rightarrow> Inl message
         | PageRun outcome close_error \<Rightarrow>
             (case close_error of
                Some message \<Rightarrow> Inl message
              | None \<Rightarrow>
                  crawl_loop b
                    (fst (crawl_page (c\<lparr>visitedUrls := set_add (fe_url e) (visitedUrls c)\<rparr>)
                            e crawlQueue outcome))
                    (snd (crawl_page (c\<lparr>visitedUrls := set_add (fe_url e) (visitedUrls c)\<rparr>)
                            e crawlQueue outcome)))))"
  by pat_completeness auto
termination
  by (relation "measures [\<lambda>(b, c, q). nat \<lceil>maxPages c - of_nat (length (visitedUrls c))\<rceil>,
        \<lambda>(b, c, q). length q]")
    (auto simp: crawl_page_budget set_add_def case_prod_beta budget_measure_decreases)

declare crawl_loop.simps [simp del]

datatype js_max = NegInfinity | Finite nat

text \<open>\<open>Math.max(...depths)\<close>, which is \<open>-Infinity\<close> for no argument.\<close>

definition math_max :: "nat list \<Rightarrow> js_max" where
  "math_max ds = (if ds = [] then NegInfinity else Finite (fold max ds 0))"

record crawl_result =
  r_visitedUrls :: "string list"
  r_pageData :: "(string \<times> page_record) list"
  totalPages :: nat
  totalApiCalls :: nat
  r_apiCalls :: "crawl_api_call list"
  maxDepthReached :: js_max

definition generateCrawlResults :: "crawler \<Rightarrow> crawl_result" where
  "generateCrawlResults c =
     \<lparr>r_visitedUrls = visitedUrls c,
      r_pageData = pageData c,
      totalPages = length (visitedUrls c),
      totalApiCalls = length (apiCalls c),
      r_apiCalls = apiCalls c,
      maxDepthReached = math_max (map (\<lambda>(u, p). pr_depth p) (pageData c))\<rparr>"

text \<open>
  \<open>crawlWebsite\<close>: an exception of \<open>launch\<close> leaves at once; otherwise \<open>browser.close()\<close>
  runs in the \<open>finally\<close> block, and its exception replaces the result.
\<close>

definition crawlWebsite :: "browser \<Rightarrow> crawler \<Rightarrow> string \<Rightarrow> string + crawl_result" where
  "crawlWebsite b c baseUrl =
     (case launch_error b of
        Some message \<Rightarrow> Inl message
      | None \<Rightarrow>
          (let outcome = crawl_loop b c [\<lparr>fe_url = baseUrl, fe_depth = 0, fe_parentUrl = None\<rparr>]
           in case browser_close_error b of
                Some message \<Rightarrow> Inl message
              | None \<Rightarrow>
                  (case outcome of
                     Inl message \<Rightarrow> Inl message
                   | Inr c' \<Rightarrow> Inr (generateCrawlResults c'))))"

text \<open>
  The invariant of the loop: a page is opened only while the number of visited pages is
  below \<open>maxPages\<close>, so that number is 0 or below \<open>maxPages + 1\<close>; no URL is visited
  twice; every visited URL has a page record with a depth of at most \<open>maxDepth\<close>.
\<close>

definition within_budget :: "crawler \<Rightarrow> bool" where
  "within_budget c =
     ((visitedUrls c = [] \<or> of_nat (length (visitedUrls c)) < maxPages c + 1) \<and>
      distinct (visitedUrls c) \<and>
      list_all (\<lambda>u. case map_of (pageData c) u of
                       None \<Rightarrow> False
                     | Some p \<Rightarrow> of_nat (pr_depth p) \<le> maxDepth c)
        (visitedUrls c))"

text \<open>
  Example data: two requests to the same endpoint in flight at once and their two
  responses, and a small site whose start page links to two pages.
\<close>

definition orders_request :: "int \<Rightarrow> string \<Rightarrow> request_event" where
  "orders_request now uid =
     \<lparr>rq_url = ''https://x.com/api/orders'', rq_method = ''GET'', rq_headers = [],
      rq_postData = None, rq_resourceType = ''fetch'', rq_now = now, rq_unique_id = uid\<rparr>"

definition orders_response :: "int \<Rightarrow> int \<Rightarrow> response_event" where
  "orders_response now code =
     \<lparr>rs_url = ''https://x.com/api/orders'', rs_method = ''GET'', rs_resourceType = ''fetch'',
      rs_status = code, rs_statusText = [], rs_headers = [(''content-length'', ''12'')],
      rs_now = now\<rparr>"

definition example_home :: page_info where
  "example_home =
     \<lparr>links =
        [\<lparr>link_url = ''https://x.com/a'', link_text = ''A'', link_title = []\<rparr>,
         \<lparr>link_url = ''https://x.com/b'', link_text = ''B'', link_title = []\<rparr>,
         \<lparr>link_url = ''https://x.com/a'', link_text = ''A again'', link_title = []\<rparr>],
      title = ''Home'', description = [], h1Count = 1, imageCount = 0, scriptCount = 2\<rparr>"

definition example_browser :: browser where
  "example_browser =
     \<lparr>launch_error = None,
      open_page = (\<lambda>n u.
        if u = ''https://x.com/''
        then PageRun (NavLoaded example_home
               [Request (orders_request 1000 ''r1''), Response (orders_response 1200 500)]) None
        else PageRun (NavFailed ''net::ERR_TIMED_OUT'') None),
      browser_close_error = None\<rparr>"

definition failing_browser :: browser where
  "failing_browser =
     \<lparr>launch_error = None,
      open_page = (\<lambda>n u. PageRun (NavFailed ''net::ERR_NAME_NOT_RESOLVED'') None),
      browser_close_error = None\<rparr>"

section \<open>Alert engine (generatePerformanceAlerts)\<close>

record lighthouse_details =
  fcpRaw :: "real option"
  lcpRaw :: "real option"
  clsRaw :: "real option"
  ttiRaw :: "real option"
  tbtRaw :: "real option"
  siRaw :: "real option"

record lighthouse_results =
  details :: "lighthouse_details option"
  performance :: "real option"
  accessibility :: "real option"

record api_results =
  ar_apiCalls :: "api_call list option"

record alert =
  a_type :: string
  a_category :: string
  a_metric :: string
  a_value :: string
  a_threshold :: string
  a_message :: string
  a_recommendation :: string
  a_details :: "string list option"

record threshold_pair =
  warning :: real
  critical :: real

record thresholds_table =
  th_fcp :: threshold_pair
  th_lcp :: threshold_pair
  th_cls :: threshold_pair
  th_tbt :: threshold_pair
  th_tti :: threshold_pair
  th_si :: threshold_pair
  th_performance :: threshold_pair
  th_accessibility :: threshold_pair
  th_bestPractices :: threshold_pair
  th_seo :: threshold_pair

definition thresholds :: thresholds_table where
  "thresholds =
     \<lparr>th_fcp = \<lparr>warning = 2000, critical = 3000\<rparr>,
      th_lcp = \<lparr>warning = 2500, critical = 4000\<rparr>,
      th_cls = \<lparr>warning = 1 / 10, critical = 25 / 100\<rparr>,
      th_tbt = \<lparr>warning = 300, critical = 600\<rparr>,
      th_tti = \<lparr>warning = 3800, critical = 7300\<rparr>,
      th_si = \<lparr>warning = 3400, critical = 5800\<rparr>,
      th_performance = \<lparr>warning = 7 / 10, critical = 5 / 10\<rparr>,
      th_accessibility = \<lparr>warning = 7 / 10, critical = 5 / 10\<rparr>,
      th_bestPractices = \<lparr>warning = 7 / 10, critical = 5 / 10\<rparr>,
      th_seo = \<lparr>warning = 7 / 10, critical = 5 / 10\<rparr>\<rparr>"

text \<open>
  The API thresholds; the two payload sizes of \<open>apiThresholds.payloadSize\<close>, byte
  counts, are \<open>payload_warning\<close> and \<open>payload_critical\<close>.
\<close>

record api_thresholds_table =
  th_responseTime :: threshold_pair
  th_errorRate :: threshold_pair

definition apiThresholds :: api_thresholds_table where
  "apiThresholds =
     \<lparr>th_responseTime = \<lparr>warning = 500, critical = 1000\<rparr>,
      th_errorRate = \<lparr>warning = 5 / 100, critical = 1 / 10\<rparr>\<rparr>"

definition payload_warning :: nat where
  "payload_warning = 1024 * 1024"

definition payload_critical :: nat where
  "payload_critical = 5 * 1024 * 1024"

text \<open>
  One check of a raw timing in milliseconds, shown in seconds (FCP, LCP, TTI, SI): skipped
  when the value is absent or 0, critical first, warning otherwise.
\<close>

definition check_fcp :: "lighthouse_details option \<Rightarrow> alert list" where
  "check_fcp ds =
     (case ds of None \<Rightarrow> [] | Some d \<Rightarrow>
      (case fcpRaw d of None \<Rightarrow> [] | Some x \<Rightarrow>
       if x = 0 then []
       else if x \<ge> critical (th_fcp thresholds) then
         [\<lparr>a_type = ''critical'', a_category = ''Core Web Vitals'',
           a_metric = ''First Contentful Paint (FCP)'',
           a_value = toFixed 2 (x / 1000) @ ''s'',
           a_threshold = show_decimal (critical (th_fcp thresholds) / 1000) @ ''s'',
           a_message = ''First Contentful Paint is critically slow'',
           a_recommendation = ''Optimize critical rendering path, reduce server response time, and minimize render-blocking resources.'',
           a_details = None\<rparr>]
       else if x \<ge> warning (th_fcp thresholds) then
         [\<lparr>a_type = ''warning'', a_category = ''Core Web Vitals'',
           a_metric = ''First Contentful Paint (FCP)'',
           a_value = toFixed 2 (x / 1000) @ ''s'',
           a_threshold = show_decimal (warning (th_fcp thresholds) / 1000) @ ''s'',
           a_message = ''First Contentful Paint is slow'',
           a_recommendation = ''Consider optimizing server response time and reducing render-blocking resources.'',
           a_details = None\<rparr>]
       else []))"

definition check_lcp :: "lighthouse_details option \<Rightarrow> alert list" where
  "check_lcp ds =
     (case ds of None \<Rightarrow> [] | Some d \<Rightarrow>
      (case lcpRaw d of None \<Rightarrow> [] | Some x \<Rightarrow>
       if x = 0 then []
       else if x \<ge> critical (th_lcp thresholds) then
         [\<lparr>a_type = ''critical'', a_category = ''Core Web Vitals'',
           a_metric = ''Largest Contentful Paint (LCP)'',
           a_value = toFixed 2 (x / 1000) @ ''s'',
           a_threshold = show_decimal (critical (th_lcp thresholds) / 1000) @ ''s'',
           a_message = ''Largest Contentful Paint is critically slow'',
           a_recommendation = ''Optimize and prioritize loading of hero images and text. Consider using CDN and image optimization.'',
           a_details = None\<rparr>]
       else if x \<ge> warning (th_lcp thresholds) then
         [\<lparr>a_type = ''warning'', a_category = ''Core Web Vitals'',
           a_metric = ''Largest Contentful Paint (LCP)'',
           a_value = toFixed 2 (x / 1000) @ ''s'',
           a_threshold = show_decimal (warning (th_lcp thresholds) / 1000) @ ''s'',
           a_message = ''Largest Contentful Paint is slow'',
           a_recommendation = ''Consider optimizing hero images and text loading.'',
           a_details = None\<rparr>]
       else []))"

text \<open>CLS is checked whenever it is defined, also when it is 0.\<close>

definition check_cls :: "lighthouse_details option \<Rightarrow> alert list" where
  "check_cls ds =
     (case ds of None \<Rightarrow> [] | Some d \<Rightarrow>
      (case clsRaw d of None \<Rightarrow> [] | Some x \<Rightarrow>
       if x \<ge> critical (th_cls thresholds) then
         [\<lparr>a_type = ''critical'', a_category = ''Core Web Vitals'',
           a_metric = ''Cumulative Layout Shift (CLS)'',
           a_value = toFixed 3 x,
           a_threshold = toFixed 2 (critical (th_cls thresholds)),
           a_message = ''Cumulative Layout Shift is critically high'',
           a_recommendation = ''Set explicit width/height for images, ads, embeds, and dynamically injected content.'',
           a_details = None\<rparr>]
       else if x \<ge> warning (th_cls thresholds) then
         [\<lparr>a_type = ''warning'', a_category = ''Core Web Vitals'',
           a_metric = ''Cumulative Layout Shift (CLS)'',
           a_value = toFixed 3 x,
           a_threshold = toFixed 2 (warning (th_cls thresholds)),
           a_message = ''Cumulative Layout Shift is high'',
           a_recommendation = ''Consider setting explicit dimensions for images and dynamic content.'',
           a_details = None\<rparr>]
       else []))"

definition check_tti :: "lighthouse_details option \<Rightarrow> alert list" where
  "check_tti ds =
     (case ds of None \<Rightarrow> [] | Some d \<Rightarrow>
      (case ttiRaw d of None \<Rightarrow> [] | Some x \<Rightarrow>
       if x = 0 then []
       else if x \<ge> critical (th_tti thresholds) then
         [\<lparr>a_type = ''critical'', a_category = ''Performance'',
           a_metric = ''Time to Interactive (TTI)'',
           a_value = toFixed 2 (x / 1000) @ ''s'',
           a_threshold = show_decimal (critical (th_tti thresholds) / 1000) @ ''s'',
           a_message = ''Time to Interactive is critically slow'',
           a_recommendation = ''Reduce JavaScript execution time, minimize main thread work, and defer non-critical JavaScript.'',
           a_details = None\<rparr>]
       else if x \<ge> warning (th_tti thresholds) then
         [\<lparr>a_type = ''warning'', a_category = ''Performance'',
           a_metric = ''Time to Interactive (TTI)'',
           a_value = toFixed 2 (x / 1000) @ ''s'',
           a_threshold = show_decimal (warning (th_tti thresholds) / 1000) @ ''s'',
           a_message = ''Time to Interactive is slow'',
           a_recommendation = ''Consider reducing JavaScript execution time and deferring non-critical scripts.'',
           a_details = None\<rparr>]
       else []))"

definition check_tbt :: "lighthouse_details option \<Rightarrow> alert list" where
  "check_tbt ds =
     (case ds of None \<Rightarrow> [] | Some d \<Rightarrow>
      (case tbtRaw d of None \<Rightarrow> [] | Some x \<Rightarrow>
       if x = 0 then []
       else if x \<ge> critical (th_tbt thresholds) then
         [\<lparr>a_type = ''critical'', a_category = ''Performance'',
           a_metric = ''Total Blocking Time (TBT)'',
           a_value = toFixed 0 x @ ''ms'',
           a_threshold = show_decimal (critical (th_tbt thresholds)) @ ''ms'',
           a_message = ''Total Blocking Time is critically high'',
           a_recommendation = ''Minimize long tasks, optimize JavaScript execution, and consider code-splitting.'',
           a_details = None\<rparr>]
       else if x \<ge> warning (th_tbt thresholds) then
         [\<lparr>a_type = ''warning'', a_category = ''Performance'',
           a_metric = ''Total Blocking Time (TBT)'',
           a_value = toFixed 0 x @ ''ms'',
           a_threshold = show_decimal (warning (th_tbt thresholds)) @ ''ms'',
           a_message = ''Total Blocking Time is high'',
           a_recommendation = ''Consider optimizing JavaScript execution and breaking up long tasks.'',
           a_details = None\<rparr>]
       else []))"

definition check_si :: "lighthouse_details option \<Rightarrow> alert list" where
  "check_si ds =
     (case ds of None \<Rightarrow> [] | Some d \<Rightarrow>
      (case siRaw d of None \<Rightarrow> [] | Some x \<Rightarrow>
       if x = 0 then []
       else if x \<ge> critical (th_si thresholds) then
         [\<lparr>a_type = ''critical'', a_category = ''Performance'',
           a_metric = ''Speed Index (SI)'',
           a_value = toFixed 2 (x / 1000) @ ''s'',
           a_threshold = show_decimal (critical (th_si thresholds) / 1000) @ ''s'',
           a_message = ''Speed Index is critically slow'',
           a_recommendation = ''Optimize page load performance, minimize critical rendering path, and prioritize visible content.'',
           a_details = None\<rparr>]
       else if x \<ge> warning (th_si thresholds) then
         [\<lparr>a_type = ''warning'', a_category = ''Performance'',
           a_metric = ''Speed Index (SI)'',
           a_value = toFixed 2 (x / 1000) @ ''s'',
           a_threshold = show_decimal (warning (th_si thresholds) / 1000) @ ''s'',
           a_message = ''Speed Index is slow'',
           a_recommendation = ''Consider optimizing page load performance and prioritizing visible content.'',
           a_details = None\<rparr>]
       else []))"

text \<open>The category scores alert when they are at or below the threshold.\<close>

definition check_performance :: "lighthouse_results \<Rightarrow> alert list" where
  "check_performance lighthouseResults =
     (case performance lighthouseResults of None \<Rightarrow> [] | Some x \<Rightarrow>
       if x \<le> critical (th_performance thresholds) then
         [\<lparr>a_type = ''critical'', a_category = ''Overall'',
           a_metric = ''Performance Score'',
           a_value = show_int (js_round (x * 100)) @ ''/100'',
           a_threshold = show_int (js_round (critical (th_performance thresholds) * 100)) @ ''/100'',
           a_message = ''Overall performance score is critically low'',
           a_recommendation = ''Review all performance metrics and prioritize fixing critical issues first.'',
           a_details = None\<rparr>]
       else if x \<le> warning (th_performance thresholds) then
         [\<lparr>a_type = ''warning'', a_category = ''Overall'',
           a_metric = ''Performance Score'',
           a_value = show_int (js_round (x * 100)) @ ''/100'',
           a_threshold = show_int (js_round (warning (th_performance thresholds) * 100)) @ ''/100'',
           a_message = ''Overall performance score is low'',
           a_recommendation = ''Review performance metrics and address the most impactful issues.'',
           a_details = None\<rparr>]
       else [])"

definition check_accessibility :: "lighthouse_results \<Rightarrow> alert list" where
  "check_accessibility lighthouseResults =
     (case accessibility lighthouseResults of None \<Rightarrow> [] | Some x \<Rightarrow>
       if x \<le> critical (th_accessibility thresholds) then
         [\<lparr>a_type = ''critical'', a_category = ''Accessibility'',
           a_metric = ''Accessibility Score'',
           a_value = show_int (js_round (x * 100)) @ ''/100'',
           a_threshold = show_int (js_round (critical (th_accessibility thresholds) * 100)) @ ''/100'',
           a_message = ''Accessibility score is critically low'',
           a_recommendation = ''Address critical accessibility issues like missing alt text, insufficient color contrast, and improper ARIA usage.'',
           a_details = None\<rparr>]
       else if x \<le> warning (th_accessibility thresholds) then
         [\<lparr>a_type = ''warning'', a_category = ''Accessibility'',
           a_metric = ''Accessibility Score'',
           a_value = show_int (js_round (x * 100)) @ ''/100'',
           a_threshold = show_int (js_round (warning (th_accessibility thresholds) * 100)) @ ''/100'',
           a_message = ''Accessibility score is low'',
           a_recommendation = ''Review accessibility issues and address the most impactful problems.'',
           a_details = None\<rparr>]
       else [])"

text \<open>The API checks. \<open>call.status >= 400\<close> is false for the string \<open>Unknown\<close>.\<close>

fun status_at_least_400 :: "js_status \<Rightarrow> bool" where
  "status_at_least_400 (StatusCode n) = (n \<ge> 400)"
| "status_at_least_400 StatusUnknown = False"

fun show_status :: "js_status \<Rightarrow> string" where
  "show_status (StatusCode n) = show_int n"
| "show_status StatusUnknown = ''Unknown''"

text \<open>\<open>call.rawData?.transferSize || 0\<close>\<close>

definition raw_transferSize :: "api_call \<Rightarrow> nat" where
  "raw_transferSize call =
     (case rawData call of
        None \<Rightarrow> 0
      | Some r \<Rightarrow> (case transferSize r of None \<Rightarrow> 0 | Some n \<Rightarrow> n))"

definition check_slow_api :: "api_call list \<Rightarrow> alert list" where
  "check_slow_api calls =
     (let slowApiCalls =
            filter (\<lambda>call. of_int (timeTaken call) \<ge> critical (th_responseTime apiThresholds)) calls
      in if length slowApiCalls > 0 then
           [\<lparr>a_type = ''critical'', a_category = ''API Performance'',
             a_metric = ''Slow API Calls'',
             a_value = show_nat (length slowApiCalls) @ '' calls'',
             a_threshold = show_decimal (critical (th_responseTime apiThresholds)) @ ''ms'',
             a_message = show_nat (length slowApiCalls) @ '' API calls are critically slow'',
             a_recommendation = ''Optimize server response time, implement caching, and consider API endpoint consolidation.'',
             a_details = Some (map (\<lambda>call. call_method call @ '' '' @ endpoint call @ '': '' @
                                     show_int (timeTaken call) @ ''ms'') slowApiCalls)\<rparr>]
         else
           (let warningApiCalls =
                  filter (\<lambda>call. of_int (timeTaken call) \<ge> warning (th_responseTime apiThresholds) \<and>
                                  of_int (timeTaken call) < critical (th_responseTime apiThresholds))
                    calls
            in if length warningApiCalls > 0 then
                 [\<lparr>a_type = ''warning'', a_category = ''API Performance'',
                   a_metric = ''Slow API Calls'',
                   a_value = show_nat (length warningApiCalls) @ '' calls'',
                   a_threshold = show_decimal (warning (th_responseTime apiThresholds)) @ ''ms'',
                   a_message = show_nat (length warningApiCalls) @ '' API calls are slow'',
                   a_recommendation = ''Consider optimizing server response time and implementing caching.'',
                   a_details = Some (map (\<lambda>call. call_method call @ '' '' @ endpoint call @ '': '' @
                                           show_int (timeTaken call) @ ''ms'') warningApiCalls)\<rparr>]
               else []))"

definition check_error_rate :: "api_call list \<Rightarrow> alert list" where
  "check_error_rate calls =
     (let errorApiCalls = filter (\<lambda>call. status_at_least_400 (status call)) calls
      in if length errorApiCalls > 0 then
           (let errorRate = (of_nat (length errorApiCalls) :: real) / of_nat (length calls)
            in if errorRate \<ge> critical (th_errorRate apiThresholds) then
                 [\<lparr>a_type = ''critical'', a_category = ''API Reliability'',
                   a_metric = ''API Error Rate'',
                   a_value = toFixed 1 (errorRate * 100) @ ''%'',
                   a_threshold = toFixed 1 (critical (th_errorRate apiThresholds) * 100) @ ''%'',
                   a_message = ''API error rate is critically high'',
                   a_recommendation = ''Investigate and fix failing API endpoints. Consider implementing retry logic and error handling.'',
                   a_details = Some (map (\<lambda>call. call_method call @ '' '' @ endpoint call @ '': '' @
                                           show_status (status call)) errorApiCalls)\<rparr>]
               else if errorRate \<ge> warning (th_errorRate apiThresholds) then
                 [\<lparr>a_type = ''warning'', a_category = ''API Reliability'',
                   a_metric = ''API Error Rate'',
                   a_value = toFixed 1 (errorRate * 100) @ ''%'',
                   a_threshold = toFixed 1 (warning (th_errorRate apiThresholds) * 100) @ ''%'',
                   a_message = ''API error rate is high'',
                   a_recommendation = ''Review failing API endpoints and implement proper error handling.'',
                   a_details = Some (map (\<lambda>call. call_method call @ '' '' @ endpoint call @ '': '' @
                                           show_status (status call)) errorApiCalls)\<rparr>]
               else [])
         else [])"

definition check_payload :: "api_call list \<Rightarrow> alert list" where
  "check_payload calls =
     (let largePayloadCalls = filter (\<lambda>call. raw_transferSize call \<ge> payload_critical) calls
      in if length largePayloadCalls > 0 then
           [\<lparr>a_type = ''critical'', a_category = ''API Efficiency'',
             a_metric = ''Large API Payloads'',
             a_value = show_nat (length largePayloadCalls) @ '' calls'',
             a_threshold = formatBytes payload_critical,
             a_message = show_nat (length largePayloadCalls) @ '' API calls have excessively large payloads'',
             a_recommendation = ''Implement pagination, reduce payload size, use compression, and consider GraphQL for selective data fetching.'',
             a_details = Some (map (\<lambda>call. call_method call @ '' '' @ endpoint call @ '': '' @
                                     payloadSize call) largePayloadCalls)\<rparr>]
         else
           (let warningPayloadCalls =
                  filter (\<lambda>call. raw_transferSize call \<ge> payload_warning \<and>
                                  raw_transferSize call < payload_critical) calls
            in if length warningPayloadCalls > 0 then
                 [\<lparr>a_type = ''warning'', a_category = ''API Efficiency'',
                   a_metric = ''Large API Payloads'',
                   a_value = show_nat (length warningPayloadCalls) @ '' calls'',
                   a_threshold = formatBytes payload_warning,
                   a_message = show_nat (length warningPayloadCalls) @ '' API calls have large payloads'',
                   a_recommendation = ''Consider implementing pagination and reducing payload size.'',
                   a_details = Some (map (\<lambda>call. call_method call @ '' '' @ endpoint call @ '': '' @
                                           payloadSize call) warningPayloadCalls)\<rparr>]
               else []))"

text \<open>
  \<open>generatePerformanceAlerts\<close>: the alerts are pushed in the order of the checks. The
  Lighthouse checks run when \<open>lighthouseResults\<close> is given, the API checks when
  \<open>apiResults.apiCalls\<close> is a non-empty list.
\<close>

definition lighthouse_alerts :: "lighthouse_results option \<Rightarrow> alert list" where
  "lighthouse_alerts lighthouseResults =
     (case lighthouseResults of
        None \<Rightarrow> []
      | Some l \<Rightarrow>
          check_fcp (details l) @ check_lcp (details l) @ check_cls (details l) @
          check_tti (details l) @ check_tbt (details l) @ check_si (details l) @
          check_performance l @ check_accessibility l)"

definition api_alerts :: "api_results option \<Rightarrow> alert list" where
  "api_alerts apiResults =
     (case apiResults of
        None \<Rightarrow> []
      | Some a \<Rightarrow>
          (case ar_apiCalls a of
             None \<Rightarrow> []
           | Some calls \<Rightarrow>
               if length calls > 0
               then check_slow_api calls @ check_error_rate calls @ check_payload calls
               else []))"

definition generatePerformanceAlerts ::
  "lighthouse_results option \<Rightarrow> api_results option \<Rightarrow> alert list" where
  "generatePerformanceAlerts lighthouseResults apiResults =
     lighthouse_alerts lighthouseResults @ api_alerts apiResults"

section \<open>Display of the alerts (formatAlertsForDisplay)\<close>

definition newline :: string where
  "newline = [CHR 0x0A]"

definition criticalAlerts :: "alert list \<Rightarrow> alert list" where
  "criticalAlerts alerts = filter (\<lambda>alert. a_type alert = ''critical'') alerts"

definition warningAlerts :: "alert list \<Rightarrow> alert list" where
  "warningAlerts alerts = filter (\<lambda>alert. a_type alert = ''warning'') alerts"

text \<open>The body of the \<open>forEach\<close> callbacks: one numbered alert.\<close>

definition format_alert :: "nat \<times> alert \<Rightarrow> string" where
  "format_alert ia =
     (let index = fst ia; alert = snd ia in
      show_nat (index + 1) @ ''. '' @ a_message alert @ newline @
      ''   Metric: '' @ a_metric alert @ newline @
      ''   Value: '' @ a_value alert @ '' (Threshold: '' @ a_threshold alert @ '')'' @ newline @
      ''   Recommendation: '' @ a_recommendation alert @ newline @
      (case a_details alert of
         None \<Rightarrow> []
       | Some ds \<Rightarrow>
           if length ds > 0 then
             ''   Details:'' @ newline @
             concat (map (\<lambda>detail. ''     - '' @ detail @ newline) (take 3 ds)) @
             (if length ds > 3
              then ''     - ... and '' @ show_nat (length ds - 3) @ '' more'' @ newline
              else [])
           else []) @
      newline)"

definition format_section :: "string \<Rightarrow> alert list \<Rightarrow> string" where
  "format_section heading alert_group =
     (if length alert_group > 0 then
        heading @ '' ('' @ show_nat (length alert_group) @ '')'' @ newline @
        ''===================='' @ newline @ newline @
        concat (map format_alert (enumerate 0 alert_group))
      else [])"

definition formatAlertsForDisplay :: "alert list option \<Rightarrow> string" where
  "formatAlertsForDisplay alerts_opt =
     (case alerts_opt of
        None \<Rightarrow> ''No performance alerts detected. Your website is performing well!''
      | Some alerts \<Rightarrow>
          if length alerts = 0
          then ''No performance alerts detected. Your website is performing well!''
          else
            format_section ''CRITICAL ALERTS'' (criticalAlerts alerts) @
            format_section ''WARNING ALERTS'' (warningAlerts alerts) @
            ''SUMMARY'' @ newline @
            ''===================='' @ newline @ newline @
            ''Total Alerts: '' @ show_nat (length alerts) @ newline @
            ''Critical Alerts: '' @ show_nat (length (criticalAlerts alerts)) @ newline @
            ''Warning Alerts: '' @ show_nat (length (warningAlerts alerts)) @ newline)"

text \<open>Example inputs: forty formatted calls of which the first \<open>k\<close> have status 500.\<close>

definition example_call :: "int \<Rightarrow> api_call" where
  "example_call code =
     \<lparr>endpoint = ''/api/orders'', call_method = ''GET'', status = StatusCode code,
      timeTaken = 120, avgResponseTime = 120, maxTaken = 120, payloadSize = ''2KB'',
      errors = (if code \<ge> 400 then ''Error '' @ show_int code else ''-''),
      rawData = None\<rparr>"

definition forty_calls :: "nat \<Rightarrow> api_results" where
  "forty_calls k =
     \<lparr>ar_apiCalls = Some (replicate k (example_call 500) @ replicate (40 - k) (example_call 200))\<rparr>"

definition example_lighthouse :: lighthouse_results where
  "example_lighthouse =
     \<lparr>details = Some \<lparr>fcpRaw = Some 2500, lcpRaw = Some 4500, clsRaw = Some 0,
                       ttiRaw = None, tbtRaw = None, siRaw = None\<rparr>,
      performance = None, accessibility = None\<rparr>"

text \<open>The metric names in the order of the checks.\<close>

definition lighthouse_metrics :: "string list" where
  "lighthouse_metrics =
     [''First Contentful Paint (FCP)'', ''Largest Contentful Paint (LCP)'',
      ''Cumulative Layout Shift (CLS)'', ''Time to Interactive (TTI)'',
      ''Total Blocking Time (TBT)'', ''Speed Index (SI)'',
      ''Performance Score'', ''Accessibility Score'']"

definition api_metrics :: "string list" where
  "api_metrics = [''Slow API Calls'', ''API Error Rate'', ''Large API Payloads'']"

definition alert_metrics :: "string list" where
  "alert_metrics = lighthouse_metrics @ api_metrics"

definition is_error_call :: "api_call \<Rightarrow> bool" where
  "is_error_call call = status_at_least_400 (status call)"

text \<open>
  The evaluation policy in the words of the specification: the critical threshold is
  evaluated first, the warning threshold only if the critical one did not fire. The result
  is the list of the alert types emitted for one metric.
\<close>

definition critical_first :: "bool \<Rightarrow> bool \<Rightarrow> string list" where
  "critical_first critical_fires warning_fires =
     (if critical_fires then [''critical'']
      else if warning_fires then [''warning'']
      else [])"

text \<open>The types of the alerts of one metric in a list of alerts.\<close>

definition alert_types :: "string \<Rightarrow> alert list \<Rightarrow> string list" where
  "alert_types m alerts = map a_type (filter (\<lambda>a. a_metric a = m) alerts)"

section \<open>Impact correlator (ApiPerformanceCorrelator.analyzeApiImpact)\<close>

text \<open>
  The correlator reads and copies API call objects whatever their fields are, so an object
  is a list of properties in insertion order; the spread \<open>{...apiCall, frontendImpact: v}\<close>
  is \<open>AList.update ''frontendImpact'' v apiCall\<close>.
\<close>

datatype js_value =
    JNum real
  | JStr string
  | JBool bool
  | JUndefined
  | JNull
  | JObj "(string \<times> js_value) list"

type_synonym js_object = "(string \<times> js_value) list"

record js_memory =
  usedJSHeapSize :: real
  totalJSHeapSize :: real
  jsHeapSizeLimit :: real

text \<open>The value of \<open>capturePerformanceMetrics\<close>.\<close>

record performance_metrics =
  pm_timestamp :: real
  pm_fcp :: real
  pm_cls :: real
  pm_domUpdateTime :: real
  pm_renderTime :: real
  pm_memory :: "js_memory option"
  pm_resourceCount :: real

text \<open>
  The page, with a state of type \<open>'s\<close>. Each operation may throw (a message) and changes
  the state: \<open>page.evaluate\<close> for the metrics, \<open>page.evaluate\<close> for the simulated call and
  \<open>page.waitForTimeout\<close>. \<open>cb_launch\<close> is \<open>puppeteer.launch\<close>, \<open>cb_goto\<close> stands for
  \<open>browser.newPage\<close> and \<open>page.goto\<close>, \<open>cb_close\<close> for \<open>browser.close\<close>.
\<close>

record 's correlator_browser =
  cb_launch :: "string + 's"
  cb_goto :: "string \<Rightarrow> 's \<Rightarrow> string option \<times> 's"
  cb_close :: "'s \<Rightarrow> string option"
  evaluate_metrics :: "'s \<Rightarrow> (string + performance_metrics) \<times> 's"
  evaluate_simulation :: "js_object \<Rightarrow> 's \<Rightarrow> string option \<times> 's"
  waitForTimeout :: "js_value \<Rightarrow> 's \<Rightarrow> string option \<times> 's"

definition calculateRenderingImpact :: "performance_metrics \<Rightarrow> performance_metrics \<Rightarrow> string" where
  "calculateRenderingImpact beforeMetrics afterMetrics =
     (let renderTimeDelta = pm_renderTime afterMetrics - pm_renderTime beforeMetrics
      in if renderTimeDelta > 100 then ''high''
         else if renderTimeDelta > 50 then ''medium''
         else ''low'')"

definition calculateMetricsImpact :: "performance_metrics \<Rightarrow> performance_metrics \<Rightarrow> js_object" where
  "calculateMetricsImpact beforeMetrics afterMetrics =
     [(''fcpDelta'', JNum (pm_fcp afterMetrics - pm_fcp beforeMetrics)),
      (''clsDelta'', JNum (pm_cls afterMetrics - pm_cls beforeMetrics)),
      (''resourceCountDelta'',
         JNum (pm_resourceCount afterMetrics - pm_resourceCount beforeMetrics)),
      (''renderingImpact'', JStr (calculateRenderingImpact beforeMetrics afterMetrics))]"

text \<open>
  \<open>afterMetrics.memory?.usedJSHeapSize - beforeMetrics.memory?.usedJSHeapSize || 0\<close>: the
  difference is not a number, hence replaced by 0, when either \<open>memory\<close> is \<open>null\<close>.
\<close>

definition memoryDelta :: "performance_metrics \<Rightarrow> performance_metrics \<Rightarrow> real" where
  "memoryDelta beforeMetrics afterMetrics =
     (case (pm_memory afterMetrics, pm_memory beforeMetrics) of
        (Some a, Some b) \<Rightarrow> usedJSHeapSize a - usedJSHeapSize b
      | _ \<Rightarrow> 0)"

definition frontendImpact_of :: "performance_metrics \<Rightarrow> performance_metrics \<Rightarrow> js_value" where
  "frontendImpact_of beforeMetrics afterMetrics =
     JObj (calculateMetricsImpact beforeMetrics afterMetrics @
       [(''domUpdateTime'',
           JNum (pm_domUpdateTime afterMetrics - pm_domUpdateTime beforeMetrics)),
        (''renderTime'', JNum (pm_renderTime afterMetrics - pm_renderTime beforeMetrics)),
        (''layoutShiftDelta'', JNum (pm_cls afterMetrics - pm_cls beforeMetrics)),
        (''memoryDelta'', JNum (memoryDelta beforeMetrics afterMetrics))])"

text \<open>\<open>apiCall.duration || 100\<close>\<close>

definition duration_or_100 :: "js_object \<Rightarrow> js_value" where
  "duration_or_100 apiCall =
     (case map_of apiCall ''duration'' of
        Some (JNum d) \<Rightarrow> (if d = 0 then JNum 100 else JNum d)
      | Some (JStr t) \<Rightarrow> (if t = [] then JNum 100 else JStr t)
      | Some (JBool f) \<Rightarrow> (if f then JBool f else JNum 100)
      | Some (JObj ps) \<Rightarrow> JObj ps
      | _ \<Rightarrow> JNum 100)"

text \<open>\<open>simulateApiCall\<close>: the DOM changes, then the wait.\<close>

definition simulateApiCall ::
  "'s correlator_browser \<Rightarrow> js_object \<Rightarrow> 's \<Rightarrow> string option \<times> 's" where
  "simulateApiCall b apiCall s =
     (case evaluate_simulation b apiCall s of
        (Some message, s1) \<Rightarrow> (Some message, s1)
      | (None, s1) \<Rightarrow> waitForTimeout b (duration_or_100 apiCall) s1)"

text \<open>
  The \<open>try\<close> block of the loop for one call: the value to store as \<open>frontendImpact\<close>, or
  the message of the exception that was thrown.
\<close>

definition measure_call ::
  "'s correlator_browser \<Rightarrow> js_object \<Rightarrow> 's \<Rightarrow> (string + js_value) \<times> 's" where
  "measure_call b apiCall s =
     (case evaluate_metrics b s of
        (Inl message, s1) \<Rightarrow> (Inl message, s1)
      | (Inr beforeMetrics, s1) \<Rightarrow>
     (case simulateApiCall b apiCall s1 of
        (Some message, s2) \<Rightarrow> (Inl message, s2)
      | (None, s2) \<Rightarrow>
     (case waitForTimeout b (JNum 500) s2 of
        (Some message, s3) \<Rightarrow> (Inl message, s3)
      | (None, s3) \<Rightarrow>
     (case evaluate_metrics b s3 of
        (Inl message, s4) \<Rightarrow> (Inl message, s4)
      | (Inr afterMetrics, s4) \<Rightarrow>
          (Inr (frontendImpact_of beforeMetrics afterMetrics), s4)))))"

text \<open>The object pushed for one call, by the \<open>try\<close> block or by the \<open>catch\<close> block.\<close>

definition enhance :: "js_object \<Rightarrow> string + js_value \<Rightarrow> js_object" where
  "enhance apiCall measured =
     (case measured of
        Inr impact \<Rightarrow> AList.update ''frontendImpact'' impact apiCall
      | Inl message \<Rightarrow>
          AList.update ''frontendImpact'' (JObj [(''error'', JStr message)]) apiCall)"

text \<open>The \<open>for\<close> loop, with the array \<open>enhancedApiCalls\<close> and the state of the page.\<close>

fun analyze_loop ::
  "'s correlator_browser \<Rightarrow> js_object list \<Rightarrow> js_object list \<Rightarrow> 's \<Rightarrow> js_object list \<times> 's" where
  "analyze_loop b enhancedApiCalls [] s = (enhancedApiCalls, s)"
| "analyze_loop b enhancedApiCalls (apiCall # rest) s =
     (case measure_call b apiCall s of
        (measured, s1) \<Rightarrow>
          analyze_loop b (enhancedApiCalls @ [enhance apiCall measured]) rest s1)"

declare analyze_loop.simps(2) [simp del]

definition analyzeApiImpact ::
  "'s correlator_browser \<Rightarrow> js_object list \<Rightarrow> string \<Rightarrow> string + js_object list" where
  "analyzeApiImpact b calls pageUrl =
     (case cb_launch b of
        Inl message \<Rightarrow> Inl message
      | Inr s0 \<Rightarrow>
          (case cb_goto b pageUrl s0 of
             (Some message, s1) \<Rightarrow>
               (case cb_close b s1 of Some message' \<Rightarrow> Inl message' | None \<Rightarrow> Inl message)
           | (None, s1) \<Rightarrow>
               (case analyze_loop b [] calls s1 of
                  (enhancedApiCalls, s2) \<Rightarrow>
                    (case cb_close b s2 of
                       Some message' \<Rightarrow> Inl message'
                     | None \<Rightarrow> Inr enhancedApiCalls))))"

text \<open>The state of the page when the loop reaches the call of index \<open>i\<close>.\<close>

definition page_before :: "'s correlator_browser \<Rightarrow> js_object list \<Rightarrow> nat \<Rightarrow> 's \<Rightarrow> 's" where
  "page_before b calls i s = snd (analyze_loop b [] (take i calls) s)"

text \<open>
  An example page whose state counts the operations: the metrics cannot be read when the
  counter is 5, which makes the measurement of the second call fail.
\<close>

definition example_metrics :: "nat \<Rightarrow> performance_metrics" where
  "example_metrics n =
     \<lparr>pm_timestamp = of_nat n, pm_fcp = 800, pm_cls = 0, pm_domUpdateTime = 900,
      pm_renderTime = 1000 + 60 * of_nat n, pm_memory = None, pm_resourceCount = of_nat n\<rparr>"

definition example_page :: "nat correlator_browser" where
  "example_page =
     \<lparr>cb_launch = Inr 0,
      cb_goto = (\<lambda>u s. (None, s)),
      cb_close = (\<lambda>s. None),
      evaluate_metrics = (\<lambda>s.
        if s = 5 then (Inl ''Execution context was destroyed'', Suc s)
        else (Inr (example_metrics s), Suc s)),
      evaluate_simulation = (\<lambda>c s. (None, Suc s)),
      waitForTimeout = (\<lambda>d s. (None, Suc s))\<rparr>"

definition example_calls :: "js_object list" where
  "example_calls =
     [[(''id'', JStr ''r1''), (''url'', JStr ''https://x.com/api/a''), (''duration'', JNum 40)],
      [(''id'', JStr ''r2''), (''url'', JStr ''https://x.com/api/b'')],
      [(''id'', JStr ''r3''), (''url'', JStr ''https://x.com/api/c''),
       (''frontendImpact'', JNull), (''status'', JNum 200)]]"

section \<open>Evaluating the formatting functions\<close>

lemma show_nat_lt: "n < 10 \<Longrightarrow> show_nat n = [digit_char n]"
  by (simp add: show_nat.simps)

lemma show_nat_ge: "10 \<le> n \<Longrightarrow> show_nat n = show_nat (n div 10) @ [digit_char (n mod 10)]"
  by (subst show_nat.simps) simp

lemma unit_index_lt: "n < 1024 \<Longrightarrow> unit_index n = 0"
  by (simp add: unit_index.simps)

lemma unit_index_ge: "1024 \<le> n \<Longrightarrow> unit_index n = Suc (unit_index (n div 1024))"
  by (subst unit_index.simps) simp


lemmas js_eval = show_nat_lt show_nat_ge unit_index_lt unit_index_ge digit_char_def
  toFixed_def show_decimal_def formatBytes_def sizes_def show_int_def Let_def

section \<open>Properties of the timing estimator\<close>

lemma both_diff_Some:
  "both_diff x y = Some d \<longleftrightarrow> (\<exists>a b. x = Some a \<and> y = Some b \<and> a \<noteq> 0 \<and> b \<noteq> 0 \<and> d = a - b)"
  by (cases x; cases y) auto

lemma js_round_mono: "x \<le> y \<Longrightarrow> js_round x \<le> js_round y"
  unfolding js_round_def by (intro floor_mono) simp

lemma js_round_of_int: "js_round (of_int n) = n"
  unfolding js_round_def by linarith

lemma js_round_lower: "of_int n \<le> x \<Longrightarrow> n \<le> js_round x"
  using js_round_mono [of "of_int n" x] by (simp add: js_round_of_int)

lemma js_round_upper: "x \<le> of_int n \<Longrightarrow> js_round x \<le> n"
  using js_round_mono [of x "of_int n"] by (simp add: js_round_of_int)

lemma fallback_range:
  assumes "0 \<le> r" "r < 1"
  shows "20 \<le> js_round (20 + r * 80)" "js_round (20 + r * 80) \<le> 100"
proof -
  from assms have "of_int 20 \<le> 20 + r * 80" by simp
  then show "20 \<le> js_round (20 + r * 80)" by (rule js_round_lower)
  from assms have "20 + r * 80 \<le> of_int 100" by simp
  then show "js_round (20 + r * 80) \<le> 100" by (rule js_round_upper)
qed

lemma estimate_range:
  assumes "0 \<le> r" "r < 1"
  shows "60 \<le> js_round (50 + max 10 (min 500 s) + r * 100)"
    "js_round (50 + max 10 (min 500 s) + r * 100) \<le> 650"
proof -
  have m: "10 \<le> max 10 (min 500 s)" "max 10 (min 500 s) \<le> 500" by auto
  from assms m have "of_int 60 \<le> 50 + max 10 (min 500 s) + r * 100" by simp
  then show "60 \<le> js_round (50 + max 10 (min 500 s) + r * 100)" by (rule js_round_lower)
  from assms m have "r * 100 \<le> 100" by simp
  with m have "50 + max 10 (min 500 s) + r * 100 \<le> of_int 650" by simp
  then show "js_round (50 + max 10 (min 500 s) + r * 100) \<le> 650" by (rule js_round_upper)
qed


lemma chainTiming_estimated:
  assumes "endTime call = None" "networkEndTime call = None" "responseReceivedTime call = None"
    "finished call = None" "timing call = None"
  shows "chainTiming j call =
    js_round (50 + max 10 (min 500 (of_nat (size_of_call call) / 1000)) + j * 100)"
  using assms by (simp add: chainTiming_def)

lemma estimate_timeTaken_positive:
  assumes "valid_draw j" "valid_draw f"
  shows "0 < estimate_timeTaken j f call"
proof (cases "chainTiming j call \<le> 0")
  case True
  from assms(2) have "20 \<le> js_round (20 + f * 80)"
    by (intro fallback_range) (simp_all add: valid_draw_def)
  with True show ?thesis by (simp add: estimate_timeTaken_def)
next
  case False
  then show ?thesis by (simp add: estimate_timeTaken_def)
qed

lemma estimate_timeTaken_substitute:
  assumes "valid_draw f" "chainTiming j call \<le> 0"
  shows "20 \<le> estimate_timeTaken j f call" "estimate_timeTaken j f call \<le> 100"
  using assms fallback_range [of f] by (simp_all add: estimate_timeTaken_def valid_draw_def)


lemma both_diff_values: "e \<noteq> 0 \<Longrightarrow> s \<noteq> 0 \<Longrightarrow> both_diff (Some e) (Some s) = Some (e - s)"
  by simp




text \<open>
  Claim C4. For every network record and every outcome of the random draws, the timing
  estimator returns a strictly positive integer, and so does the formatted call, also when
  the URL does not parse. When the fallback chain gives a value that is not positive the
  result is the substitute, between 20 and 100. For a record with no timestamp field and
  \<open>transferSize = 100000\<close> the result lies between 60 and 650.
\<close>

theorem estimate_timeTaken_safe:
  assumes "valid_draws d"
  shows "0 < estimate_timeTaken (jitter d) (fallback d) call \<and>
    0 < timeTaken (formatApiCall pathname d call) \<and>
    (chainTiming (jitter d) call \<le> 0 \<longrightarrow>
       20 \<le> estimate_timeTaken (jitter d) (fallback d) call \<and>
       estimate_timeTaken (jitter d) (fallback d) call \<le> 100) \<and>
    (endTime call = None \<and> startTime call = None \<and> networkEndTime call = None \<and>
     networkRequestTime call = None \<and> responseReceivedTime call = None \<and>
     requestTime call = None \<and> finished call = None \<and> started call = None \<and>
     timing call = None \<and> transferSize call = Some 100000 \<longrightarrow>
       60 \<le> estimate_timeTaken (jitter d) (fallback d) call \<and>
       estimate_timeTaken (jitter d) (fallback d) call \<le> 650)"
proof -
  from assms have j: "valid_draw (jitter d)" and f: "valid_draw (fallback d)"
    and c: "valid_draw (catch_timeTaken d)"
    by (simp_all add: valid_draws_def)
  have pos: "0 < estimate_timeTaken (jitter d) (fallback d) call"
    using j f by (rule estimate_timeTaken_positive)
  have fmt: "0 < timeTaken (formatApiCall pathname d call)"
  proof (cases "pathname (req_url call)")
    case None
    from c have "of_int 50 \<le> 50 + catch_timeTaken d * 100"
      by (simp add: valid_draw_def)
    then have "50 \<le> js_round (50 + catch_timeTaken d * 100)"
      by (rule js_round_lower)
    with None show ?thesis by (simp add: formatApiCall_def)
  next
    case (Some path)
    with pos show ?thesis by (simp add: formatApiCall_def Let_def)
  qed
  have sub: "20 \<le> estimate_timeTaken (jitter d) (fallback d) call \<and>
      estimate_timeTaken (jitter d) (fallback d) call \<le> 100"
    if "chainTiming (jitter d) call \<le> 0"
    using estimate_timeTaken_substitute [OF f that] by simp
  have est: "60 \<le> estimate_timeTaken (jitter d) (fallback d) call \<and>
      estimate_timeTaken (jitter d) (fallback d) call \<le> 650"
    if h: "endTime call = None \<and> startTime call = None \<and> networkEndTime call = None \<and>
     networkRequestTime call = None \<and> responseReceivedTime call = None \<and>
     requestTime call = None \<and> finished call = None \<and> started call = None \<and>
     timing call = None \<and> transferSize call = Some 100000"
  proof -
    let ?v = "js_round (50 + max 10 (min 500 (of_nat (size_of_call call) / 1000)) + jitter d * 100)"
    from h have ch: "chainTiming (jitter d) call = ?v"
      by (intro chainTiming_estimated) simp_all
    from j have r: "60 \<le> ?v" "?v \<le> 650"
      by (intro estimate_range; simp add: valid_draw_def)+
    from ch r show ?thesis by (simp add: estimate_timeTaken_def)
  qed
  from pos fmt sub est show ?thesis by blast
qed

theorem estimate_timeTaken_safe_witness:
  "valid_draws \<lparr>jitter = 1 / 2, fallback = 0, catch_timeTaken = 0,
      catch_avgResponseTime = 0, catch_maxTaken = 0\<rparr> \<and>
   60 \<le> estimate_timeTaken (1 / 2) 0
      ((bare_request ''https://x.com/app.js'' ''Script'')\<lparr>transferSize := Some 100000\<rparr>) \<and>
   estimate_timeTaken (1 / 2) 0
      ((bare_request ''https://x.com/app.js'' ''Script'')\<lparr>transferSize := Some 100000\<rparr>) \<le> 650 \<and>
   chainTiming (1 / 2)
      ((bare_request ''https://x.com/api/users'' ''XHR'')
         \<lparr>endTime := Some 150, startTime := Some 150\<rparr>) \<le> 0 \<and>
   20 \<le> estimate_timeTaken (1 / 2) 0
      ((bare_request ''https://x.com/api/users'' ''XHR'')
         \<lparr>endTime := Some 150, startTime := Some 150\<rparr>) \<and>
   0 < timeTaken (formatApiCall (\<lambda>u. None)
      \<lparr>jitter = 1 / 2, fallback = 0, catch_timeTaken = 0,
        catch_avgResponseTime = 0, catch_maxTaken = 0\<rparr>
      ((bare_request ''not a url'' ''XHR'')\<lparr>endTime := Some 200, startTime := Some 150\<rparr>))"
proof -
  let ?d = "\<lparr>jitter = 1 / 2, fallback = 0, catch_timeTaken = 0,
      catch_avgResponseTime = 0, catch_maxTaken = 0\<rparr>"
  have v: "valid_draws ?d"
    by (simp add: valid_draws_def valid_draw_def)
  have c: "chainTiming (1 / 2)
      ((bare_request ''https://x.com/api/users'' ''XHR'')
         \<lparr>endTime := Some 150, startTime := Some 150\<rparr>) \<le> 0"
    by (simp add: chainTiming_def bare_request_def js_round_def)
  show ?thesis
    using v c
      estimate_timeTaken_safe [OF v, of
        "(bare_request ''https://x.com/app.js'' ''Script'')\<lparr>transferSize := Some 100000\<rparr>"
        "\<lambda>u. None"]
      estimate_timeTaken_safe [OF v, of
        "(bare_request ''https://x.com/api/users'' ''XHR'')
           \<lparr>endTime := Some 150, startTime := Some 150\<rparr>" "\<lambda>u. None"]
      estimate_timeTaken_safe [OF v, of
        "(bare_request ''not a url'' ''XHR'')\<lparr>endTime := Some 200, startTime := Some 150\<rparr>"
        "\<lambda>u. None"]
    by (simp add: bare_request_def)
qed

section \<open>Properties of the API classifier\<close>

lemma canonicalize_cases: "canonicalize c = c \<or> canonicalize c \<in> set upper_letters"
proof (cases "map_of (zip lower_letters upper_letters) c")
  case None
  then show ?thesis by (simp add: canonicalize_def)
next
  case (Some u)
  then have "(c, u) \<in> set (zip lower_letters upper_letters)"
    by (rule map_of_SomeD)
  then have "u \<in> set upper_letters"
    by (rule set_zip_rightD)
  with Some show ?thesis by (simp add: canonicalize_def)
qed

lemma upper_not_digit: "d \<in> set upper_letters \<Longrightarrow> \<not> is_digit d"
  by (auto simp: is_digit_def upper_letters_def digit_chars_def)

lemma canonicalize_digit: "is_digit c \<Longrightarrow> canonicalize c = c"
proof -
  assume "is_digit c"
  then have "c \<notin> set lower_letters"
    by (auto simp: is_digit_def lower_letters_def digit_chars_def)
  then have "map_of (zip lower_letters upper_letters) c = None"
    by (auto simp: map_of_eq_None_iff dest: set_zip_leftD)
  then show ?thesis by (simp add: canonicalize_def)
qed

lemma is_digit_canonicalize: "is_digit (canonicalize c) = is_digit c"
  using canonicalize_cases [of c] upper_not_digit [of "canonicalize c"] canonicalize_digit [of c]
  by auto

lemma digits_canonicalize:
  "list_all is_digit (map canonicalize ds) = list_all is_digit ds"
  by (induction ds) (simp_all add: is_digit_canonicalize)

lemma map_canonicalize_digits: "list_all is_digit ds \<Longrightarrow> map canonicalize ds = ds"
  by (induction ds) (simp_all add: canonicalize_digit)

lemma match_here_literal:
  "match_here a (literal w @ r) s \<longleftrightarrow>
     (\<exists>s1 t. s = s1 @ t \<and> map canonicalize s1 = map canonicalize w \<and> match_here a r t)"
proof (induction w arbitrary: s)
  case Nil
  then show ?case by (simp add: literal_def)
next
  case (Cons c w)
  show ?case
  proof (cases s)
    case Nil
    then show ?thesis by (simp add: literal_def)
  next
    case (Cons x xs)
    have "match_here a (literal (c # w) @ r) (x # xs) \<longleftrightarrow>
        canonicalize x = canonicalize c \<and> match_here a (literal w @ r) xs"
      by (simp add: literal_def)
    also have "\<dots> \<longleftrightarrow> canonicalize x = canonicalize c \<and>
        (\<exists>s1 t. xs = s1 @ t \<and> map canonicalize s1 = map canonicalize w \<and> match_here a r t)"
      using Cons.IH [of xs] by simp
    also have "\<dots> \<longleftrightarrow> (\<exists>s1 t. x # xs = s1 @ t \<and>
        map canonicalize s1 = map canonicalize (c # w) \<and> match_here a r t)"
    proof
      assume "canonicalize x = canonicalize c \<and>
        (\<exists>s1 t. xs = s1 @ t \<and> map canonicalize s1 = map canonicalize w \<and> match_here a r t)"
      then obtain s1 t where "canonicalize x = canonicalize c" "xs = s1 @ t"
        "map canonicalize s1 = map canonicalize w" "match_here a r t"
        by blast
      then have "x # xs = (x # s1) @ t \<and>
          map canonicalize (x # s1) = map canonicalize (c # w) \<and> match_here a r t"
        by simp
      then show "\<exists>s1 t. x # xs = s1 @ t \<and>
          map canonicalize s1 = map canonicalize (c # w) \<and> match_here a r t"
        by blast
    next
      assume "\<exists>s1 t. x # xs = s1 @ t \<and>
          map canonicalize s1 = map canonicalize (c # w) \<and> match_here a r t"
      then obtain s1 t where h: "x # xs = s1 @ t"
        "map canonicalize s1 = map canonicalize (c # w)" "match_here a r t"
        by blast
      then obtain y s1' where s1: "s1 = y # s1'"
        by (cases s1) auto
      with h have "canonicalize x = canonicalize c \<and> xs = s1' @ t \<and>
          map canonicalize s1' = map canonicalize w \<and> match_here a r t"
        by simp
      then show "canonicalize x = canonicalize c \<and>
        (\<exists>s1 t. xs = s1 @ t \<and> map canonicalize s1 = map canonicalize w \<and> match_here a r t)"
        by blast
    qed
    finally show ?thesis using Cons by simp
  qed
qed

lemma match_here_Digits:
  "match_here a (Digits # r) s \<longleftrightarrow>
     (\<exists>ds t. ds \<noteq> [] \<and> list_all is_digit ds \<and> s = ds @ t \<and> match_here a r t)"
proof (induction s)
  case Nil
  then show ?case by simp
next
  case (Cons x xs)
  show ?case
  proof
    assume "match_here a (Digits # r) (x # xs)"
    then have d: "is_digit x" and m: "match_here a (Digits # r) xs \<or> match_here a r xs"
      by simp_all
    from m show "\<exists>ds t. ds \<noteq> [] \<and> list_all is_digit ds \<and> x # xs = ds @ t \<and> match_here a r t"
    proof
      assume "match_here a (Digits # r) xs"
      with Cons.IH obtain ds t where "ds \<noteq> []" "list_all is_digit ds" "xs = ds @ t" "match_here a r t"
        by blast
      with d have "x # ds \<noteq> [] \<and> list_all is_digit (x # ds) \<and> x # xs = (x # ds) @ t \<and> match_here a r t"
        by simp
      then show ?thesis by blast
    next
      assume "match_here a r xs"
      with d have "[x] \<noteq> [] \<and> list_all is_digit [x] \<and> x # xs = [x] @ xs \<and> match_here a r xs"
        by simp
      then show ?thesis by blast
    qed
  next
    assume "\<exists>ds t. ds \<noteq> [] \<and> list_all is_digit ds \<and> x # xs = ds @ t \<and> match_here a r t"
    then obtain ds t where ds: "ds \<noteq> []" "list_all is_digit ds" "x # xs = ds @ t" "match_here a r t"
      by blast
    then obtain d ds' where dd: "ds = d # ds'" by (cases ds) auto
    with ds have x: "x = d" "xs = ds' @ t" "is_digit x" "list_all is_digit ds'" by auto
    show "match_here a (Digits # r) (x # xs)"
    proof (cases "ds' = []")
      case True
      with x ds show ?thesis by simp
    next
      case False
      with x ds have "match_here a (Digits # r) xs"
        using Cons.IH by blast
      with x show ?thesis by simp
    qed
  qed
qed

lemma regex_test_iff:
  "regex_test re s \<longleftrightarrow> (\<exists>p t. s = p @ t \<and> match_here (end_anchor re) (items re) t)"
proof (induction s)
  case Nil
  then show ?case by simp
next
  case (Cons x xs)
  have "(\<exists>p t. x # xs = p @ t \<and> match_here (end_anchor re) (items re) t) \<longleftrightarrow>
      match_here (end_anchor re) (items re) (x # xs) \<or>
      (\<exists>p t. xs = p @ t \<and> match_here (end_anchor re) (items re) t)"
    by (auto simp: Cons_eq_append_conv)
  with Cons.IH show ?case by simp
qed

lemma sublist_map_iff:
  "sublist xs (map f s) \<longleftrightarrow> (\<exists>p m t. s = p @ m @ t \<and> map f m = xs)"
proof
  assume "sublist xs (map f s)"
  then obtain ps ss where "map f s = ps @ xs @ ss"
    by (auto simp: sublist_def)
  then obtain p r where r: "s = p @ r" "map f r = xs @ ss"
    by (metis map_eq_append_conv)
  then obtain m t where "r = m @ t" "map f m = xs"
    by (metis map_eq_append_conv)
  with r show "\<exists>p m t. s = p @ m @ t \<and> map f m = xs" by blast
next
  assume "\<exists>p m t. s = p @ m @ t \<and> map f m = xs"
  then obtain p m t where "s = p @ m @ t" "map f m = xs" by blast
  then have "map f s = map f p @ xs @ map f t" by simp
  then show "sublist xs (map f s)" unfolding sublist_def by blast
qed

lemma suffix_map_iff:
  "suffix xs (map f s) \<longleftrightarrow> (\<exists>p m. s = p @ m \<and> map f m = xs)"
proof
  assume "suffix xs (map f s)"
  then obtain ps where "map f s = ps @ xs"
    by (auto simp: suffix_def)
  then show "\<exists>p m. s = p @ m \<and> map f m = xs"
    by (metis map_eq_append_conv)
next
  assume "\<exists>p m. s = p @ m \<and> map f m = xs"
  then obtain p m where "s = p @ m" "map f m = xs" by blast
  then have "map f s = map f p @ xs" by simp
  then show "suffix xs (map f s)" unfolding suffix_def by blast
qed

lemma test_literal_unanchored:
  "regex_test \<lparr>items = literal w, end_anchor = False\<rparr> s \<longleftrightarrow>
     sublist (map canonicalize w) (map canonicalize s)"
proof -
  have "regex_test \<lparr>items = literal w, end_anchor = False\<rparr> s \<longleftrightarrow>
      (\<exists>p t. s = p @ t \<and> match_here False (literal w @ []) t)"
    by (simp add: regex_test_iff)
  also have "\<dots> \<longleftrightarrow> (\<exists>p s1 t. s = p @ s1 @ t \<and> map canonicalize s1 = map canonicalize w)"
    unfolding match_here_literal by auto
  finally show ?thesis unfolding sublist_map_iff .
qed

lemma test_literal_anchored:
  "regex_test \<lparr>items = literal w, end_anchor = True\<rparr> s \<longleftrightarrow>
     suffix (map canonicalize w) (map canonicalize s)"
proof -
  have "regex_test \<lparr>items = literal w, end_anchor = True\<rparr> s \<longleftrightarrow>
      (\<exists>p t. s = p @ t \<and> match_here True (literal w @ []) t)"
    by (simp add: regex_test_iff)
  also have "\<dots> \<longleftrightarrow> (\<exists>p s1. s = p @ s1 \<and> map canonicalize s1 = map canonicalize w)"
    unfolding match_here_literal by auto
  finally show ?thesis unfolding suffix_map_iff .
qed

lemma match_here_versioned:
  "match_here False (literal w1 @ Digits # (literal w2 @ [])) u \<longleftrightarrow>
     (\<exists>s1 ds s2 t. u = s1 @ ds @ s2 @ t \<and> map canonicalize s1 = map canonicalize w1 \<and>
        ds \<noteq> [] \<and> list_all is_digit ds \<and> map canonicalize s2 = map canonicalize w2)"
proof
  assume "match_here False (literal w1 @ Digits # (literal w2 @ [])) u"
  then obtain s1 t1 where a: "u = s1 @ t1" "map canonicalize s1 = map canonicalize w1"
      "match_here False (Digits # (literal w2 @ [])) t1"
    unfolding match_here_literal [of False w1] by blast
  from a(3) obtain ds t2 where b: "ds \<noteq> []" "list_all is_digit ds" "t1 = ds @ t2"
      "match_here False (literal w2 @ []) t2"
    unfolding match_here_Digits [of False] by blast
  from b(4) obtain s2 t where c: "t2 = s2 @ t" "map canonicalize s2 = map canonicalize w2"
    unfolding match_here_literal [of False w2] by blast
  from a b c have "u = s1 @ ds @ s2 @ t \<and> map canonicalize s1 = map canonicalize w1 \<and>
        ds \<noteq> [] \<and> list_all is_digit ds \<and> map canonicalize s2 = map canonicalize w2"
    by simp
  then show "\<exists>s1 ds s2 t. u = s1 @ ds @ s2 @ t \<and> map canonicalize s1 = map canonicalize w1 \<and>
        ds \<noteq> [] \<and> list_all is_digit ds \<and> map canonicalize s2 = map canonicalize w2"
    by blast
next
  assume "\<exists>s1 ds s2 t. u = s1 @ ds @ s2 @ t \<and> map canonicalize s1 = map canonicalize w1 \<and>
        ds \<noteq> [] \<and> list_all is_digit ds \<and> map canonicalize s2 = map canonicalize w2"
  then obtain s1 ds s2 t where h: "u = s1 @ ds @ s2 @ t" "map canonicalize s1 = map canonicalize w1"
        "ds \<noteq> []" "list_all is_digit ds" "map canonicalize s2 = map canonicalize w2"
    by blast
  have "match_here False [] t" by simp
  with h(5) have "match_here False (literal w2 @ []) (s2 @ t)"
    unfolding match_here_literal [of False w2] by blast
  with h(3,4) have "match_here False (Digits # (literal w2 @ [])) (ds @ s2 @ t)"
    unfolding match_here_Digits [of False] by blast
  with h(2) have "match_here False (literal w1 @ Digits # (literal w2 @ [])) (s1 @ ds @ s2 @ t)"
    unfolding match_here_literal [of False w1] by blast
  with h(1) show "match_here False (literal w1 @ Digits # (literal w2 @ [])) u"
    by simp
qed

lemma test_versioned:
  "regex_test \<lparr>items = literal w1 @ [Digits] @ literal w2, end_anchor = False\<rparr> s \<longleftrightarrow>
     (\<exists>ds. ds \<noteq> [] \<and> list_all is_digit ds \<and>
        sublist (map canonicalize w1 @ ds @ map canonicalize w2) (map canonicalize s))"
proof
  assume "regex_test \<lparr>items = literal w1 @ [Digits] @ literal w2, end_anchor = False\<rparr> s"
  then obtain p u where u: "s = p @ u" "match_here False (literal w1 @ Digits # (literal w2 @ [])) u"
    by (auto simp: regex_test_iff)
  from u(2) obtain s1 ds s2 t where h: "u = s1 @ ds @ s2 @ t"
      "map canonicalize s1 = map canonicalize w1" "ds \<noteq> []" "list_all is_digit ds"
      "map canonicalize s2 = map canonicalize w2"
    unfolding match_here_versioned by blast
  from u(1) h have "s = p @ (s1 @ ds @ s2) @ t \<and>
      map canonicalize (s1 @ ds @ s2) = map canonicalize w1 @ ds @ map canonicalize w2"
    by (simp add: map_canonicalize_digits)
  then have "sublist (map canonicalize w1 @ ds @ map canonicalize w2) (map canonicalize s)"
    unfolding sublist_map_iff by blast
  with h(3,4) show "\<exists>ds. ds \<noteq> [] \<and> list_all is_digit ds \<and>
        sublist (map canonicalize w1 @ ds @ map canonicalize w2) (map canonicalize s)"
    by blast
next
  assume "\<exists>ds. ds \<noteq> [] \<and> list_all is_digit ds \<and>
        sublist (map canonicalize w1 @ ds @ map canonicalize w2) (map canonicalize s)"
  then obtain ds p m t where h: "ds \<noteq> []" "list_all is_digit ds" "s = p @ m @ t"
      "map canonicalize m = map canonicalize w1 @ ds @ map canonicalize w2"
    unfolding sublist_map_iff by blast
  from h(4) [unfolded map_eq_append_conv]
  obtain s1 r where r: "m = s1 @ r" "map canonicalize s1 = map canonicalize w1"
      "map canonicalize r = ds @ map canonicalize w2"
    by metis
  from r(3) [unfolded map_eq_append_conv]
  obtain ds' s2 where d: "r = ds' @ s2" "map canonicalize ds' = ds"
      "map canonicalize s2 = map canonicalize w2"
    by metis
  from d(2) h(1,2) have e: "ds' \<noteq> []" "list_all is_digit ds'"
    using digits_canonicalize [of ds'] by auto
  from h(3) r(1) d(1) have "s = p @ (s1 @ ds' @ s2 @ t)" by simp
  moreover from r(2) d(3) e have "match_here False (literal w1 @ Digits # (literal w2 @ [])) (s1 @ ds' @ s2 @ t)"
    unfolding match_here_versioned by blast
  ultimately show "regex_test \<lparr>items = literal w1 @ [Digits] @ literal w2, end_anchor = False\<rparr> s"
    unfolding regex_test_iff by auto
qed

text \<open>
  Claim C5, as the code has it. \<open>isApiRequest\<close> is true exactly when the resource type
  is the string \<open>xhr\<close> or \<open>fetch\<close> (compared as it is, case-sensitively), or the URL,
  compared without regard to case, contains \<open>/api/\<close>, \<open>/graphql\<close>, \<open>/rest/\<close> or
  \<open>/v<digits>/\<close>, or ends in \<open>.json\<close>. The three examples of the specification hold.
\<close>

theorem isApiRequest_iff:
  "(isApiRequest url rt \<longleftrightarrow> rt = ''xhr'' \<or> rt = ''fetch'' \<or> url_rule url) \<and>
   isApiRequest ''https://x.com/api/users'' ''xhr'' \<and>
   \<not> isApiRequest ''https://x.com/static/logo.png'' ''other'' \<and>
   isApiRequest ''https://x.com/data.json'' ''other''"
proof -
  have "isApiRequest url rt \<longleftrightarrow> rt = ''xhr'' \<or> rt = ''fetch'' \<or> url_rule url"
    unfolding isApiRequest_def url_rule_def apiPatterns_def Let_def list_ex_Cons_iff list_ex_Nil_iff
      test_literal_unanchored test_literal_anchored test_versioned
    by blast
  moreover have "isApiRequest ''https://x.com/api/users'' ''xhr''"
    by code_simp
  moreover have "\<not> isApiRequest ''https://x.com/static/logo.png'' ''other''"
    by code_simp
  moreover have "isApiRequest ''https://x.com/data.json'' ''other''"
    by code_simp
  ultimately show ?thesis by blast
qed

text \<open>
  Claim C5, as stated, fails: the resource type is not compared case-insensitively. The type
  \<open>XHR\<close> equals \<open>xhr\<close> up to case, and the request is not classified as an API call.
\<close>

theorem isApiRequest_counterexample:
  "\<not> isApiRequest ''https://x.com/static/logo.png'' ''XHR'' \<and>
   map canonicalize ''XHR'' = map canonicalize ''xhr''"
  by code_simp

text \<open>
  The filter inside \<open>analyzeApiCalls\<close> is another rule: it has no \<open>.json\<close> pattern and
  expects the capitalised resource types of Lighthouse.
\<close>

lemma is_api_item_examples:
  "\<not> is_api_item (bare_request ''https://x.com/data.json'' ''other'') \<and>
   \<not> is_api_item (bare_request ''https://x.com/static/logo.png'' ''xhr'') \<and>
   is_api_item (bare_request ''https://x.com/static/logo.png'' ''XHR'')"
  by code_simp

section \<open>Properties of the crawl\<close>

lemma enqueue_links_frame:
  "maxDepth (fst (enqueue_links u d ls cq)) = maxDepth (fst cq) \<and>
   pageData (fst (enqueue_links u d ls cq)) = pageData (fst cq) \<and>
   apiCalls (fst (enqueue_links u d ls cq)) = apiCalls (fst cq)"
  by (induction u d ls cq rule: enqueue_links.induct) simp_all

lemma crawl_page_maxDepth: "maxDepth (fst (crawl_page c e q outcome)) = maxDepth c"
  by (cases outcome) (simp_all add: crawl_page_def Let_def enqueue_links_frame)

lemma crawl_page_pageData:
  "\<exists>p. pr_depth p = fe_depth e \<and>
     map_of (pageData (fst (crawl_page c e q outcome))) = (map_of (pageData c))(fe_url e \<mapsto> p)"
proof (cases outcome)
  case (NavFailed m)
  then have "pr_depth (PageFailed m (fe_depth e) (fe_parentUrl e)) = fe_depth e \<and>
      map_of (pageData (fst (crawl_page c e q outcome))) =
      (map_of (pageData c))(fe_url e \<mapsto> PageFailed m (fe_depth e) (fe_parentUrl e))"
    by (simp add: crawl_page_def update_conv')
  then show ?thesis by blast
next
  case (NavLoaded info events)
  let ?p = "PageLoaded info (length (links info)) (fe_depth e) (fe_parentUrl e)
      (length (handle_events (fe_url e) (fe_depth e) events))"
  from NavLoaded have "pr_depth ?p = fe_depth e \<and>
      map_of (pageData (fst (crawl_page c e q outcome))) = (map_of (pageData c))(fe_url e \<mapsto> ?p)"
    by (simp add: crawl_page_def Let_def enqueue_links_frame update_conv')
  then show ?thesis by blast
qed

lemma within_budget_step:
  assumes inv: "within_budget c"
    and lt: "real (length (visitedUrls c)) < maxPages c"
    and new: "fe_url e \<notin> set (visitedUrls c)"
    and dep: "real (fe_depth e) \<le> maxDepth c"
  shows "within_budget (fst (crawl_page (c\<lparr>visitedUrls := set_add (fe_url e) (visitedUrls c)\<rparr>) e q outcome))"
proof -
  let ?c1 = "c\<lparr>visitedUrls := set_add (fe_url e) (visitedUrls c)\<rparr>"
  let ?c2 = "fst (crawl_page ?c1 e q outcome)"
  have v: "visitedUrls ?c2 = visitedUrls c @ [fe_url e]"
    using new by (simp add: crawl_page_budget set_add_def)
  have mp: "maxPages ?c2 = maxPages c"
    by (simp add: crawl_page_budget)
  have md: "maxDepth ?c2 = maxDepth c"
    by (simp add: crawl_page_maxDepth)
  obtain p where p: "pr_depth p = fe_depth e"
      "map_of (pageData ?c2) = (map_of (pageData c))(fe_url e \<mapsto> p)"
    using crawl_page_pageData [of e ?c1 q outcome] by auto
  have old: "(case map_of (pageData ?c2) u of None \<Rightarrow> False | Some p \<Rightarrow> real (pr_depth p) \<le> maxDepth c)"
    if "u \<in> set (visitedUrls c)" for u
  proof -
    from inv that have "(case map_of (pageData c) u of None \<Rightarrow> False | Some p \<Rightarrow> real (pr_depth p) \<le> maxDepth c)"
      by (simp add: within_budget_def list_all_iff)
    moreover from that new have "u \<noteq> fe_url e" by auto
    ultimately show ?thesis by (simp add: p(2))
  qed
  have cur: "(case map_of (pageData ?c2) (fe_url e) of None \<Rightarrow> False | Some p \<Rightarrow> real (pr_depth p) \<le> maxDepth c)"
    using p dep by simp
  from inv lt new
  have "(visitedUrls ?c2 = [] \<or> real (length (visitedUrls ?c2)) < maxPages ?c2 + 1) \<and>
      distinct (visitedUrls ?c2)"
    by (simp add: v mp within_budget_def)
  moreover have "list_all (\<lambda>u. case map_of (pageData ?c2) u of
                       None \<Rightarrow> False
                     | Some p \<Rightarrow> real (pr_depth p) \<le> maxDepth ?c2) (visitedUrls ?c2)"
    using old cur unfolding md by (simp add: v list_all_iff)
  ultimately show ?thesis
    by (simp add: within_budget_def)
qed

lemma crawl_loop_within_budget:
  "within_budget c \<Longrightarrow> crawl_loop b c q = Inr c' \<Longrightarrow>
     within_budget c' \<and> maxPages c' = maxPages c \<and> maxDepth c' = maxDepth c"
proof (induction b c q rule: crawl_loop.induct)
  case (1 b c)
  then show ?case by (simp add: crawl_loop.simps)
next
  case (2 b c e crawlQueue)
  show ?case
  proof (cases "real (length (visitedUrls c)) < maxPages c")
    case False
    with "2.prems" show ?thesis by (simp add: crawl_loop.simps)
  next
    case lt: True
    show ?thesis
    proof (cases "fe_url e \<in> set (visitedUrls c) \<or> real (fe_depth e) > maxDepth c")
      case True
      with lt "2.prems" have "crawl_loop b c crawlQueue = Inr c'"
        by (simp add: crawl_loop.simps)
      with "2.IH"(1) lt True "2.prems"(1) show ?thesis by simp
    next
      case skip: False
      from "2.prems"(2) lt skip obtain outcome where
        op: "open_page b (length (visitedUrls c)) (fe_url e) = PageRun outcome None"
        by (auto simp: crawl_loop.simps split: page_run.splits option.splits)
      let ?r = "crawl_page (c\<lparr>visitedUrls := set_add (fe_url e) (visitedUrls c)\<rparr>) e crawlQueue outcome"
      from "2.prems"(2) lt skip op have run: "crawl_loop b (fst ?r) (snd ?r) = Inr c'"
        by (simp add: crawl_loop.simps)
      from "2.prems"(1) lt skip have wb: "within_budget (fst ?r)"
        by (intro within_budget_step) auto
      from "2.IH"(2) [OF _ _ op refl wb run] lt skip
      have "within_budget c' \<and> maxPages c' = maxPages (fst ?r) \<and> maxDepth c' = maxDepth (fst ?r)"
        by simp
      then show ?thesis
        by (simp add: crawl_page_budget crawl_page_maxDepth)
    qed
  qed
qed

lemma crawl_loop_returns:
  "\<forall>n u. \<exists>outcome. open_page b n u = PageRun outcome None \<Longrightarrow>
     \<exists>c'. crawl_loop b c q = Inr c'"
proof (induction b c q rule: crawl_loop.induct)
  case (1 b c)
  then show ?case by (simp add: crawl_loop.simps)
next
  case (2 b c e crawlQueue)
  show ?case
  proof (cases "real (length (visitedUrls c)) < maxPages c")
    case False
    then show ?thesis by (simp add: crawl_loop.simps)
  next
    case lt: True
    show ?thesis
    proof (cases "fe_url e \<in> set (visitedUrls c) \<or> real (fe_depth e) > maxDepth c")
      case True
      with lt "2.IH"(1) "2.prems" show ?thesis
        by (simp add: crawl_loop.simps)
    next
      case skip: False
      from "2.prems" obtain outcome where
        op: "open_page b (length (visitedUrls c)) (fe_url e) = PageRun outcome None"
        by blast
      from "2.IH"(2) [OF _ _ op refl] lt skip "2.prems" op show ?thesis
        by (simp add: crawl_loop.simps)
    qed
  qed
qed

lemma within_budget_new: "within_budget (WebsiteCrawler options)"
  by (simp add: within_budget_def WebsiteCrawler_def)

text \<open>
  Claim C1, as the code has it. Whenever \<open>crawlWebsite\<close> on a new crawler returns a
  result, no URL appears twice in \<open>visitedUrls\<close>, and every visited URL has a page
  record whose depth, the depth it was taken from the queue with, is at most \<open>maxDepth\<close>.
  A page is opened only while the number of visited URLs is below \<open>maxPages\<close>: that
  number is 0 or below \<open>maxPages + 1\<close>, hence at most \<open>maxPages\<close> when \<open>maxPages\<close> is a
  non-negative integer. The crawl does return a result when the browser launches and
  closes and every page opens and closes.
\<close>

theorem crawlWebsite_budgets:
  "(launch_error b = None \<and> browser_close_error b = None \<and>
      (\<forall>n u. \<exists>outcome. open_page b n u = PageRun outcome None) \<longrightarrow>
        (\<exists>r. crawlWebsite b (WebsiteCrawler options) baseUrl = Inr r)) \<and>
   (crawlWebsite b (WebsiteCrawler options) baseUrl = Inr r \<longrightarrow>
      (r_visitedUrls r = [] \<or>
       real (length (r_visitedUrls r)) < maxPages (WebsiteCrawler options) + 1) \<and>
      (\<forall>n. maxPages (WebsiteCrawler options) = real n \<longrightarrow> length (r_visitedUrls r) \<le> n) \<and>
      distinct (r_visitedUrls r) \<and>
      (\<forall>u \<in> set (r_visitedUrls r).
         \<exists>p. map_of (r_pageData r) u = Some p \<and>
             real (pr_depth p) \<le> maxDepth (WebsiteCrawler options)) \<and>
      totalPages r = length (r_visitedUrls r))"
proof (rule conjI; rule impI)
  let ?c = "WebsiteCrawler options"
  assume a: "launch_error b = None \<and> browser_close_error b = None \<and>
      (\<forall>n u. \<exists>outcome. open_page b n u = PageRun outcome None)"
  then obtain c' where
    "crawl_loop b ?c [\<lparr>fe_url = baseUrl, fe_depth = 0, fe_parentUrl = None\<rparr>] = Inr c'"
    using crawl_loop_returns [of b ?c] by blast
  with a have "crawlWebsite b ?c baseUrl = Inr (generateCrawlResults c')"
    by (simp add: crawlWebsite_def)
  then show "\<exists>r. crawlWebsite b ?c baseUrl = Inr r" by blast
next
  let ?c = "WebsiteCrawler options"
  assume ret: "crawlWebsite b ?c baseUrl = Inr r"
  then obtain c' where
    loop: "crawl_loop b ?c [\<lparr>fe_url = baseUrl, fe_depth = 0, fe_parentUrl = None\<rparr>] = Inr c'"
    and r: "r = generateCrawlResults c'"
    by (auto simp: crawlWebsite_def Let_def split: option.splits sum.splits)
  from crawl_loop_within_budget [OF within_budget_new loop]
  have wb: "within_budget c'" and mp: "maxPages c' = maxPages ?c" and md: "maxDepth c' = maxDepth ?c"
    by simp_all
  from wb have len: "visitedUrls c' = [] \<or> real (length (visitedUrls c')) < maxPages c' + 1"
    and dist: "distinct (visitedUrls c')"
    by (simp_all add: within_budget_def)
  have int: "length (visitedUrls c') \<le> n" if "maxPages c' = real n" for n
    using len that by auto
  have dep: "\<exists>p. map_of (pageData c') u = Some p \<and> real (pr_depth p) \<le> maxDepth c'"
    if "u \<in> set (visitedUrls c')" for u
  proof -
    from wb that
    have "(case map_of (pageData c') u of None \<Rightarrow> False | Some p \<Rightarrow> real (pr_depth p) \<le> maxDepth c')"
      by (simp add: within_budget_def list_all_iff)
    then show ?thesis by (cases "map_of (pageData c') u") simp_all
  qed
  from len int dist dep
  show "(r_visitedUrls r = [] \<or> real (length (r_visitedUrls r)) < maxPages ?c + 1) \<and>
      (\<forall>n. maxPages ?c = real n \<longrightarrow> length (r_visitedUrls r) \<le> n) \<and>
      distinct (r_visitedUrls r) \<and>
      (\<forall>u \<in> set (r_visitedUrls r).
         \<exists>p. map_of (r_pageData r) u = Some p \<and> real (pr_depth p) \<le> maxDepth ?c) \<and>
      totalPages r = length (r_visitedUrls r)"
    unfolding r generateCrawlResults_def mp md by simp
qed

theorem crawlWebsite_budgets_witness:
  "\<not> isl (crawlWebsite example_browser
       (WebsiteCrawler \<lparr>opt_maxPages = Some 2, opt_maxDepth = Some 1\<rparr>) ''https://x.com/'') \<and>
   r_visitedUrls (projr (crawlWebsite example_browser
       (WebsiteCrawler \<lparr>opt_maxPages = Some 2, opt_maxDepth = Some 1\<rparr>) ''https://x.com/''))
     = [''https://x.com/'', ''https://x.com/a''] \<and>
   length (r_visitedUrls (projr (crawlWebsite example_browser
       (WebsiteCrawler \<lparr>opt_maxPages = Some 2, opt_maxDepth = Some 1\<rparr>) ''https://x.com/''))) \<le> 2 \<and>
   distinct (r_visitedUrls (projr (crawlWebsite example_browser
       (WebsiteCrawler \<lparr>opt_maxPages = Some 2, opt_maxDepth = Some 1\<rparr>) ''https://x.com/'')))"
proof -
  let ?o = "\<lparr>opt_maxPages = Some 2, opt_maxDepth = Some 1\<rparr>"
  let ?res = "crawlWebsite example_browser (WebsiteCrawler ?o) ''https://x.com/''"
  have ok: "launch_error example_browser = None \<and> browser_close_error example_browser = None \<and>
      (\<forall>n u. \<exists>outcome. open_page example_browser n u = PageRun outcome None)"
    by (simp add: example_browser_def)
  from crawlWebsite_budgets [of example_browser ?o "''https://x.com/''", THEN conjunct1, THEN mp, OF ok]
  obtain r where ret: "?res = Inr r"
    by blast
  note props = crawlWebsite_budgets [of example_browser ?o "''https://x.com/''" r, THEN conjunct2,
      THEN mp, OF ret]
  have v: "map_sum id r_visitedUrls ?res = Inr [''https://x.com/'', ''https://x.com/a'']"
    by code_simp
  with ret have vis: "r_visitedUrls r = [''https://x.com/'', ''https://x.com/a'']"
    by simp
  have two: "maxPages (WebsiteCrawler ?o) = real 2"
    by (simp add: WebsiteCrawler_def or_default_def)
  note len = props [THEN conjunct2, THEN conjunct1, rule_format, OF two]
  note dist = props [THEN conjunct2, THEN conjunct2, THEN conjunct1]
  from vis len dist show ?thesis
    unfolding ret by simp
qed

text \<open>
  Claim C1, as stated, fails: the budget is any JavaScript number. With \<open>maxPages = 2.5\<close>
  the loop opens a third page, since 2 is below 2.5, and the result has three visited URLs.
\<close>

theorem crawlWebsite_budgets_counterexample:
  "map_sum id r_visitedUrls
     (crawlWebsite example_browser
        (WebsiteCrawler \<lparr>opt_maxPages = Some (5 / 2), opt_maxDepth = Some 1\<rparr>) ''https://x.com/'')
     = Inr [''https://x.com/'', ''https://x.com/a'', ''https://x.com/b''] \<and>
   maxPages (WebsiteCrawler \<lparr>opt_maxPages = Some (5 / 2), opt_maxDepth = Some 1\<rparr>) = 5 / 2 \<and>
   \<not> real (length [''https://x.com/'', ''https://x.com/a'', ''https://x.com/b'']) \<le> 5 / 2"
  by code_simp

text \<open>
  Claim C7, as the code has it. When the browser works and the navigation of the seed page
  fails, \<open>crawlWebsite\<close> returns normally; the seed URL was marked visited before the
  navigation, so the result has \<open>totalPages = 1\<close>, the seed as its only visited URL, a page
  record with the error, and no API call. The seed page is opened when the budgets allow
  one page at depth 0, which the default budgets and every positive budget do.
\<close>

theorem crawlWebsite_seed_fails:
  assumes "launch_error b = None" and "browser_close_error b = None"
    and "open_page b 0 baseUrl = PageRun (NavFailed message) None"
    and "0 < maxPages (WebsiteCrawler options)" and "0 \<le> maxDepth (WebsiteCrawler options)"
  shows "crawlWebsite b (WebsiteCrawler options) baseUrl =
    Inr \<lparr>r_visitedUrls = [baseUrl],
         r_pageData = [(baseUrl, PageFailed message 0 None)],
         totalPages = 1,
         totalApiCalls = 0,
         r_apiCalls = [],
         maxDepthReached = Finite 0\<rparr>"
proof -
  let ?c = "WebsiteCrawler options"
  let ?c1 = "?c\<lparr>visitedUrls := [baseUrl], pageData := [(baseUrl, PageFailed message 0 None)]\<rparr>"
  have step: "crawl_loop b ?c [\<lparr>fe_url = baseUrl, fe_depth = 0, fe_parentUrl = None\<rparr>] =
      crawl_loop b ?c1 []"
    using assms(3,4,5)
    by (subst crawl_loop.simps) (simp add: WebsiteCrawler_def crawl_page_def set_add_def)
  have "crawl_loop b ?c1 [] = Inr ?c1"
    by (simp add: crawl_loop.simps)
  with step assms(1,2) show ?thesis
    by (simp add: crawlWebsite_def generateCrawlResults_def WebsiteCrawler_def math_max_def)
qed

lemma default_budgets_open_seed:
  "0 < maxPages (WebsiteCrawler \<lparr>opt_maxPages = None, opt_maxDepth = None\<rparr>) \<and>
   0 \<le> maxDepth (WebsiteCrawler \<lparr>opt_maxPages = None, opt_maxDepth = None\<rparr>) \<and>
   (0 < p \<and> 0 < d \<longrightarrow>
      0 < maxPages (WebsiteCrawler \<lparr>opt_maxPages = Some p, opt_maxDepth = Some d\<rparr>) \<and>
      0 \<le> maxDepth (WebsiteCrawler \<lparr>opt_maxPages = Some p, opt_maxDepth = Some d\<rparr>))"
  by (simp add: WebsiteCrawler_def or_default_def)

theorem crawlWebsite_seed_fails_witness:
  "crawlWebsite failing_browser (WebsiteCrawler \<lparr>opt_maxPages = Some 5, opt_maxDepth = None\<rparr>)
     ''https://x.com/'' =
    Inr \<lparr>r_visitedUrls = [''https://x.com/''],
         r_pageData = [(''https://x.com/'', PageFailed ''net::ERR_NAME_NOT_RESOLVED'' 0 None)],
         totalPages = 1,
         totalApiCalls = 0,
         r_apiCalls = [],
         maxDepthReached = Finite 0\<rparr>"
  using crawlWebsite_seed_fails [of failing_browser "''https://x.com/''"
      "''net::ERR_NAME_NOT_RESOLVED''" "\<lparr>opt_maxPages = Some 5, opt_maxDepth = None\<rparr>"]
  by (simp add: failing_browser_def WebsiteCrawler_def or_default_def)

text \<open>
  Claim C7, as stated, fails: with every navigation failing, the result of the crawl has
  \<open>totalPages = 1\<close>, not 0.
\<close>

theorem crawlWebsite_total_failure_counterexample:
  "map_sum id totalPages
     (crawlWebsite failing_browser (WebsiteCrawler \<lparr>opt_maxPages = None, opt_maxDepth = None\<rparr>)
        ''https://x.com/'') = Inr 1"
  by code_simp

section \<open>Properties of the response handler\<close>

lemma find_and_assign_none:
  "\<forall>x \<in> set xs. \<not> P x \<Longrightarrow> find_and_assign P f xs = xs"
  by (induction xs) simp_all

lemma find_and_assign_first:
  "i < length xs \<Longrightarrow> P (xs ! i) \<Longrightarrow> \<forall>j < i. \<not> P (xs ! j) \<Longrightarrow>
     find_and_assign P f xs = xs[i := f (xs ! i)]"
proof (induction xs arbitrary: i)
  case Nil
  then show ?case by simp
next
  case (Cons x xs)
  show ?case
  proof (cases i)
    case 0
    with Cons.prems show ?thesis by simp
  next
    case (Suc k)
    with Cons.prems have "\<not> P x" by auto
    moreover from Suc Cons.prems have "find_and_assign P f xs = xs[k := f (xs ! k)]"
      by (intro Cons.IH) auto
    ultimately show ?thesis using Suc by simp
  qed
qed

text \<open>
  Claim C2, as the code has it. A response classified as an API call is matched against
  the first record, in request order, with the same URL and method, whether or not that
  record already has a response; the handler fills \<open>endTime\<close>, \<open>status\<close> and
  \<open>responseHeaders\<close> (and \<open>duration\<close>, \<open>statusText\<close>, \<open>responseSize\<close>) of that record and
  changes no other record. With no such record, or for a response that is not classified
  as an API call, nothing changes.
\<close>

theorem on_response_first_match:
  "(\<not> isApiRequest (rs_url r) (rs_resourceType r) \<longrightarrow> on_response calls r = calls) \<and>
   ((\<forall>c \<in> set calls. \<not> same_request r c) \<longrightarrow> on_response calls r = calls) \<and>
   (isApiRequest (rs_url r) (rs_resourceType r) \<and> i < length calls \<and>
      same_request r (calls ! i) \<and> (\<forall>j < i. \<not> same_request r (calls ! j)) \<longrightarrow>
        on_response calls r = calls[i := fill_response r (calls ! i)] \<and>
        ac_endTime (on_response calls r ! i) = Some (rs_now r) \<and>
        ac_status (on_response calls r ! i) = Some (rs_status r) \<and>
        ac_responseHeaders (on_response calls r ! i) = Some (rs_headers r))"
proof (intro conjI impI)
  assume "\<not> isApiRequest (rs_url r) (rs_resourceType r)"
  then show "on_response calls r = calls"
    by (simp add: on_response_def)
next
  assume "\<forall>c \<in> set calls. \<not> same_request r c"
  then show "on_response calls r = calls"
    by (simp add: on_response_def find_and_assign_none)
next
  assume a: "isApiRequest (rs_url r) (rs_resourceType r) \<and> i < length calls \<and>
      same_request r (calls ! i) \<and> (\<forall>j < i. \<not> same_request r (calls ! j))"
  then have eq: "on_response calls r = calls[i := fill_response r (calls ! i)]"
    by (simp add: on_response_def find_and_assign_first)
  then show "on_response calls r = calls[i := fill_response r (calls ! i)]" .
  from a eq show "ac_endTime (on_response calls r ! i) = Some (rs_now r)"
    by (simp add: fill_response_def)
  from a eq show "ac_status (on_response calls r ! i) = Some (rs_status r)"
    by (simp add: fill_response_def)
  from a eq show "ac_responseHeaders (on_response calls r ! i) = Some (rs_headers r)"
    by (simp add: fill_response_def)
qed

theorem on_response_first_match_witness:
  "map ac_status
     (on_response
        (handle_events ''https://x.com/'' 0
           [Request (orders_request 1000 ''r1''), Request (orders_request 1001 ''r2'')])
        (orders_response 1200 200)) = [Some 200, None] \<and>
   ac_endTime
     (on_response
        (handle_events ''https://x.com/'' 0
           [Request (orders_request 1000 ''r1''), Request (orders_request 1001 ''r2'')])
        (orders_response 1200 200) ! 0) = Some 1200"
proof -
  let ?calls = "handle_events ''https://x.com/'' 0
           [Request (orders_request 1000 ''r1''), Request (orders_request 1001 ''r2'')]"
  let ?r = "orders_response 1200 200"
  have api: "isApiRequest (rs_url ?r) (rs_resourceType ?r)"
    by code_simp
  have len: "0 < length ?calls"
    by code_simp
  have same: "same_request ?r (?calls ! 0)"
    by code_simp
  have st: "map ac_status (on_response ?calls ?r) = [Some 200, None]"
    by code_simp
  have now: "rs_now ?r = 1200"
    by (simp add: orders_response_def)
  from api len same
  have first: "isApiRequest (rs_url ?r) (rs_resourceType ?r) \<and> 0 < length ?calls \<and>
      same_request ?r (?calls ! 0) \<and> (\<forall>j < 0. \<not> same_request ?r (?calls ! j))"
    by simp
  note filled = on_response_first_match [of ?r ?calls 0, THEN conjunct2, THEN conjunct2,
      THEN mp, OF first]
  from filled have "ac_endTime (on_response ?calls ?r ! 0) = Some (rs_now ?r)"
    by (elim conjE)
  with now have "ac_endTime (on_response ?calls ?r ! 0) = Some 1200"
    by (simp only:)
  with st show ?thesis
    by (intro conjI)
qed

text \<open>
  Claim C2, as stated, fails. Two requests to the same URL and method are in flight. The
  first response resolves the first record; the second response (status 500) resolves the
  first record again, replacing its status 200, and the second record stays without a
  response. Under the rule of the specification the two records would have the statuses
  500 and 200.
\<close>

theorem on_response_counterexample:
  "map ac_status (handle_events ''https://x.com/'' 0
      [Request (orders_request 1000 ''r1''), Request (orders_request 1001 ''r2''),
       Response (orders_response 1200 200)]) = [Some 200, None] \<and>
   map ac_status (handle_events ''https://x.com/'' 0
      [Request (orders_request 1000 ''r1''), Request (orders_request 1001 ''r2''),
       Response (orders_response 1200 200), Response (orders_response 1300 500)])
     = [Some 500, None] \<and>
   map ac_status (foldl most_recent_unresolved_rule
      (handle_events ''https://x.com/'' 0
         [Request (orders_request 1000 ''r1''), Request (orders_request 1001 ''r2'')])
      [orders_response 1200 200, orders_response 1300 500]) = [Some 500, Some 200]"
  by code_simp

section \<open>Properties of the alert engine\<close>

lemma check_fcp_shape:
  "subseq (map a_metric (check_fcp ds)) [''First Contentful Paint (FCP)''] \<and>
   list_all (\<lambda>a. a_category a = ''Core Web Vitals'' \<and>
     (a_type a = ''critical'' \<or> a_type a = ''warning'')) (check_fcp ds)"
  by (simp add: check_fcp_def split: option.splits)

lemma check_lcp_shape:
  "subseq (map a_metric (check_lcp ds)) [''Largest Contentful Paint (LCP)''] \<and>
   list_all (\<lambda>a. a_category a = ''Core Web Vitals'' \<and>
     (a_type a = ''critical'' \<or> a_type a = ''warning'')) (check_lcp ds)"
  by (simp add: check_lcp_def split: option.splits)

lemma check_cls_shape:
  "subseq (map a_metric (check_cls ds)) [''Cumulative Layout Shift (CLS)''] \<and>
   list_all (\<lambda>a. a_category a = ''Core Web Vitals'' \<and>
     (a_type a = ''critical'' \<or> a_type a = ''warning'')) (check_cls ds)"
  by (simp add: check_cls_def split: option.splits)

lemma check_tti_shape:
  "subseq (map a_metric (check_tti ds)) [''Time to Interactive (TTI)''] \<and>
   list_all (\<lambda>a. a_category a = ''Performance'' \<and>
     (a_type a = ''critical'' \<or> a_type a = ''warning'')) (check_tti ds)"
  by (simp add: check_tti_def split: option.splits)

lemma check_tbt_shape:
  "subseq (map a_metric (check_tbt ds)) [''Total Blocking Time (TBT)''] \<and>
   list_all (\<lambda>a. a_category a = ''Performance'' \<and>
     (a_type a = ''critical'' \<or> a_type a = ''warning'')) (check_tbt ds)"
  by (simp add: check_tbt_def split: option.splits)

lemma check_si_shape:
  "subseq (map a_metric (check_si ds)) [''Speed Index (SI)''] \<and>
   list_all (\<lambda>a. a_category a = ''Performance'' \<and>
     (a_type a = ''critical'' \<or> a_type a = ''warning'')) (check_si ds)"
  by (simp add: check_si_def split: option.splits)

lemma check_performance_shape:
  "subseq (map a_metric (check_performance l)) [''Performance Score''] \<and>
   list_all (\<lambda>a. a_category a = ''Overall'' \<and>
     (a_type a = ''critical'' \<or> a_type a = ''warning'')) (check_performance l)"
  by (simp add: check_performance_def split: option.splits)

lemma check_accessibility_shape:
  "subseq (map a_metric (check_accessibility l)) [''Accessibility Score''] \<and>
   list_all (\<lambda>a. a_category a = ''Accessibility'' \<and>
     (a_type a = ''critical'' \<or> a_type a = ''warning'')) (check_accessibility l)"
  by (simp add: check_accessibility_def split: option.splits)

lemma check_slow_api_shape:
  "subseq (map a_metric (check_slow_api calls)) [''Slow API Calls''] \<and>
   list_all (\<lambda>a. a_category a = ''API Performance'' \<and>
     (a_type a = ''critical'' \<or> a_type a = ''warning'')) (check_slow_api calls)"
  by (simp add: check_slow_api_def Let_def)

lemma check_error_rate_shape:
  "subseq (map a_metric (check_error_rate calls)) [''API Error Rate''] \<and>
   list_all (\<lambda>a. a_category a = ''API Reliability'' \<and>
     (a_type a = ''critical'' \<or> a_type a = ''warning'')) (check_error_rate calls)"
  by (simp add: check_error_rate_def Let_def)

lemma check_payload_shape:
  "subseq (map a_metric (check_payload calls)) [''Large API Payloads''] \<and>
   list_all (\<lambda>a. a_category a = ''API Efficiency'' \<and>
     (a_type a = ''critical'' \<or> a_type a = ''warning'')) (check_payload calls)"
  by (simp add: check_payload_def Let_def)

lemmas check_shapes = check_fcp_shape check_lcp_shape check_cls_shape check_tti_shape
  check_tbt_shape check_si_shape check_performance_shape check_accessibility_shape
  check_slow_api_shape check_error_rate_shape check_payload_shape

lemma subseq_singletons:
  "subseq xs [x] \<Longrightarrow> subseq ys zs \<Longrightarrow> subseq (xs @ ys) (x # zs)"
  using list_emb_append_mono [of "(=)" xs "[x]" ys zs] by simp

lemma lighthouse_alerts_metrics:
  "subseq (map a_metric (lighthouse_alerts lh)) lighthouse_metrics"
proof (cases lh)
  case None
  then show ?thesis by (simp add: lighthouse_alerts_def)
next
  case (Some l)
  have "subseq (map a_metric (check_accessibility l)) [''Accessibility Score'']"
    by (simp add: check_shapes)
  then have "subseq (map a_metric (check_performance l) @ map a_metric (check_accessibility l))
      [''Performance Score'', ''Accessibility Score'']"
    by (intro subseq_singletons) (simp_all add: check_shapes)
  then have "subseq (map a_metric (check_si (details l)) @
      map a_metric (check_performance l) @ map a_metric (check_accessibility l))
      [''Speed Index (SI)'', ''Performance Score'', ''Accessibility Score'']"
    by (intro subseq_singletons) (simp_all add: check_shapes)
  then have "subseq (map a_metric (check_tbt (details l)) @ map a_metric (check_si (details l)) @
      map a_metric (check_performance l) @ map a_metric (check_accessibility l))
      [''Total Blocking Time (TBT)'', ''Speed Index (SI)'', ''Performance Score'',
       ''Accessibility Score'']"
    by (intro subseq_singletons) (simp_all add: check_shapes)
  then have "subseq (map a_metric (check_tti (details l)) @
      map a_metric (check_tbt (details l)) @ map a_metric (check_si (details l)) @
      map a_metric (check_performance l) @ map a_metric (check_accessibility l))
      [''Time to Interactive (TTI)'', ''Total Blocking Time (TBT)'', ''Speed Index (SI)'',
       ''Performance Score'', ''Accessibility Score'']"
    by (intro subseq_singletons) (simp_all add: check_shapes)
  then have "subseq (map a_metric (check_cls (details l)) @ map a_metric (check_tti (details l)) @
      map a_metric (check_tbt (details l)) @ map a_metric (check_si (details l)) @
      map a_metric (check_performance l) @ map a_metric (check_accessibility l))
      [''Cumulative Layout Shift (CLS)'', ''Time to Interactive (TTI)'',
       ''Total Blocking Time (TBT)'', ''Speed Index (SI)'',
       ''Performance Score'', ''Accessibility Score'']"
    by (intro subseq_singletons) (simp_all add: check_shapes)
  then have "subseq (map a_metric (check_lcp (details l)) @
      map a_metric (check_cls (details l)) @ map a_metric (check_tti (details l)) @
      map a_metric (check_tbt (details l)) @ map a_metric (check_si (details l)) @
      map a_metric (check_performance l) @ map a_metric (check_accessibility l))
      [''Largest Contentful Paint (LCP)'', ''Cumulative Layout Shift (CLS)'',
       ''Time to Interactive (TTI)'', ''Total Blocking Time (TBT)'', ''Speed Index (SI)'',
       ''Performance Score'', ''Accessibility Score'']"
    by (intro subseq_singletons) (simp_all add: check_shapes)
  then have "subseq (map a_metric (check_fcp (details l)) @ map a_metric (check_lcp (details l)) @
      map a_metric (check_cls (details l)) @ map a_metric (check_tti (details l)) @
      map a_metric (check_tbt (details l)) @ map a_metric (check_si (details l)) @
      map a_metric (check_performance l) @ map a_metric (check_accessibility l))
      [''First Contentful Paint (FCP)'', ''Largest Contentful Paint (LCP)'',
       ''Cumulative Layout Shift (CLS)'', ''Time to Interactive (TTI)'',
       ''Total Blocking Time (TBT)'', ''Speed Index (SI)'',
       ''Performance Score'', ''Accessibility Score'']"
    by (intro subseq_singletons) (simp_all add: check_shapes)
  with Some show ?thesis
    by (simp add: lighthouse_alerts_def lighthouse_metrics_def)
qed

lemma api_checks_metrics:
  "subseq (map a_metric (check_slow_api calls @ check_error_rate calls @ check_payload calls))
     api_metrics"
proof -
  have "subseq (map a_metric (check_payload calls)) [''Large API Payloads'']"
    by (simp add: check_shapes)
  then have "subseq (map a_metric (check_error_rate calls) @ map a_metric (check_payload calls))
      [''API Error Rate'', ''Large API Payloads'']"
    by (intro subseq_singletons) (simp_all add: check_shapes)
  then have "subseq (map a_metric (check_slow_api calls) @
      map a_metric (check_error_rate calls) @ map a_metric (check_payload calls))
      [''Slow API Calls'', ''API Error Rate'', ''Large API Payloads'']"
    by (intro subseq_singletons) (simp_all add: check_shapes)
  then show ?thesis by (simp add: api_metrics_def)
qed

lemma api_alerts_metrics: "subseq (map a_metric (api_alerts api)) api_metrics"
proof -
  have "subseq [] api_metrics" by simp
  with api_checks_metrics show ?thesis
    by (simp add: api_alerts_def split: option.splits)
qed

lemma alerts_metrics:
  "subseq (map a_metric (generatePerformanceAlerts lh api)) alert_metrics"
  using list_emb_append_mono [OF lighthouse_alerts_metrics api_alerts_metrics]
  by (simp add: generatePerformanceAlerts_def alert_metrics_def)

lemma distinct_alert_metrics: "distinct alert_metrics"
  by (simp add: alert_metrics_def lighthouse_metrics_def api_metrics_def)

lemma distinct_map_filter_le_1:
  "distinct (map f xs) \<Longrightarrow> length (filter (\<lambda>x. f x = m) xs) \<le> 1"
proof (induction xs)
  case Nil
  then show ?case by simp
next
  case (Cons x xs)
  show ?case
  proof (cases "f x = m")
    case True
    with Cons.prems have "\<forall>y \<in> set xs. f y \<noteq> m" by (auto simp: image_iff)
    then have "filter (\<lambda>x. f x = m) xs = []" by (simp add: filter_empty_conv)
    with True show ?thesis by simp
  next
    case False
    with Cons show ?thesis by simp
  qed
qed

lemma subseq_keeps_distinct:
  assumes "subseq xs ys" and "distinct ys"
  shows "distinct xs"
proof -
  from assms(1) obtain N where "xs = nths ys N"
    by (auto simp: subseq_conv_nths)
  with assms(2) show ?thesis
    by (simp add: distinct_nthsI)
qed

lemma alerts_one_per_metric_aux:
  "length (filter (\<lambda>a. a_metric a = m) (generatePerformanceAlerts lh api)) \<le> 1"
proof -
  have "distinct (map a_metric (generatePerformanceAlerts lh api))"
    using alerts_metrics distinct_alert_metrics by (rule subseq_keeps_distinct)
  then show ?thesis by (rule distinct_map_filter_le_1)
qed

lemma filter_none: "list_all (\<lambda>a. \<not> P a) xs \<Longrightarrow> filter P xs = []"
  by (simp add: filter_empty_conv list_all_iff)

lemma filter_all: "list_all P xs \<Longrightarrow> filter P xs = xs"
  by (simp add: list_all_iff)

lemma lighthouse_alerts_not_reliability:
  "filter (\<lambda>a. a_category a = ''API Reliability'') (lighthouse_alerts lh) = []"
proof (cases lh)
  case None
  then show ?thesis by (simp add: lighthouse_alerts_def)
next
  case (Some l)
  have "filter (\<lambda>a. a_category a = ''API Reliability'') (check_fcp (details l)) = []"
    using check_fcp_shape [of "details l"] by (intro filter_none) (auto simp: list_all_iff)
  moreover have "filter (\<lambda>a. a_category a = ''API Reliability'') (check_lcp (details l)) = []"
    using check_lcp_shape [of "details l"] by (intro filter_none) (auto simp: list_all_iff)
  moreover have "filter (\<lambda>a. a_category a = ''API Reliability'') (check_cls (details l)) = []"
    using check_cls_shape [of "details l"] by (intro filter_none) (auto simp: list_all_iff)
  moreover have "filter (\<lambda>a. a_category a = ''API Reliability'') (check_tti (details l)) = []"
    using check_tti_shape [of "details l"] by (intro filter_none) (auto simp: list_all_iff)
  moreover have "filter (\<lambda>a. a_category a = ''API Reliability'') (check_tbt (details l)) = []"
    using check_tbt_shape [of "details l"] by (intro filter_none) (auto simp: list_all_iff)
  moreover have "filter (\<lambda>a. a_category a = ''API Reliability'') (check_si (details l)) = []"
    using check_si_shape [of "details l"] by (intro filter_none) (auto simp: list_all_iff)
  moreover have "filter (\<lambda>a. a_category a = ''API Reliability'') (check_performance l) = []"
    using check_performance_shape [of l] by (intro filter_none) (auto simp: list_all_iff)
  moreover have "filter (\<lambda>a. a_category a = ''API Reliability'') (check_accessibility l) = []"
    using check_accessibility_shape [of l] by (intro filter_none) (auto simp: list_all_iff)
  ultimately show ?thesis using Some
    by (simp add: lighthouse_alerts_def)
qed

lemma reliability_alerts:
  assumes "calls \<noteq> []"
  shows "filter (\<lambda>a. a_category a = ''API Reliability'')
      (generatePerformanceAlerts lh (Some \<lparr>ar_apiCalls = Some calls\<rparr>)) = check_error_rate calls"
proof -
  have "filter (\<lambda>a. a_category a = ''API Reliability'') (check_slow_api calls) = []"
    using check_slow_api_shape [of calls] by (intro filter_none) (auto simp: list_all_iff)
  moreover have "filter (\<lambda>a. a_category a = ''API Reliability'') (check_payload calls) = []"
    using check_payload_shape [of calls] by (intro filter_none) (auto simp: list_all_iff)
  moreover have "filter (\<lambda>a. a_category a = ''API Reliability'') (check_error_rate calls) =
      check_error_rate calls"
    using check_error_rate_shape [of calls] by (intro filter_all) (auto simp: list_all_iff)
  ultimately show ?thesis using assms
    by (simp add: generatePerformanceAlerts_def api_alerts_def lighthouse_alerts_not_reliability)
qed

lemma check_error_rate_3_of_40:
  assumes "length calls = 40" and "length (filter is_error_call calls) = 3"
  shows "\<exists>a. check_error_rate calls = [a] \<and> a_type a = ''warning'' \<and>
    a_threshold a = ''5.0%'' \<and> a_value a = ''7.5%''"
proof -
  have f: "filter (\<lambda>call. status_at_least_400 (status call)) calls = filter is_error_call calls"
    by (simp add: is_error_call_def [abs_def])
  show ?thesis
    unfolding check_error_rate_def Let_def f assms apiThresholds_def
    by (simp add: js_eval)
qed

lemma check_error_rate_5_of_40:
  assumes "length calls = 40" and "length (filter is_error_call calls) = 5"
  shows "\<exists>a. check_error_rate calls = [a] \<and> a_type a = ''critical'' \<and>
    a_threshold a = ''10.0%'' \<and> a_value a = ''12.5%''"
proof -
  have f: "filter (\<lambda>call. status_at_least_400 (status call)) calls = filter is_error_call calls"
    by (simp add: is_error_call_def [abs_def])
  show ?thesis
    unfolding check_error_rate_def Let_def f assms apiThresholds_def
    by (simp add: js_eval)
qed

lemma alerts_types:
  "list_all (\<lambda>a. a_type a = ''critical'' \<or> a_type a = ''warning'')
     (generatePerformanceAlerts lh api)"
proof -
  have l: "list_all (\<lambda>a. a_type a = ''critical'' \<or> a_type a = ''warning'') (lighthouse_alerts lh)"
  proof (cases lh)
    case None
    then show ?thesis by (simp add: lighthouse_alerts_def)
  next
    case (Some l)
    then show ?thesis
      using check_fcp_shape [of "details l"] check_lcp_shape [of "details l"]
        check_cls_shape [of "details l"] check_tti_shape [of "details l"]
        check_tbt_shape [of "details l"] check_si_shape [of "details l"]
        check_performance_shape [of l] check_accessibility_shape [of l]
      by (auto simp: lighthouse_alerts_def list_all_iff)
  qed
  have c: "list_all (\<lambda>a. a_type a = ''critical'' \<or> a_type a = ''warning'')
      (check_slow_api calls @ check_error_rate calls @ check_payload calls)" for calls
    using check_slow_api_shape [of calls] check_error_rate_shape [of calls]
      check_payload_shape [of calls]
    by (auto simp: list_all_iff)
  have a: "list_all (\<lambda>a. a_type a = ''critical'' \<or> a_type a = ''warning'') (api_alerts api)"
    using c by (simp add: api_alerts_def split: option.splits)
  from l a show ?thesis
    by (simp add: generatePerformanceAlerts_def)
qed

lemma alert_types_append:
  "alert_types m (xs @ ys) = alert_types m xs @ alert_types m ys"
  by (simp add: alert_types_def)

lemma alert_types_Nil: "alert_types m [] = []"
  by (simp add: alert_types_def)

lemma alert_types_single:
  assumes "subseq (map a_metric xs) [n]"
  shows "alert_types m xs = (if m = n then map a_type xs else [])"
proof -
  have all: "\<forall>a \<in> set xs. a_metric a = n"
    using list_emb_set [OF assms] by auto
  show ?thesis
  proof (cases "m = n")
    case True
    with all have "filter (\<lambda>a. a_metric a = m) xs = xs"
      by (intro filter_True) simp
    with True show ?thesis by (simp add: alert_types_def)
  next
    case False
    with all have "filter (\<lambda>a. a_metric a = m) xs = []"
      by (simp add: filter_empty_conv)
    with False show ?thesis by (simp add: alert_types_def)
  qed
qed

lemma check_fcp_types:
  "alert_types m (check_fcp ds) =
     (if m = ''First Contentful Paint (FCP)''
      then (case ds of None \<Rightarrow> [] | Some d \<Rightarrow>
             (case fcpRaw d of None \<Rightarrow> []
              | Some x \<Rightarrow> critical_first (3000 \<le> x) (2000 \<le> x)))
      else [])"
proof -
  have "map a_type (check_fcp ds) =
      (case ds of None \<Rightarrow> [] | Some d \<Rightarrow>
         (case fcpRaw d of None \<Rightarrow> []
          | Some x \<Rightarrow> critical_first (3000 \<le> x) (2000 \<le> x)))"
    by (simp add: check_fcp_def critical_first_def thresholds_def split: option.splits)
  with check_fcp_shape [of ds, THEN conjunct1, THEN alert_types_single, of m]
  show ?thesis by simp
qed

lemma check_lcp_types:
  "alert_types m (check_lcp ds) =
     (if m = ''Largest Contentful Paint (LCP)''
      then (case ds of None \<Rightarrow> [] | Some d \<Rightarrow>
             (case lcpRaw d of None \<Rightarrow> []
              | Some x \<Rightarrow> critical_first (4000 \<le> x) (2500 \<le> x)))
      else [])"
proof -
  have "map a_type (check_lcp ds) =
      (case ds of None \<Rightarrow> [] | Some d \<Rightarrow>
         (case lcpRaw d of None \<Rightarrow> []
          | Some x \<Rightarrow> critical_first (4000 \<le> x) (2500 \<le> x)))"
    by (simp add: check_lcp_def critical_first_def thresholds_def split: option.splits)
  with check_lcp_shape [of ds, THEN conjunct1, THEN alert_types_single, of m]
  show ?thesis by simp
qed

lemma check_cls_types:
  "alert_types m (check_cls ds) =
     (if m = ''Cumulative Layout Shift (CLS)''
      then (case ds of None \<Rightarrow> [] | Some d \<Rightarrow>
             (case clsRaw d of None \<Rightarrow> []
              | Some x \<Rightarrow> critical_first (25 / 100 \<le> x) (1 / 10 \<le> x)))
      else [])"
proof -
  have "map a_type (check_cls ds) =
      (case ds of None \<Rightarrow> [] | Some d \<Rightarrow>
         (case clsRaw d of None \<Rightarrow> []
          | Some x \<Rightarrow> critical_first (25 / 100 \<le> x) (1 / 10 \<le> x)))"
    by (simp add: check_cls_def critical_first_def thresholds_def split: option.splits)
  with check_cls_shape [of ds, THEN conjunct1, THEN alert_types_single, of m]
  show ?thesis by simp
qed

lemma check_tti_types:
  "alert_types m (check_tti ds) =
     (if m = ''Time to Interactive (TTI)''
      then (case ds of None \<Rightarrow> [] | Some d \<Rightarrow>
             (case ttiRaw d of None \<Rightarrow> []
              | Some x \<Rightarrow> critical_first (7300 \<le> x) (3800 \<le> x)))
      else [])"
proof -
  have "map a_type (check_tti ds) =
      (case ds of None \<Rightarrow> [] | Some d \<Rightarrow>
         (case ttiRaw d of None \<Rightarrow> []
          | Some x \<Rightarrow> critical_first (7300 \<le> x) (3800 \<le> x)))"
    by (simp add: check_tti_def critical_first_def thresholds_def split: option.splits)
  with check_tti_shape [of ds, THEN conjunct1, THEN alert_types_single, of m]
  show ?thesis by simp
qed

lemma check_tbt_types:
  "alert_types m (check_tbt ds) =
     (if m = ''Total Blocking Time (TBT)''
      then (case ds of None \<Rightarrow> [] | Some d \<Rightarrow>
             (case tbtRaw d of None \<Rightarrow> []
              | Some x \<Rightarrow> critical_first (600 \<le> x) (300 \<le> x)))
      else [])"
proof -
  have "map a_type (check_tbt ds) =
      (case ds of None \<Rightarrow> [] | Some d \<Rightarrow>
         (case tbtRaw d of None \<Rightarrow> []
          | Some x \<Rightarrow> critical_first (600 \<le> x) (300 \<le> x)))"
    by (simp add: check_tbt_def critical_first_def thresholds_def split: option.splits)
  with check_tbt_shape [of ds, THEN conjunct1, THEN alert_types_single, of m]
  show ?thesis by simp
qed

lemma check_si_types:
  "alert_types m (check_si ds) =
     (if m = ''Speed Index (SI)''
      then (case ds of None \<Rightarrow> [] | Some d \<Rightarrow>
             (case siRaw d of None \<Rightarrow> []
              | Some x \<Rightarrow> critical_first (5800 \<le> x) (3400 \<le> x)))
      else [])"
proof -
  have "map a_type (check_si ds) =
      (case ds of None \<Rightarrow> [] | Some d \<Rightarrow>
         (case siRaw d of None \<Rightarrow> []
          | Some x \<Rightarrow> critical_first (5800 \<le> x) (3400 \<le> x)))"
    by (simp add: check_si_def critical_first_def thresholds_def split: option.splits)
  with check_si_shape [of ds, THEN conjunct1, THEN alert_types_single, of m]
  show ?thesis by simp
qed

lemma check_performance_types:
  "alert_types m (check_performance l) =
     (if m = ''Performance Score''
      then (case performance l of None \<Rightarrow> []
            | Some x \<Rightarrow> critical_first (x \<le> 5 / 10) (x \<le> 7 / 10))
      else [])"
proof -
  have "map a_type (check_performance l) =
      (case performance l of None \<Rightarrow> []
       | Some x \<Rightarrow> critical_first (x \<le> 5 / 10) (x \<le> 7 / 10))"
    by (simp add: check_performance_def critical_first_def thresholds_def split: option.splits)
  with check_performance_shape [of l, THEN conjunct1, THEN alert_types_single, of m]
  show ?thesis by simp
qed

lemma check_accessibility_types:
  "alert_types m (check_accessibility l) =
     (if m = ''Accessibility Score''
      then (case accessibility l of None \<Rightarrow> []
            | Some x \<Rightarrow> critical_first (x \<le> 5 / 10) (x \<le> 7 / 10))
      else [])"
proof -
  have "map a_type (check_accessibility l) =
      (case accessibility l of None \<Rightarrow> []
       | Some x \<Rightarrow> critical_first (x \<le> 5 / 10) (x \<le> 7 / 10))"
    by (simp add: check_accessibility_def critical_first_def thresholds_def split: option.splits)
  with check_accessibility_shape [of l, THEN conjunct1, THEN alert_types_single, of m]
  show ?thesis by simp
qed

lemma filter_nonempty_list_ex: "filter P xs \<noteq> [] \<longleftrightarrow> list_ex P xs"
  by (simp add: filter_empty_conv list_ex_iff)

lemma check_slow_api_types:
  "alert_types m (check_slow_api calls) =
     (if m = ''Slow API Calls''
      then critical_first (list_ex (\<lambda>c. 1000 \<le> real_of_int (timeTaken c)) calls)
             (list_ex (\<lambda>c. 500 \<le> real_of_int (timeTaken c)) calls)
      else [])"
proof -
  have w: "list_ex (\<lambda>c. 500 \<le> real_of_int (timeTaken c) \<and> real_of_int (timeTaken c) < 1000) calls
      \<longleftrightarrow> list_ex (\<lambda>c. 500 \<le> real_of_int (timeTaken c)) calls"
    if "\<not> list_ex (\<lambda>c. 1000 \<le> real_of_int (timeTaken c)) calls"
    using that by (auto simp: list_ex_iff not_le)
  have "map a_type (check_slow_api calls) =
      critical_first (list_ex (\<lambda>c. 1000 \<le> real_of_int (timeTaken c)) calls)
        (list_ex (\<lambda>c. 500 \<le> real_of_int (timeTaken c)) calls)"
    unfolding check_slow_api_def Let_def apiThresholds_def critical_first_def
    using w by (simp add: filter_nonempty_list_ex)
  with check_slow_api_shape [of calls, THEN conjunct1, THEN alert_types_single, of m]
  show ?thesis by simp
qed

lemma check_payload_types:
  "alert_types m (check_payload calls) =
     (if m = ''Large API Payloads''
      then critical_first (list_ex (\<lambda>c. 5 * 1024 * 1024 \<le> raw_transferSize c) calls)
             (list_ex (\<lambda>c. 1024 * 1024 \<le> raw_transferSize c) calls)
      else [])"
proof -
  have w: "list_ex (\<lambda>c. payload_warning \<le> raw_transferSize c \<and>
        raw_transferSize c < payload_critical) calls
      \<longleftrightarrow> list_ex (\<lambda>c. payload_warning \<le> raw_transferSize c) calls"
    if "\<not> list_ex (\<lambda>c. payload_critical \<le> raw_transferSize c) calls"
    using that by (auto simp: list_ex_iff not_le)
  have "map a_type (check_payload calls) =
      critical_first (list_ex (\<lambda>c. payload_critical \<le> raw_transferSize c) calls)
        (list_ex (\<lambda>c. payload_warning \<le> raw_transferSize c) calls)"
    unfolding check_payload_def Let_def critical_first_def
    using w by (simp add: filter_nonempty_list_ex)
  with check_payload_shape [of calls, THEN conjunct1, THEN alert_types_single, of m]
  show ?thesis by (simp add: payload_critical_def payload_warning_def)
qed

lemma check_error_rate_types:
  "alert_types m (check_error_rate calls) =
     (if m = ''API Error Rate''
      then critical_first
             (1 / 10 \<le> real (length (filter is_error_call calls)) / real (length calls))
             (5 / 100 \<le> real (length (filter is_error_call calls)) / real (length calls))
      else [])"
proof -
  have f: "filter (\<lambda>call. status_at_least_400 (status call)) calls = filter is_error_call calls"
    by (simp add: is_error_call_def [abs_def])
  have "map a_type (check_error_rate calls) =
      critical_first
        (1 / 10 \<le> real (length (filter is_error_call calls)) / real (length calls))
        (5 / 100 \<le> real (length (filter is_error_call calls)) / real (length calls))"
    unfolding check_error_rate_def Let_def f
    by (simp add: critical_first_def apiThresholds_def)
  with check_error_rate_shape [of calls, THEN conjunct1, THEN alert_types_single, of m]
  show ?thesis by simp
qed

lemmas check_types = check_fcp_types check_lcp_types check_cls_types check_tti_types
  check_tbt_types check_si_types check_performance_types check_accessibility_types
  check_slow_api_types check_error_rate_types check_payload_types

lemma lighthouse_types:
  "alert_types m (lighthouse_alerts lh) =
     (case lh of None \<Rightarrow> []
      | Some l \<Rightarrow>
          alert_types m (check_fcp (details l)) @ alert_types m (check_lcp (details l)) @
          alert_types m (check_cls (details l)) @ alert_types m (check_tti (details l)) @
          alert_types m (check_tbt (details l)) @ alert_types m (check_si (details l)) @
          alert_types m (check_performance l) @ alert_types m (check_accessibility l))"
  by (simp add: lighthouse_alerts_def alert_types_append alert_types_Nil split: option.splits)

lemma api_types:
  "alert_types m (api_alerts api) =
     (case api of None \<Rightarrow> []
      | Some a \<Rightarrow>
          (case ar_apiCalls a of None \<Rightarrow> []
           | Some calls \<Rightarrow>
               if calls = [] then []
               else alert_types m (check_slow_api calls) @
                    alert_types m (check_error_rate calls) @
                    alert_types m (check_payload calls)))"
  by (simp add: api_alerts_def alert_types_append alert_types_Nil split: option.splits)

lemma generate_types:
  "alert_types m (generatePerformanceAlerts lh api) =
     alert_types m (lighthouse_alerts lh) @ alert_types m (api_alerts api)"
  by (simp add: generatePerformanceAlerts_def alert_types_append)

lemma api_no_lighthouse_metric:
  assumes "m \<in> set lighthouse_metrics"
  shows "alert_types m (api_alerts api) = []"
proof -
  from assms have "m \<noteq> ''Slow API Calls''" "m \<noteq> ''API Error Rate''"
    "m \<noteq> ''Large API Payloads''"
    by (auto simp: lighthouse_metrics_def)
  then show ?thesis
    by (simp add: api_types check_slow_api_types check_error_rate_types check_payload_types
        split: option.split)
qed

lemma lighthouse_no_api_metric:
  assumes "m \<in> set api_metrics"
  shows "alert_types m (lighthouse_alerts lh) = []"
proof -
  from assms have "m \<noteq> ''First Contentful Paint (FCP)''"
    "m \<noteq> ''Largest Contentful Paint (LCP)''" "m \<noteq> ''Cumulative Layout Shift (CLS)''"
    "m \<noteq> ''Time to Interactive (TTI)''" "m \<noteq> ''Total Blocking Time (TBT)''"
    "m \<noteq> ''Speed Index (SI)''" "m \<noteq> ''Performance Score''" "m \<noteq> ''Accessibility Score''"
    by (auto simp: api_metrics_def)
  then show ?thesis
    by (simp add: lighthouse_types check_fcp_types check_lcp_types check_cls_types
        check_tti_types check_tbt_types check_si_types check_performance_types
        check_accessibility_types split: option.split)
qed

lemma fcp_types:
  "alert_types ''First Contentful Paint (FCP)'' (generatePerformanceAlerts lh api) =
     (case Option.bind lh (\<lambda>l. Option.bind (details l) fcpRaw) of
        None \<Rightarrow> []
      | Some x \<Rightarrow> critical_first (3000 \<le> x) (2000 \<le> x))"
  by (cases lh)
    (simp_all add: generate_types api_no_lighthouse_metric lighthouse_metrics_def
      lighthouse_types check_fcp_types check_lcp_types check_cls_types check_tti_types
      check_tbt_types check_si_types check_performance_types check_accessibility_types
      split: option.split)

lemma lcp_types:
  "alert_types ''Largest Contentful Paint (LCP)'' (generatePerformanceAlerts lh api) =
     (case Option.bind lh (\<lambda>l. Option.bind (details l) lcpRaw) of
        None \<Rightarrow> []
      | Some x \<Rightarrow> critical_first (4000 \<le> x) (2500 \<le> x))"
  by (cases lh)
    (simp_all add: generate_types api_no_lighthouse_metric lighthouse_metrics_def
      lighthouse_types check_fcp_types check_lcp_types check_cls_types check_tti_types
      check_tbt_types check_si_types check_performance_types check_accessibility_types
      split: option.split)

lemma cls_types:
  "alert_types ''Cumulative Layout Shift (CLS)'' (generatePerformanceAlerts lh api) =
     (case Option.bind lh (\<lambda>l. Option.bind (details l) clsRaw) of
        None \<Rightarrow> []
      | Some x \<Rightarrow> critical_first (25 / 100 \<le> x) (1 / 10 \<le> x))"
  by (cases lh)
    (simp_all add: generate_types api_no_lighthouse_metric lighthouse_metrics_def
      lighthouse_types check_fcp_types check_lcp_types check_cls_types check_tti_types
      check_tbt_types check_si_types check_performance_types check_accessibility_types
      split: option.split)

lemma tti_types:
  "alert_types ''Time to Interactive (TTI)'' (generatePerformanceAlerts lh api) =
     (case Option.bind lh (\<lambda>l. Option.bind (details l) ttiRaw) of
        None \<Rightarrow> []
      | Some x \<Rightarrow> critical_first (7300 \<le> x) (3800 \<le> x))"
  by (cases lh)
    (simp_all add: generate_types api_no_lighthouse_metric lighthouse_metrics_def
      lighthouse_types check_fcp_types check_lcp_types check_cls_types check_tti_types
      check_tbt_types check_si_types check_performance_types check_accessibility_types
      split: option.split)

lemma tbt_types:
  "alert_types ''Total Blocking Time (TBT)'' (generatePerformanceAlerts lh api) =
     (case Option.bind lh (\<lambda>l. Option.bind (details l) tbtRaw) of
        None \<Rightarrow> []
      | Some x \<Rightarrow> critical_first (600 \<le> x) (300 \<le> x))"
  by (cases lh)
    (simp_all add: generate_types api_no_lighthouse_metric lighthouse_metrics_def
      lighthouse_types check_fcp_types check_lcp_types check_cls_types check_tti_types
      check_tbt_types check_si_types check_performance_types check_accessibility_types
      split: option.split)

lemma si_types:
  "alert_types ''Speed Index (SI)'' (generatePerformanceAlerts lh api) =
     (case Option.bind lh (\<lambda>l. Option.bind (details l) siRaw) of
        None \<Rightarrow> []
      | Some x \<Rightarrow> critical_first (5800 \<le> x) (3400 \<le> x))"
  by (cases lh)
    (simp_all add: generate_types api_no_lighthouse_metric lighthouse_metrics_def
      lighthouse_types check_fcp_types check_lcp_types check_cls_types check_tti_types
      check_tbt_types check_si_types check_performance_types check_accessibility_types
      split: option.split)

lemma performance_types:
  "alert_types ''Performance Score'' (generatePerformanceAlerts lh api) =
     (case Option.bind lh performance of
        None \<Rightarrow> []
      | Some x \<Rightarrow> critical_first (x \<le> 5 / 10) (x \<le> 7 / 10))"
  by (cases lh)
    (simp_all add: generate_types api_no_lighthouse_metric lighthouse_metrics_def
      lighthouse_types check_fcp_types check_lcp_types check_cls_types check_tti_types
      check_tbt_types check_si_types check_performance_types check_accessibility_types
      split: option.split)

lemma accessibility_types:
  "alert_types ''Accessibility Score'' (generatePerformanceAlerts lh api) =
     (case Option.bind lh accessibility of
        None \<Rightarrow> []
      | Some x \<Rightarrow> critical_first (x \<le> 5 / 10) (x \<le> 7 / 10))"
  by (cases lh)
    (simp_all add: generate_types api_no_lighthouse_metric lighthouse_metrics_def
      lighthouse_types check_fcp_types check_lcp_types check_cls_types check_tti_types
      check_tbt_types check_si_types check_performance_types check_accessibility_types
      split: option.split)

lemma slow_api_types:
  "alert_types ''Slow API Calls'' (generatePerformanceAlerts lh api) =
     (case Option.bind api ar_apiCalls of
        None \<Rightarrow> []
      | Some calls \<Rightarrow>
          critical_first (list_ex (\<lambda>c. 1000 \<le> real_of_int (timeTaken c)) calls)
            (list_ex (\<lambda>c. 500 \<le> real_of_int (timeTaken c)) calls))"
  by (cases api)
    (simp_all add: generate_types lighthouse_no_api_metric api_metrics_def api_types
      check_slow_api_types check_error_rate_types check_payload_types critical_first_def
      split: option.split)

lemma error_rate_types:
  "alert_types ''API Error Rate'' (generatePerformanceAlerts lh api) =
     (case Option.bind api ar_apiCalls of
        None \<Rightarrow> []
      | Some calls \<Rightarrow>
          if calls = [] then []
          else critical_first
                 (1 / 10 \<le> real (length (filter is_error_call calls)) / real (length calls))
                 (5 / 100 \<le> real (length (filter is_error_call calls)) / real (length calls)))"
  by (cases api)
    (simp_all add: generate_types lighthouse_no_api_metric api_metrics_def api_types
      check_slow_api_types check_error_rate_types check_payload_types critical_first_def
      split: option.split)

lemma payload_types:
  "alert_types ''Large API Payloads'' (generatePerformanceAlerts lh api) =
     (case Option.bind api ar_apiCalls of
        None \<Rightarrow> []
      | Some calls \<Rightarrow>
          critical_first (list_ex (\<lambda>c. 5 * 1024 * 1024 \<le> raw_transferSize c) calls)
            (list_ex (\<lambda>c. 1024 * 1024 \<le> raw_transferSize c) calls))"
  by (cases api)
    (simp_all add: generate_types lighthouse_no_api_metric api_metrics_def api_types
      check_slow_api_types check_error_rate_types check_payload_types critical_first_def
      split: option.split)

lemma alert_types_shape:
  "alert_types m (generatePerformanceAlerts lh api) = [] \<or>
   alert_types m (generatePerformanceAlerts lh api) = [''critical''] \<or>
   alert_types m (generatePerformanceAlerts lh api) = [''warning'']"
proof -
  let ?f = "filter (\<lambda>a. a_metric a = m) (generatePerformanceAlerts lh api)"
  have "length ?f \<le> 1" by (rule alerts_one_per_metric_aux)
  then consider "?f = []" | a where "?f = [a]"
    by (cases ?f) auto
  then show ?thesis
  proof cases
    case 1
    then show ?thesis by (simp add: alert_types_def)
  next
    case 2
    then have "a \<in> set (filter (\<lambda>a. a_metric a = m) (generatePerformanceAlerts lh api))"
      by simp
    then have "a \<in> set (generatePerformanceAlerts lh api)"
      by simp
    with alerts_types [of lh api] have "a_type a = ''critical'' \<or> a_type a = ''warning''"
      by (simp add: list_all_iff)
    with 2 show ?thesis by (auto simp: alert_types_def)
  qed
qed

lemma alerts_known_metrics:
  "list_all (\<lambda>a. a_metric a \<in> set alert_metrics) (generatePerformanceAlerts lh api)"
  using list_emb_set [OF alerts_metrics [of lh api]]
  by (auto simp: list_all_iff)

text \<open>
  Claim C6. Every check is an \<open>if\<close> / \<open>else if\<close> pair that tests the critical threshold
  first and the warning threshold only when the critical one did not fire. So, for every
  input, the alerts of one metric are none, one critical alert or one warning alert, never
  both; and for each of the eleven metrics the alert is the one the policy
  \<open>critical_first\<close> gives for the value of the metric in the input and its two thresholds
  (a timing is critical from its critical threshold on, a score from its critical
  threshold down, the API calls when some call reaches the threshold); a metric that is
  absent has no alert, and there are no alerts of other metrics. Forty calls of which
  three failed (7.5%) give exactly one API Reliability alert, a warning with threshold
  \<open>5.0%\<close>; forty calls of which five failed (12.5%) give exactly one, a critical alert
  with threshold \<open>10.0%\<close>, and no warning.
\<close>

theorem alerts_one_per_metric:
  "length (filter (\<lambda>a. a_metric a = m) (generatePerformanceAlerts lh api)) \<le> 1 \<and>
   (alert_types m (generatePerformanceAlerts lh api) = [] \<or>
    alert_types m (generatePerformanceAlerts lh api) = [''critical''] \<or>
    alert_types m (generatePerformanceAlerts lh api) = [''warning'']) \<and>
   alert_types ''First Contentful Paint (FCP)'' (generatePerformanceAlerts lh api) =
     (case Option.bind lh (\<lambda>l. Option.bind (details l) fcpRaw) of
        None \<Rightarrow> []
      | Some x \<Rightarrow> critical_first (3000 \<le> x) (2000 \<le> x)) \<and>
   alert_types ''Largest Contentful Paint (LCP)'' (generatePerformanceAlerts lh api) =
     (case Option.bind lh (\<lambda>l. Option.bind (details l) lcpRaw) of
        None \<Rightarrow> []
      | Some x \<Rightarrow> critical_first (4000 \<le> x) (2500 \<le> x)) \<and>
   alert_types ''Cumulative Layout Shift (CLS)'' (generatePerformanceAlerts lh api) =
     (case Option.bind lh (\<lambda>l. Option.bind (details l) clsRaw) of
        None \<Rightarrow> []
      | Some x \<Rightarrow> critical_first (25 / 100 \<le> x) (1 / 10 \<le> x)) \<and>
   alert_types ''Time to Interactive (TTI)'' (generatePerformanceAlerts lh api) =
     (case Option.bind lh (\<lambda>l. Option.bind (details l) ttiRaw) of
        None \<Rightarrow> []
      | Some x \<Rightarrow> critical_first (7300 \<le> x) (3800 \<le> x)) \<and>
   alert_types ''Total Blocking Time (TBT)'' (generatePerformanceAlerts lh api) =
     (case Option.bind lh (\<lambda>l. Option.bind (details l) tbtRaw) of
        None \<Rightarrow> []
      | Some x \<Rightarrow> critical_first (600 \<le> x) (300 \<le> x)) \<and>
   alert_types ''Speed Index (SI)'' (generatePerformanceAlerts lh api) =
     (case Option.bind lh (\<lambda>l. Option.bind (details l) siRaw) of
        None \<Rightarrow> []
      | Some x \<Rightarrow> critical_first (5800 \<le> x) (3400 \<le> x)) \<and>
   alert_types ''Performance Score'' (generatePerformanceAlerts lh api) =
     (case Option.bind lh performance of
        None \<Rightarrow> []
      | Some x \<Rightarrow> critical_first (x \<le> 5 / 10) (x \<le> 7 / 10)) \<and>
   alert_types ''Accessibility Score'' (generatePerformanceAlerts lh api) =
     (case Option.bind lh accessibility of
        None \<Rightarrow> []
      | Some x \<Rightarrow> critical_first (x \<le> 5 / 10) (x \<le> 7 / 10)) \<and>
   alert_types ''Slow API Calls'' (generatePerformanceAlerts lh api) =
     (case Option.bind api ar_apiCalls of
        None \<Rightarrow> []
      | Some calls \<Rightarrow>
          critical_first (list_ex (\<lambda>c. 1000 \<le> real_of_int (timeTaken c)) calls)
            (list_ex (\<lambda>c. 500 \<le> real_of_int (timeTaken c)) calls)) \<and>
   alert_types ''API Error Rate'' (generatePerformanceAlerts lh api) =
     (case Option.bind api ar_apiCalls of
        None \<Rightarrow> []
      | Some calls \<Rightarrow>
          if calls = [] then []
          else critical_first
                 (1 / 10 \<le> real (length (filter is_error_call calls)) / real (length calls))
                 (5 / 100 \<le> real (length (filter is_error_call calls)) / real (length calls))) \<and>
   alert_types ''Large API Payloads'' (generatePerformanceAlerts lh api) =
     (case Option.bind api ar_apiCalls of
        None \<Rightarrow> []
      | Some calls \<Rightarrow>
          critical_first (list_ex (\<lambda>c. 5 * 1024 * 1024 \<le> raw_transferSize c) calls)
            (list_ex (\<lambda>c. 1024 * 1024 \<le> raw_transferSize c) calls)) \<and>
   list_all (\<lambda>a. a_metric a \<in> set alert_metrics) (generatePerformanceAlerts lh api) \<and>
   (length calls = 40 \<and> length (filter is_error_call calls) = 3 \<longrightarrow>
      (\<exists>a. filter (\<lambda>a. a_category a = ''API Reliability'')
              (generatePerformanceAlerts lh (Some \<lparr>ar_apiCalls = Some calls\<rparr>)) = [a] \<and>
           a_type a = ''warning'' \<and> a_threshold a = ''5.0%'' \<and> a_value a = ''7.5%'')) \<and>
   (length calls = 40 \<and> length (filter is_error_call calls) = 5 \<longrightarrow>
      (\<exists>a. filter (\<lambda>a. a_category a = ''API Reliability'')
              (generatePerformanceAlerts lh (Some \<lparr>ar_apiCalls = Some calls\<rparr>)) = [a] \<and>
           a_type a = ''critical'' \<and> a_threshold a = ''10.0%'' \<and> a_value a = ''12.5%''))"
proof -
  have r3: "\<exists>a. filter (\<lambda>a. a_category a = ''API Reliability'')
              (generatePerformanceAlerts lh (Some \<lparr>ar_apiCalls = Some calls\<rparr>)) = [a] \<and>
           a_type a = ''warning'' \<and> a_threshold a = ''5.0%'' \<and> a_value a = ''7.5%''"
    if a: "length calls = 40 \<and> length (filter is_error_call calls) = 3"
  proof -
    from a have "calls \<noteq> []" by auto
    then have "filter (\<lambda>a. a_category a = ''API Reliability'')
        (generatePerformanceAlerts lh (Some \<lparr>ar_apiCalls = Some calls\<rparr>)) = check_error_rate calls"
      by (rule reliability_alerts)
    with check_error_rate_3_of_40 [of calls] a show ?thesis by simp
  qed
  have r5: "\<exists>a. filter (\<lambda>a. a_category a = ''API Reliability'')
              (generatePerformanceAlerts lh (Some \<lparr>ar_apiCalls = Some calls\<rparr>)) = [a] \<and>
           a_type a = ''critical'' \<and> a_threshold a = ''10.0%'' \<and> a_value a = ''12.5%''"
    if a: "length calls = 40 \<and> length (filter is_error_call calls) = 5"
  proof -
    from a have "calls \<noteq> []" by auto
    then have "filter (\<lambda>a. a_category a = ''API Reliability'')
        (generatePerformanceAlerts lh (Some \<lparr>ar_apiCalls = Some calls\<rparr>)) = check_error_rate calls"
      by (rule reliability_alerts)
    with check_error_rate_5_of_40 [of calls] a show ?thesis by simp
  qed
  show ?thesis
    by (intro conjI)
      (rule alerts_one_per_metric_aux, rule alert_types_shape,
       rule fcp_types, rule lcp_types, rule cls_types, rule tti_types, rule tbt_types,
       rule si_types, rule performance_types, rule accessibility_types,
       rule slow_api_types, rule error_rate_types, rule payload_types,
       rule alerts_known_metrics, (rule impI, erule r3), (rule impI, erule r5))
qed

theorem alerts_one_per_metric_witness:
  "alert_types ''First Contentful Paint (FCP)''
     (generatePerformanceAlerts (Some example_lighthouse) (Some (forty_calls 3))) = [''warning''] \<and>
   alert_types ''Largest Contentful Paint (LCP)''
     (generatePerformanceAlerts (Some example_lighthouse) (Some (forty_calls 3))) = [''critical''] \<and>
   alert_types ''Cumulative Layout Shift (CLS)''
     (generatePerformanceAlerts (Some example_lighthouse) (Some (forty_calls 3))) = [] \<and>
   alert_types ''Slow API Calls''
     (generatePerformanceAlerts (Some example_lighthouse) (Some (forty_calls 3))) = [] \<and>
   alert_types ''API Error Rate''
     (generatePerformanceAlerts (Some example_lighthouse) (Some (forty_calls 3))) = [''warning''] \<and>
   length (filter (\<lambda>a. a_metric a = ''API Error Rate'')
      (generatePerformanceAlerts (Some example_lighthouse) (Some (forty_calls 3)))) \<le> 1 \<and>
   (\<exists>a. filter (\<lambda>a. a_category a = ''API Reliability'')
           (generatePerformanceAlerts (Some example_lighthouse) (Some (forty_calls 3))) = [a] \<and>
        a_type a = ''warning'' \<and> a_threshold a = ''5.0%'' \<and> a_value a = ''7.5%'') \<and>
   (\<exists>a. filter (\<lambda>a. a_category a = ''API Reliability'')
           (generatePerformanceAlerts (Some example_lighthouse) (Some (forty_calls 5))) = [a] \<and>
        a_type a = ''critical'' \<and> a_threshold a = ''10.0%'' \<and> a_value a = ''12.5%'')"
proof -
  let ?c3 = "replicate 3 (example_call 500) @ replicate (40 - 3) (example_call 200)"
  let ?c5 = "replicate 5 (example_call 500) @ replicate (40 - 5) (example_call 200)"
  have err: "is_error_call (example_call 500)" "\<not> is_error_call (example_call 200)"
    by (simp_all add: is_error_call_def example_call_def)
  have h3: "length ?c3 = 40 \<and> length (filter is_error_call ?c3) = 3"
    using err by simp
  have h5: "length ?c5 = 40 \<and> length (filter is_error_call ?c5) = 5"
    using err by simp
  note t3 = alerts_one_per_metric [of "''API Error Rate''" "Some example_lighthouse"
      "Some (forty_calls 3)" ?c3]
  note t5 = alerts_one_per_metric [of "''API Error Rate''" "Some example_lighthouse"
      "Some (forty_calls 3)" ?c5]
  note rest = t3 [THEN conjunct2, THEN conjunct2]
  have fcp: "alert_types ''First Contentful Paint (FCP)''
     (generatePerformanceAlerts (Some example_lighthouse) (Some (forty_calls 3))) = [''warning'']"
    using rest [THEN conjunct1]
    by (simp add: example_lighthouse_def critical_first_def)
  note rest = rest [THEN conjunct2]
  have lcp: "alert_types ''Largest Contentful Paint (LCP)''
     (generatePerformanceAlerts (Some example_lighthouse) (Some (forty_calls 3))) = [''critical'']"
    using rest [THEN conjunct1]
    by (simp add: example_lighthouse_def critical_first_def)
  note rest = rest [THEN conjunct2]
  have cls: "alert_types ''Cumulative Layout Shift (CLS)''
     (generatePerformanceAlerts (Some example_lighthouse) (Some (forty_calls 3))) = []"
    using rest [THEN conjunct1]
    by (simp add: example_lighthouse_def critical_first_def)
  note rest = rest [THEN conjunct2, THEN conjunct2, THEN conjunct2, THEN conjunct2,
      THEN conjunct2, THEN conjunct2]
  have slow: "alert_types ''Slow API Calls''
     (generatePerformanceAlerts (Some example_lighthouse) (Some (forty_calls 3))) = []"
    using rest [THEN conjunct1]
    by (simp add: forty_calls_def example_call_def critical_first_def list_ex_iff)
  note rest = rest [THEN conjunct2]
  have rate: "alert_types ''API Error Rate''
     (generatePerformanceAlerts (Some example_lighthouse) (Some (forty_calls 3))) = [''warning'']"
    using rest [THEN conjunct1] err
    by (simp add: forty_calls_def critical_first_def)
  from t3 have one: "length (filter (\<lambda>a. a_metric a = ''API Error Rate'')
      (generatePerformanceAlerts (Some example_lighthouse) (Some (forty_calls 3)))) \<le> 1"
    by (rule conjunct1)
  note rest = rest [THEN conjunct2, THEN conjunct2, THEN conjunct2]
  note w3 = rest [THEN conjunct1, THEN mp, OF h3, folded forty_calls_def]
  note rest5 = t5 [THEN conjunct2, THEN conjunct2, THEN conjunct2, THEN conjunct2,
      THEN conjunct2, THEN conjunct2, THEN conjunct2, THEN conjunct2, THEN conjunct2,
      THEN conjunct2, THEN conjunct2, THEN conjunct2, THEN conjunct2, THEN conjunct2,
      THEN conjunct2]
  note w5 = rest5 [THEN mp, OF h5, folded forty_calls_def]
  from fcp lcp cls slow rate one w3 w5 show ?thesis
    by (intro conjI)
qed

lemma groups_partition:
  assumes "list_all (\<lambda>a. a_type a = ''critical'' \<or> a_type a = ''warning'') g"
  shows "mset (criticalAlerts g @ warningAlerts g) = mset g"
proof -
  have "filter (\<lambda>a. a_type a = ''warning'') g = filter (\<lambda>a. \<not> a_type a = ''critical'') g"
    using assms by (intro filter_cong) (auto simp: list_all_iff)
  then show ?thesis
    by (simp add: criticalAlerts_def warningAlerts_def)
qed

lemma concat_map_nth:
  assumes "i < length xs"
  shows "concat (map f xs) =
    concat (map f (take i xs)) @ f (xs ! i) @ concat (map f (drop (Suc i) xs))"
proof -
  have "concat (map f xs) = concat (map f (take i xs @ xs ! i # drop (Suc i) xs))"
    using id_take_nth_drop [OF assms] by (rule arg_cong)
  then show ?thesis by simp
qed

lemma entries_one:
  assumes "i < length xs"
  shows "\<exists>pre post. concat (map format_alert (enumerate 0 xs)) =
    pre @ format_alert (i, xs ! i) @ post"
proof -
  from assms have "i < length (enumerate 0 xs)" by simp
  from concat_map_nth [OF this, of format_alert] assms show ?thesis
    by (simp add: nth_enumerate_eq) blast
qed

lemma entries_two:
  assumes "i < j" and "j < length xs"
  shows "\<exists>pre mid post. concat (map format_alert (enumerate 0 xs)) =
    pre @ format_alert (i, xs ! i) @ mid @ format_alert (j, xs ! j) @ post"
proof -
  let ?ys = "enumerate 0 xs"
  from assms have j: "j < length ?ys" by simp
  from assms have i: "i < length (take j ?ys)" by simp
  have yj: "?ys ! j = (j, xs ! j)"
    using assms by (simp add: nth_enumerate_eq)
  have yi: "take j ?ys ! i = (i, xs ! i)"
    using assms by (simp add: nth_enumerate_eq)
  have "concat (map format_alert ?ys) =
      concat (map format_alert (take j ?ys)) @ format_alert (?ys ! j) @
      concat (map format_alert (drop (Suc j) ?ys))"
    using j by (rule concat_map_nth)
  also have "concat (map format_alert (take j ?ys)) =
      concat (map format_alert (take i (take j ?ys))) @ format_alert (take j ?ys ! i) @
      concat (map format_alert (drop (Suc i) (take j ?ys)))"
    using i by (rule concat_map_nth)
  finally have "concat (map format_alert ?ys) =
      concat (map format_alert (take i (take j ?ys))) @ format_alert (i, xs ! i) @
      concat (map format_alert (drop (Suc i) (take j ?ys))) @ format_alert (j, xs ! j) @
      concat (map format_alert (drop (Suc j) ?ys))"
    unfolding yi yj by simp
  then show ?thesis by blast
qed

lemma section_one:
  assumes "i < length xs"
  shows "\<exists>pre post. format_section h xs = pre @ format_alert (i, xs ! i) @ post"
proof -
  from entries_one [OF assms] obtain pre post where
    e: "concat (map format_alert (enumerate 0 xs)) = pre @ format_alert (i, xs ! i) @ post"
    by blast
  from assms have "0 < length xs" by (cases xs) simp_all
  then have "format_section h xs =
      (h @ '' ('' @ show_nat (length xs) @ '')'' @ newline @
       ''===================='' @ newline @ newline @ pre) @ format_alert (i, xs ! i) @ post"
    unfolding format_section_def e by simp
  then show ?thesis by blast
qed

lemma section_two:
  assumes "i < j" and "j < length xs"
  shows "\<exists>pre mid post. format_section h xs =
    pre @ format_alert (i, xs ! i) @ mid @ format_alert (j, xs ! j) @ post"
proof -
  from entries_two [OF assms] obtain pre mid post where
    e: "concat (map format_alert (enumerate 0 xs)) =
      pre @ format_alert (i, xs ! i) @ mid @ format_alert (j, xs ! j) @ post"
    by blast
  from assms have "0 < length xs" by (cases xs) simp_all
  then have "format_section h xs =
      (h @ '' ('' @ show_nat (length xs) @ '')'' @ newline @
       ''===================='' @ newline @ newline @ pre) @
      format_alert (i, xs ! i) @ mid @ format_alert (j, xs ! j) @ post"
    unfolding format_section_def e by simp
  then show ?thesis by blast
qed

lemma display_sections:
  assumes "g \<noteq> []"
  shows "\<exists>summary. formatAlertsForDisplay (Some g) =
    format_section ''CRITICAL ALERTS'' (criticalAlerts g) @
    format_section ''WARNING ALERTS'' (warningAlerts g) @ summary"
  using assms by (simp add: formatAlertsForDisplay_def)

lemma group_nonempty:
  "i < length (criticalAlerts g) \<Longrightarrow> g \<noteq> []" "j < length (warningAlerts g) \<Longrightarrow> g \<noteq> []"
  by (auto simp: criticalAlerts_def warningAlerts_def)

lemma display_critical_before_warning:
  assumes "i < length (criticalAlerts g)" and "j < length (warningAlerts g)"
  shows "\<exists>pre mid post. formatAlertsForDisplay (Some g) =
    pre @ format_alert (i, criticalAlerts g ! i) @ mid @
    format_alert (j, warningAlerts g ! j) @ post"
proof -
  from display_sections [OF group_nonempty(1) [OF assms(1)]] obtain summary where
    d: "formatAlertsForDisplay (Some g) =
      format_section ''CRITICAL ALERTS'' (criticalAlerts g) @
      format_section ''WARNING ALERTS'' (warningAlerts g) @ summary"
    by blast
  from section_one [OF assms(1)] obtain p1 q1 where
    c: "format_section ''CRITICAL ALERTS'' (criticalAlerts g) =
      p1 @ format_alert (i, criticalAlerts g ! i) @ q1"
    by blast
  from section_one [OF assms(2)] obtain p2 q2 where
    w: "format_section ''WARNING ALERTS'' (warningAlerts g) =
      p2 @ format_alert (j, warningAlerts g ! j) @ q2"
    by blast
  have "formatAlertsForDisplay (Some g) =
      p1 @ format_alert (i, criticalAlerts g ! i) @ (q1 @ p2) @
      format_alert (j, warningAlerts g ! j) @ (q2 @ summary)"
    unfolding d c w by simp
  then show ?thesis by blast
qed

lemma display_critical_order:
  assumes "i < j" and "j < length (criticalAlerts g)"
  shows "\<exists>pre mid post. formatAlertsForDisplay (Some g) =
    pre @ format_alert (i, criticalAlerts g ! i) @ mid @
    format_alert (j, criticalAlerts g ! j) @ post"
proof -
  from display_sections [OF group_nonempty(1) [OF assms(2)]] obtain summary where
    d: "formatAlertsForDisplay (Some g) =
      format_section ''CRITICAL ALERTS'' (criticalAlerts g) @
      format_section ''WARNING ALERTS'' (warningAlerts g) @ summary"
    by blast
  from section_two [OF assms] obtain pre mid post where
    c: "format_section ''CRITICAL ALERTS'' (criticalAlerts g) =
      pre @ format_alert (i, criticalAlerts g ! i) @ mid @
      format_alert (j, criticalAlerts g ! j) @ post"
    by blast
  have "formatAlertsForDisplay (Some g) =
      pre @ format_alert (i, criticalAlerts g ! i) @ mid @
      format_alert (j, criticalAlerts g ! j) @
      (post @ format_section ''WARNING ALERTS'' (warningAlerts g) @ summary)"
    unfolding d c by simp
  then show ?thesis by blast
qed

lemma display_warning_order:
  assumes "i < j" and "j < length (warningAlerts g)"
  shows "\<exists>pre mid post. formatAlertsForDisplay (Some g) =
    pre @ format_alert (i, warningAlerts g ! i) @ mid @
    format_alert (j, warningAlerts g ! j) @ post"
proof -
  from display_sections [OF group_nonempty(2) [OF assms(2)]] obtain summary where
    d: "formatAlertsForDisplay (Some g) =
      format_section ''CRITICAL ALERTS'' (criticalAlerts g) @
      format_section ''WARNING ALERTS'' (warningAlerts g) @ summary"
    by blast
  from section_two [OF assms] obtain pre mid post where
    w: "format_section ''WARNING ALERTS'' (warningAlerts g) =
      pre @ format_alert (i, warningAlerts g ! i) @ mid @
      format_alert (j, warningAlerts g ! j) @ post"
    by blast
  have "formatAlertsForDisplay (Some g) =
      (format_section ''CRITICAL ALERTS'' (criticalAlerts g) @ pre) @
      format_alert (i, warningAlerts g ! i) @ mid @
      format_alert (j, warningAlerts g ! j) @ (post @ summary)"
    unfolding d w by simp
  then show ?thesis by blast
qed

lemma format_alert_lines:
  "\<exists>rest. format_alert (i, a) =
     show_nat (i + 1) @ ''. '' @ a_message a @ newline @
     ''   Metric: '' @ a_metric a @ newline @
     ''   Value: '' @ a_value a @ '' (Threshold: '' @ a_threshold a @ '')'' @ newline @
     ''   Recommendation: '' @ a_recommendation a @ newline @ rest"
  by (simp add: format_alert_def Let_def)

text \<open>
  Claim C8, as the code has it. \<open>generatePerformanceAlerts\<close> returns the alerts in the
  order they were generated, which is the fixed order of the metric checks, not grouped by
  severity. The grouping is made by \<open>formatAlertsForDisplay\<close>: the critical alerts and the
  warning alerts together are exactly the generated alerts, each group in the order of
  generation; in the text, the entry of every critical alert stands before the entry of
  every warning alert, and within each group the entry of an alert stands before the
  entries of the alerts generated after it. The entry of the alert at place \<open>i\<close> of its
  group starts with the number \<open>i + 1\<close> and the message of the alert, followed by the
  lines of its metric, its value and threshold, and its recommendation.
\<close>

theorem display_groups_by_severity:
  assumes "g = generatePerformanceAlerts lh api"
  shows "subseq (map a_metric g) alert_metrics \<and>
    mset (criticalAlerts g @ warningAlerts g) = mset g \<and>
    subseq (criticalAlerts g) g \<and> subseq (warningAlerts g) g \<and>
    (\<forall>a \<in> set (criticalAlerts g). a_type a = ''critical'') \<and>
    (\<forall>a \<in> set (warningAlerts g). a_type a = ''warning'') \<and>
    (g \<noteq> [] \<longrightarrow>
       (\<exists>summary. formatAlertsForDisplay (Some g) =
          format_section ''CRITICAL ALERTS'' (criticalAlerts g) @
          format_section ''WARNING ALERTS'' (warningAlerts g) @ summary)) \<and>
    (i < length (criticalAlerts g) \<and> j < length (warningAlerts g) \<longrightarrow>
       (\<exists>pre mid post. formatAlertsForDisplay (Some g) =
          pre @ format_alert (i, criticalAlerts g ! i) @ mid @
          format_alert (j, warningAlerts g ! j) @ post)) \<and>
    (i < j \<and> j < length (criticalAlerts g) \<longrightarrow>
       (\<exists>pre mid post. formatAlertsForDisplay (Some g) =
          pre @ format_alert (i, criticalAlerts g ! i) @ mid @
          format_alert (j, criticalAlerts g ! j) @ post)) \<and>
    (i < j \<and> j < length (warningAlerts g) \<longrightarrow>
       (\<exists>pre mid post. formatAlertsForDisplay (Some g) =
          pre @ format_alert (i, warningAlerts g ! i) @ mid @
          format_alert (j, warningAlerts g ! j) @ post)) \<and>
    (\<exists>rest. format_alert (i, a) =
       show_nat (i + 1) @ ''. '' @ a_message a @ newline @
       ''   Metric: '' @ a_metric a @ newline @
       ''   Value: '' @ a_value a @ '' (Threshold: '' @ a_threshold a @ '')'' @ newline @
       ''   Recommendation: '' @ a_recommendation a @ newline @ rest)"
proof -
  have m: "subseq (map a_metric g) alert_metrics"
    unfolding assms by (rule alerts_metrics)
  have p: "mset (criticalAlerts g @ warningAlerts g) = mset g"
    unfolding assms by (rule groups_partition) (rule alerts_types)
  have sc: "subseq (criticalAlerts g) g" and sw: "subseq (warningAlerts g) g"
    by (simp_all add: criticalAlerts_def warningAlerts_def)
  have tc: "\<forall>a \<in> set (criticalAlerts g). a_type a = ''critical''"
    by (simp add: criticalAlerts_def)
  have tw: "\<forall>a \<in> set (warningAlerts g). a_type a = ''warning''"
    by (simp add: warningAlerts_def)
  have cw: "\<exists>pre mid post. formatAlertsForDisplay (Some g) =
          pre @ format_alert (i, criticalAlerts g ! i) @ mid @
          format_alert (j, warningAlerts g ! j) @ post"
    if "i < length (criticalAlerts g) \<and> j < length (warningAlerts g)"
    using that by (intro display_critical_before_warning) simp_all
  have cc: "\<exists>pre mid post. formatAlertsForDisplay (Some g) =
          pre @ format_alert (i, criticalAlerts g ! i) @ mid @
          format_alert (j, criticalAlerts g ! j) @ post"
    if "i < j \<and> j < length (criticalAlerts g)"
    using that by (intro display_critical_order) simp_all
  have ww: "\<exists>pre mid post. formatAlertsForDisplay (Some g) =
          pre @ format_alert (i, warningAlerts g ! i) @ mid @
          format_alert (j, warningAlerts g ! j) @ post"
    if "i < j \<and> j < length (warningAlerts g)"
    using that by (intro display_warning_order) simp_all
  show ?thesis
    by (intro conjI)
      (rule m, rule p, rule sc, rule sw, rule tc, rule tw,
       (rule impI, erule display_sections), (rule impI, erule cw), (rule impI, erule cc),
       (rule impI, erule ww), rule format_alert_lines)
qed

theorem display_groups_by_severity_witness:
  "map a_metric (generatePerformanceAlerts (Some example_lighthouse) None) =
     [''First Contentful Paint (FCP)'', ''Largest Contentful Paint (LCP)''] \<and>
   map a_type (criticalAlerts (generatePerformanceAlerts (Some example_lighthouse) None) @
               warningAlerts (generatePerformanceAlerts (Some example_lighthouse) None)) =
     [''critical'', ''warning''] \<and>
   mset (criticalAlerts (generatePerformanceAlerts (Some example_lighthouse) None) @
         warningAlerts (generatePerformanceAlerts (Some example_lighthouse) None)) =
     mset (generatePerformanceAlerts (Some example_lighthouse) None) \<and>
   subseq (map a_metric (generatePerformanceAlerts (Some example_lighthouse) None)) alert_metrics \<and>
   formatAlertsForDisplay (Some (generatePerformanceAlerts (Some example_lighthouse) None)) =
     concat (map (\<lambda>line. line @ newline)
       [''CRITICAL ALERTS (1)'',
        ''===================='',
        [],
        ''1. Largest Contentful Paint is critically slow'',
        ''   Metric: Largest Contentful Paint (LCP)'',
        ''   Value: 4.50s (Threshold: 4s)'',
        ''   Recommendation: Optimize and prioritize loading of hero images and text. Consider using CDN and image optimization.'',
        [],
        ''WARNING ALERTS (1)'',
        ''===================='',
        [],
        ''1. First Contentful Paint is slow'',
        ''   Metric: First Contentful Paint (FCP)'',
        ''   Value: 2.50s (Threshold: 2s)'',
        ''   Recommendation: Consider optimizing server response time and reducing render-blocking resources.'',
        [],
        ''SUMMARY'',
        ''===================='',
        [],
        ''Total Alerts: 2'',
        ''Critical Alerts: 1'',
        ''Warning Alerts: 1'']) \<and>
   (\<exists>pre mid post. formatAlertsForDisplay (Some (generatePerformanceAlerts (Some example_lighthouse) None)) =
      pre @
      format_alert (0, criticalAlerts (generatePerformanceAlerts (Some example_lighthouse) None) ! 0) @
      mid @
      format_alert (0, warningAlerts (generatePerformanceAlerts (Some example_lighthouse) None) ! 0) @
      post) \<and>
   map a_metric (criticalAlerts (generatePerformanceAlerts (Some example_lighthouse) (Some (forty_calls 5)))) =
     [''Largest Contentful Paint (LCP)'', ''API Error Rate''] \<and>
   (\<exists>pre mid post. formatAlertsForDisplay (Some (generatePerformanceAlerts (Some example_lighthouse) (Some (forty_calls 5)))) =
      pre @
      format_alert (0, criticalAlerts (generatePerformanceAlerts (Some example_lighthouse) (Some (forty_calls 5))) ! 0) @
      mid @
      format_alert (1, criticalAlerts (generatePerformanceAlerts (Some example_lighthouse) (Some (forty_calls 5))) ! 1) @
      post)"
proof -
  let ?g1 = "generatePerformanceAlerts (Some example_lighthouse) None"
  let ?g2 = "generatePerformanceAlerts (Some example_lighthouse) (Some (forty_calls 5))"
  have m: "map a_metric ?g1 =
     [''First Contentful Paint (FCP)'', ''Largest Contentful Paint (LCP)'']"
    by code_simp
  have t: "map a_type (criticalAlerts ?g1 @ warningAlerts ?g1) = [''critical'', ''warning'']"
    by code_simp
  have d: "formatAlertsForDisplay (Some ?g1) =
     concat (map (\<lambda>line. line @ newline)
       [''CRITICAL ALERTS (1)'',
        ''===================='',
        [],
        ''1. Largest Contentful Paint is critically slow'',
        ''   Metric: Largest Contentful Paint (LCP)'',
        ''   Value: 4.50s (Threshold: 4s)'',
        ''   Recommendation: Optimize and prioritize loading of hero images and text. Consider using CDN and image optimization.'',
        [],
        ''WARNING ALERTS (1)'',
        ''===================='',
        [],
        ''1. First Contentful Paint is slow'',
        ''   Metric: First Contentful Paint (FCP)'',
        ''   Value: 2.50s (Threshold: 2s)'',
        ''   Recommendation: Consider optimizing server response time and reducing render-blocking resources.'',
        [],
        ''SUMMARY'',
        ''===================='',
        [],
        ''Total Alerts: 2'',
        ''Critical Alerts: 1'',
        ''Warning Alerts: 1''])"
    by (simp add: formatAlertsForDisplay_def format_section_def format_alert_def
        criticalAlerts_def warningAlerts_def generatePerformanceAlerts_def
        lighthouse_alerts_def api_alerts_def check_fcp_def check_lcp_def check_cls_def
        check_tti_def check_tbt_def check_si_def check_performance_def
        check_accessibility_def example_lighthouse_def thresholds_def newline_def js_eval)
  have "map a_type (criticalAlerts ?g1) = [''critical'']"
    by code_simp
  then have "length (map a_type (criticalAlerts ?g1)) = 1" by simp
  moreover have "map a_type (warningAlerts ?g1) = [''warning'']"
    by code_simp
  then have "length (map a_type (warningAlerts ?g1)) = 1" by simp
  ultimately have l1: "0 < length (criticalAlerts ?g1) \<and> 0 < length (warningAlerts ?g1)"
    by simp
  have err: "is_error_call (example_call 500)" "\<not> is_error_call (example_call 200)"
    by (simp_all add: is_error_call_def example_call_def)
  have t2: "map a_metric (criticalAlerts ?g2) =
     [''Largest Contentful Paint (LCP)'', ''API Error Rate'']"
    by (simp add: criticalAlerts_def generatePerformanceAlerts_def
        lighthouse_alerts_def api_alerts_def check_fcp_def check_lcp_def check_cls_def
        check_tti_def check_tbt_def check_si_def check_performance_def
        check_accessibility_def check_slow_api_def check_error_rate_def check_payload_def
        example_lighthouse_def forty_calls_def thresholds_def apiThresholds_def
        payload_critical_def payload_warning_def raw_transferSize_def example_call_def
        Let_def)
  then have "length (map a_metric (criticalAlerts ?g2)) = 2" by simp
  then have l2: "(0::nat) < 1 \<and> 1 < length (criticalAlerts ?g2)" by simp
  note w1 = display_groups_by_severity [OF refl, of "Some example_lighthouse" None 0 0]
  note w2 = display_groups_by_severity [OF refl, of "Some example_lighthouse"
      "Some (forty_calls 5)" 0 1]
  note p = w1 [THEN conjunct2, THEN conjunct1]
  note s = w1 [THEN conjunct1]
  note rest1 = w1 [THEN conjunct2, THEN conjunct2, THEN conjunct2, THEN conjunct2,
      THEN conjunct2, THEN conjunct2, THEN conjunct2]
  note cw = rest1 [THEN conjunct1, THEN mp, OF l1]
  note rest2 = w2 [THEN conjunct2, THEN conjunct2, THEN conjunct2, THEN conjunct2,
      THEN conjunct2, THEN conjunct2, THEN conjunct2, THEN conjunct2]
  note cc = rest2 [THEN conjunct1, THEN mp, OF l2]
  from m t p s d cw t2 cc show ?thesis
    by (intro conjI)
qed

text \<open>
  Claim C8, as stated, fails for the list that \<open>generatePerformanceAlerts\<close> returns: with
  FCP at 2500 ms and LCP at 4500 ms the warning for FCP stands before the critical alert
  for LCP.
\<close>

theorem alerts_order_counterexample:
  "map a_type (generatePerformanceAlerts (Some example_lighthouse) None) =
     [''warning'', ''critical'']"
  by code_simp

section \<open>Properties of the impact correlator\<close>

lemma analyze_loop_acc:
  "analyze_loop b acc calls s =
     (acc @ fst (analyze_loop b [] calls s), snd (analyze_loop b [] calls s))"
proof (induction calls arbitrary: acc s)
  case Nil
  then show ?case by simp
next
  case (Cons c cs)
  obtain r s1 where m: "measure_call b c s = (r, s1)"
    by (cases "measure_call b c s")
  have "analyze_loop b acc (c # cs) s = analyze_loop b (acc @ [enhance c r]) cs s1"
    using m by (simp add: analyze_loop.simps)
  also have "\<dots> = ((acc @ [enhance c r]) @ fst (analyze_loop b [] cs s1),
      snd (analyze_loop b [] cs s1))"
    by (rule Cons.IH)
  finally have l: "analyze_loop b acc (c # cs) s =
      (acc @ enhance c r # fst (analyze_loop b [] cs s1), snd (analyze_loop b [] cs s1))"
    by simp
  have "analyze_loop b [] (c # cs) s = analyze_loop b ([] @ [enhance c r]) cs s1"
    using m by (simp add: analyze_loop.simps)
  also have "\<dots> = (([] @ [enhance c r]) @ fst (analyze_loop b [] cs s1),
      snd (analyze_loop b [] cs s1))"
    by (rule Cons.IH)
  finally have "analyze_loop b [] (c # cs) s =
      (enhance c r # fst (analyze_loop b [] cs s1), snd (analyze_loop b [] cs s1))"
    by simp
  with l show ?case by simp
qed

lemma analyze_loop_Cons:
  "measure_call b c s = (r, s1) \<Longrightarrow>
     analyze_loop b [] (c # cs) s =
       (enhance c r # fst (analyze_loop b [] cs s1), snd (analyze_loop b [] cs s1))"
  using analyze_loop_acc [of b "[enhance c r]" cs s1] by (simp add: analyze_loop.simps)

lemma analyze_loop_length: "length (fst (analyze_loop b [] calls s)) = length calls"
proof (induction calls arbitrary: s)
  case Nil
  then show ?case by simp
next
  case (Cons c cs)
  obtain r s1 where m: "measure_call b c s = (r, s1)"
    by (cases "measure_call b c s")
  show ?case
    by (simp add: analyze_loop_Cons [OF m] Cons.IH)
qed

lemma analyze_loop_nth:
  "i < length calls \<Longrightarrow>
     fst (analyze_loop b [] calls s) ! i =
       enhance (calls ! i) (fst (measure_call b (calls ! i) (page_before b calls i s)))"
proof (induction calls arbitrary: i s)
  case Nil
  then show ?case by simp
next
  case (Cons c cs)
  obtain r s1 where m: "measure_call b c s = (r, s1)"
    by (cases "measure_call b c s")
  show ?case
  proof (cases i)
    case 0
    then show ?thesis
      by (simp add: analyze_loop_Cons [OF m] page_before_def m)
  next
    case (Suc k)
    with Cons.prems have k: "k < length cs" by simp
    have "page_before b (c # cs) (Suc k) s = page_before b cs k s1"
      by (simp add: page_before_def analyze_loop_Cons [OF m])
    with Suc k Cons.IH [OF k, of s1] show ?thesis
      by (simp add: analyze_loop_Cons [OF m])
  qed
qed

lemma analyzeApiImpact_returns:
  assumes "cb_launch b = Inr s0" and "cb_goto b pageUrl s0 = (None, s1)"
    and "\<forall>s. cb_close b s = None"
  shows "analyzeApiImpact b calls pageUrl = Inr (fst (analyze_loop b [] calls s1))"
  using assms by (simp add: analyzeApiImpact_def split: prod.splits)

lemma analyzeApiImpact_result:
  assumes "analyzeApiImpact b calls pageUrl = Inr out"
  shows "\<exists>s0 s1. cb_launch b = Inr s0 \<and> cb_goto b pageUrl s0 = (None, s1) \<and>
    out = fst (analyze_loop b [] calls s1)"
  using assms
  by (auto simp: analyzeApiImpact_def split: sum.splits prod.splits option.splits)



lemma update_frame:
  "k \<noteq> k' \<Longrightarrow> map_of (AList.update k' v al) k = map_of al k"
  by (simp add: update_conv')

lemma update_keeps_others:
  "filter (\<lambda>p. fst p \<noteq> k) (AList.update k v al) = filter (\<lambda>p. fst p \<noteq> k) al"
  by (induction al) auto

lemma enhance_frame:
  "(\<exists>impact. enhance c r = AList.update ''frontendImpact'' impact c) \<and>
   (\<forall>k. k \<noteq> ''frontendImpact'' \<longrightarrow> map_of (enhance c r) k = map_of c k) \<and>
   map_of (enhance c r) ''frontendImpact'' \<noteq> None \<and>
   filter (\<lambda>p. fst p \<noteq> ''frontendImpact'') (enhance c r) =
     filter (\<lambda>p. fst p \<noteq> ''frontendImpact'') c"
  by (cases r) (auto simp: enhance_def update_conv' update_keeps_others)



text \<open>
  Claim C10. Whenever \<open>analyzeApiImpact\<close> returns a list, it has the length of the input,
  and the record at each index is the input call at that index with the property
  \<open>frontendImpact\<close> set: every other property has its value and its place, and
  \<open>frontendImpact\<close> is present. The function does return a list when the browser session
  opens and closes without an exception.
\<close>

theorem analyzeApiImpact_frame:
  "(cb_launch b = Inr s0 \<and> cb_goto b pageUrl s0 = (None, s1) \<and> (\<forall>s. cb_close b s = None) \<longrightarrow>
      (\<exists>out. analyzeApiImpact b calls pageUrl = Inr out)) \<and>
   (analyzeApiImpact b calls pageUrl = Inr out \<longrightarrow>
      length out = length calls \<and>
      (\<forall>i < length calls.
         (\<exists>impact. out ! i = AList.update ''frontendImpact'' impact (calls ! i)) \<and>
         (\<forall>k. k \<noteq> ''frontendImpact'' \<longrightarrow> map_of (out ! i) k = map_of (calls ! i) k) \<and>
         map_of (out ! i) ''frontendImpact'' \<noteq> None \<and>
         filter (\<lambda>p. fst p \<noteq> ''frontendImpact'') (out ! i) =
           filter (\<lambda>p. fst p \<noteq> ''frontendImpact'') (calls ! i)))"
proof (intro conjI impI)
  assume a: "cb_launch b = Inr s0 \<and> cb_goto b pageUrl s0 = (None, s1) \<and> (\<forall>s. cb_close b s = None)"
  from a have l: "cb_launch b = Inr s0" and g: "cb_goto b pageUrl s0 = (None, s1)"
    and c: "\<forall>s. cb_close b s = None"
    by simp_all
  from l g c have "analyzeApiImpact b calls pageUrl = Inr (fst (analyze_loop b [] calls s1))"
    by (rule analyzeApiImpact_returns)
  then show "\<exists>out. analyzeApiImpact b calls pageUrl = Inr out" by blast
next
  assume r: "analyzeApiImpact b calls pageUrl = Inr out"
  then obtain t where out: "out = fst (analyze_loop b [] calls t)"
    using analyzeApiImpact_result by blast
  show "length out = length calls"
    unfolding out by (rule analyze_loop_length)
  show "\<forall>i < length calls.
         (\<exists>impact. out ! i = AList.update ''frontendImpact'' impact (calls ! i)) \<and>
         (\<forall>k. k \<noteq> ''frontendImpact'' \<longrightarrow> map_of (out ! i) k = map_of (calls ! i) k) \<and>
         map_of (out ! i) ''frontendImpact'' \<noteq> None \<and>
         filter (\<lambda>p. fst p \<noteq> ''frontendImpact'') (out ! i) =
           filter (\<lambda>p. fst p \<noteq> ''frontendImpact'') (calls ! i)"
  proof (intro allI impI)
    fix i assume "i < length calls"
    then have "out ! i = enhance (calls ! i)
        (fst (measure_call b (calls ! i) (page_before b calls i t)))"
      unfolding out by (rule analyze_loop_nth)
    then show "(\<exists>impact. out ! i = AList.update ''frontendImpact'' impact (calls ! i)) \<and>
         (\<forall>k. k \<noteq> ''frontendImpact'' \<longrightarrow> map_of (out ! i) k = map_of (calls ! i) k) \<and>
         map_of (out ! i) ''frontendImpact'' \<noteq> None \<and>
         filter (\<lambda>p. fst p \<noteq> ''frontendImpact'') (out ! i) =
           filter (\<lambda>p. fst p \<noteq> ''frontendImpact'') (calls ! i)"
      using enhance_frame by simp
  qed
qed

theorem analyzeApiImpact_frame_witness:
  "\<exists>out. analyzeApiImpact example_page example_calls ''https://x.com/'' = Inr out \<and>
     length out = length example_calls \<and>
     map_of (out ! 2) ''status'' = map_of (example_calls ! 2) ''status'' \<and>
     map_of (out ! 2) ''frontendImpact'' \<noteq> None \<and>
     filter (\<lambda>p. fst p \<noteq> ''frontendImpact'') (out ! 0) =
       filter (\<lambda>p. fst p \<noteq> ''frontendImpact'') (example_calls ! 0)"
proof -
  have h: "cb_launch example_page = Inr 0 \<and>
      cb_goto example_page ''https://x.com/'' 0 = (None, 0) \<and>
      (\<forall>s. cb_close example_page s = None)"
    by (simp add: example_page_def)
  from analyzeApiImpact_frame [of example_page 0 "''https://x.com/''" 0 example_calls, THEN conjunct1,
      THEN mp, OF h]
  obtain out where o: "analyzeApiImpact example_page example_calls ''https://x.com/'' = Inr out"
    by blast
  note f = analyzeApiImpact_frame [of example_page 0 "''https://x.com/''" 0 example_calls out,
      THEN conjunct2, THEN mp, OF o]
  have n: "0 < length example_calls" "2 < length example_calls"
    by (simp_all add: example_calls_def)
  have k: "''status'' \<noteq> ''frontendImpact''"
    by simp
  from f have len: "length out = length example_calls"
    by (elim conjE)
  from f n(2) have p2: "(\<forall>k. k \<noteq> ''frontendImpact'' \<longrightarrow>
        map_of (out ! 2) k = map_of (example_calls ! 2) k) \<and>
      map_of (out ! 2) ''frontendImpact'' \<noteq> None"
    by blast
  from f n(1) have p0: "filter (\<lambda>p. fst p \<noteq> ''frontendImpact'') (out ! 0) =
       filter (\<lambda>p. fst p \<noteq> ''frontendImpact'') (example_calls ! 0)"
    by blast
  note st = p2 [THEN conjunct1, rule_format, OF k]
  note fi = p2 [THEN conjunct2]
  from o len st fi p0 show ?thesis
    by (intro exI [of _ out] conjI)
qed

end
